(* ===== verification/Prelude.thy ===== *)
theory Prelude
  imports Main "HOL-Library.Word"
begin

text \<open>
  Shared vocabulary of the development: the machine types of the C code, the
  \<^verbatim>\<open>errno\<close> values it uses, the bundles of facts the component theories extend, and
  generic lemmas on lists, maps and words.

  Conventions used by every theory:
  \<^item> a C struct is a record, an enum a group of word constants, a nullable pointer an
    \<open>option\<close>, a heap a partial map from addresses to objects;
  \<^item> \<^verbatim>\<open>uint8_t\<close>, \<^verbatim>\<open>uint32_t\<close>, \<^verbatim>\<open>uint64_t\<close> are words; \<^verbatim>\<open>int\<close> results that only carry an
    error code are \<open>int\<close>;
  \<^item> the outcome of a system or third-party call (a lock, an allocation, an ioctl) is an
    argument of the function that makes the call;
  \<^item> logging has no effect on the state and is left out.
\<close>

unbundle bit_operations_syntax

section \<open>Machine types and error numbers\<close>

type_synonym u8 = "8 word"
type_synonym u16 = "16 word"
type_synonym u32 = "32 word"
type_synonym u64 = "64 word"
type_synonym addr = nat

abbreviation (input) "EPERM_no \<equiv> (1::int)"
abbreviation (input) "ENOENT_no \<equiv> (2::int)"
abbreviation (input) "EBADF_no \<equiv> (9::int)"
abbreviation (input) "ENOMEM_no \<equiv> (12::int)"
abbreviation (input) "EACCES_no \<equiv> (13::int)"
abbreviation (input) "EFAULT_no \<equiv> (14::int)"
abbreviation (input) "EINVAL_no \<equiv> (22::int)"
abbreviation (input) "ENFILE_no \<equiv> (23::int)"
abbreviation (input) "ETIMEDOUT_no \<equiv> (110::int)"

section \<open>Fact collections\<close>

named_theorems bit_facts \<open>how the bitmap operations change the bits\<close>
named_theorems frame_facts \<open>fields and objects an operation leaves alone\<close>
named_theorems inv_facts \<open>operations preserve the invariant of their component\<close>

section \<open>Generic lemmas\<close>

lemma fst_snd_split: "fst p = a \<Longrightarrow> snd p = b \<Longrightarrow> p = (a, b)"
  by (cases p) simp

lemma find_Some_least:
  assumes "find P [0..<n] = Some j"
  shows "j < n" "P j" "\<forall>k<j. \<not> P k"
proof -
  from assms obtain i where i: "i < n" "P i" "j = i" "\<forall>k<i. \<not> P k"
    by (auto simp: find_Some_iff)
  then show "j < n" "P j" "\<forall>k<j. \<not> P k" by auto
qed

lemma find_None_all: "find P [0..<n] = None \<longleftrightarrow> (\<forall>k<n. \<not> P k)"
  by (auto simp: find_None_iff)

lemma distinct_removeAll_remove1: "distinct xs \<Longrightarrow> removeAll x xs = remove1 x xs"
  by (simp add: distinct_remove1_removeAll)

lemma filter_neq_removeAll: "filter (\<lambda>y. y \<noteq> x) xs = removeAll x xs"
  by (induction xs) auto

lemma last_notin_butlast: "distinct xs \<Longrightarrow> xs \<noteq> [] \<Longrightarrow> last xs \<notin> set (butlast xs)"
  by (cases xs rule: rev_cases) auto

lemma hd_in_snoc: "hd (xs @ [x]) \<in> set (xs @ [x])"
  by (cases xs) auto

lemma unat_of_nat32: "n < 4294967296 \<Longrightarrow> unat (of_nat n :: u32) = n"
  by (simp add: unat_of_nat take_bit_nat_eq_self)

lemma unat_of_nat64: "n < 18446744073709551616 \<Longrightarrow> unat (of_nat n :: u64) = n"
  by (simp add: unat_of_nat take_bit_nat_eq_self)

lemma unat_u32_less: "unat (x :: u32) < 4294967296"
  using unsigned_less [of x, where ?'a = nat] by simp

lemma unat_u64_less: "unat (x :: u64) < 18446744073709551616"
  using unsigned_less [of x, where ?'a = nat] by simp

lemma word_dec_zero_iff: "(w - 1 = 0) = (w = (1 :: 'a::len word))"
  by simp

lemma unat_inc_no_wrap: "w \<noteq> - 1 \<Longrightarrow> unat (w + 1) = Suc (unat (w :: 'a::len word))"
  by (metis add.commute add_eq_0_iff2 unatSuc word_succ_p1 add.inverse_inverse)

lemma unat_inc: "unat (x :: u32) < 2 ^ 32 - 1 \<Longrightarrow> unat (x + 1) = Suc (unat x)"
  by (simp add: unat_word_ariths)

end
