(* ===== verification/Bitmap.thy ===== *)
theory Bitmap
  imports Prelude
begin

text \<open>
  The bitmap allocator of \<^verbatim>\<open>src/libteec_vendor/tee_client_api.c\<close> (declared in
  \<^verbatim>\<open>src/inc/tee_client_inner.h\<close>): \<^verbatim>\<open>SetBit\<close>, \<^verbatim>\<open>CheckBit\<close>, \<^verbatim>\<open>ClearBit\<close>, \<^verbatim>\<open>IterateBitmap\<close>,
  \<^verbatim>\<open>GetAndSetBit\<close> and \<^verbatim>\<open>GetAndCleartBit\<close>, with their lock wrappers. It hands out shared-memory page
  offsets (a set bit is a used offset), the sessions of a session pool (a set bit is a free
  session) and records the descriptors of the posix proxy.

  A \<^verbatim>\<open>uint8_t *\<close> bitmap of \<^verbatim>\<open>byteMax\<close> bytes is a list of bytes, the null pointer is
  \<^const>\<open>None\<close>. The abstraction \<open>bm_bits\<close> reads it as the set of the numbers of its set bits.
  The locale \<open>slot_pool\<close> is the contract the clients of the allocator use; it is interpreted twice,
  once for each polarity of the bits.
\<close>

section \<open>The operations\<close>

definition byte_idx :: "u32 \<Rightarrow> nat" where
  "byte_idx i = unat (drop_bit 3 i)"

definition bit_mask :: "u32 \<Rightarrow> u32" where
  "bit_mask i = push_bit (unat (i AND 7)) 1"

definition SetBit :: "u32 \<Rightarrow> u32 \<Rightarrow> u8 list option \<Rightarrow> u8 list option" where
  "SetBit i byteMax bitMap =
     (if drop_bit 3 i \<ge> byteMax then bitMap
      else case bitMap of
        None \<Rightarrow> None
      | Some bm \<Rightarrow> Some (bm[byte_idx i := bm ! byte_idx i OR ucast (bit_mask i)]))"

definition CheckBit :: "u32 \<Rightarrow> u32 \<Rightarrow> u8 list option \<Rightarrow> bool" where
  "CheckBit i byteMax bitMap =
     (if drop_bit 3 i \<ge> byteMax then False
      else case bitMap of
        None \<Rightarrow> False
      | Some bm \<Rightarrow> (bm ! byte_idx i) AND ucast (bit_mask i) \<noteq> 0)"

definition ClearBit :: "u32 \<Rightarrow> u32 \<Rightarrow> u8 list option \<Rightarrow> u8 list option" where
  "ClearBit i byteMax bitMap =
     (if drop_bit 3 i \<ge> byteMax then bitMap
      else case bitMap of
        None \<Rightarrow> None
      | Some bm \<Rightarrow> Some (bm[byte_idx i := bm ! byte_idx i AND ucast (NOT (bit_mask i))]))"

text \<open>The lock wrapper: \<open>lock_rc\<close> is what \<^verbatim>\<open>pthread_mutex_lock\<close> returned.\<close>

definition ClearBitWithLock :: "int \<Rightarrow> u32 \<Rightarrow> u32 \<Rightarrow> u8 list option \<Rightarrow> u8 list option" where
  "ClearBitWithLock lock_rc i byteMax bitMap =
     (if lock_rc \<noteq> 0 then bitMap else ClearBit i byteMax bitMap)"

datatype BitmapOps = SET | CLEAR

definition bitZero :: "u8 \<Rightarrow> nat \<Rightarrow> bool" where
  "bitZero b j \<longleftrightarrow> b AND push_bit j 1 = 0"

text \<open>
  The two nested loops of \<^verbatim>\<open>IterateBitmap\<close>: bytes equal to \<open>refByte\<close> are skipped, the first bit of
  the wanted polarity in another byte ends both loops.
\<close>

fun scan_bytes :: "u8 list \<Rightarrow> nat \<Rightarrow> u8 \<Rightarrow> bool \<Rightarrow> int" where
  "scan_bytes [] i refByte refBit = - 1"
| "scan_bytes (b # bs) i refByte refBit =
     (if b = refByte then scan_bytes bs (Suc i) refByte refBit
      else case find (\<lambda>j. bitZero b j = refBit) [0..<8] of
        Some j \<Rightarrow> int i * 8 + int j
      | None \<Rightarrow> scan_bytes bs (Suc i) refByte refBit)"

definition IterateBitmap :: "u8 list \<Rightarrow> u32 \<Rightarrow> BitmapOps \<Rightarrow> int \<times> u8 list" where
  "IterateBitmap bm byteMax ops =
     (let refByte = (if ops = SET then 0xff else 0);
          refBit = (ops = SET);
          validBit = scan_bytes (take (unat byteMax) bm) 0 refByte refBit
      in if validBit = - 1 then (validBit, bm)
         else if ops = SET then
           (validBit, case SetBit (word_of_int validBit) byteMax (Some bm) of Some b \<Rightarrow> b | None \<Rightarrow> bm)
         else
           (validBit, case ClearBit (word_of_int validBit) byteMax (Some bm) of Some b \<Rightarrow> b | None \<Rightarrow> bm))"

definition GetAndSetBit :: "u8 list option \<Rightarrow> u32 \<Rightarrow> int \<times> u8 list option" where
  "GetAndSetBit bitMap byteMax =
     (case bitMap of
        None \<Rightarrow> (- 1, None)
      | Some bm \<Rightarrow> map_prod id Some (IterateBitmap bm byteMax SET))"

definition GetAndSetBitWithLock :: "int \<Rightarrow> u8 list option \<Rightarrow> u32 \<Rightarrow> int \<times> u8 list option" where
  "GetAndSetBitWithLock lock_rc bitMap byteMax =
     (if lock_rc \<noteq> 0 then (- 1, bitMap) else GetAndSetBit bitMap byteMax)"

definition GetAndCleartBit :: "u8 list option \<Rightarrow> u32 \<Rightarrow> int \<times> u8 list option" where
  "GetAndCleartBit bitMap byteMax =
     (case bitMap of
        None \<Rightarrow> (- 1, None)
      | Some bm \<Rightarrow> map_prod id Some (IterateBitmap bm byteMax CLEAR))"

section \<open>The abstraction: a bitmap as a set of numbers\<close>

definition bm_bit :: "u8 list \<Rightarrow> nat \<Rightarrow> bool" where
  "bm_bit bm k \<longleftrightarrow> k < 8 * length bm \<and> bit (bm ! (k div 8)) (k mod 8)"

definition bm_bits :: "u8 list \<Rightarrow> nat set" where
  "bm_bits bm = {k. bm_bit bm k}"

text \<open>
  The bitmap fills the array it is stored in and its bit numbers fit in an \<^verbatim>\<open>int32_t\<close>.
\<close>

definition bm_ok :: "u32 \<Rightarrow> u8 list \<Rightarrow> bool" where
  "bm_ok byteMax bm \<longleftrightarrow> length bm = unat byteMax \<and> length bm < 2 ^ 28"

lemma bm_bits_bound: "k \<in> bm_bits bm \<Longrightarrow> k < 8 * length bm"
  by (simp add: bm_bits_def bm_bit_def)

lemma finite_bm_bits [simp]: "finite (bm_bits bm)"
  by (rule finite_subset [of _ "{..<8 * length bm}"]) (auto dest: bm_bits_bound)

lemma bm_bits_zero [simp]: "bm_bits (replicate n 0) = {}"
  by (auto simp: bm_bits_def bm_bit_def)

lemma byte_idx_div: "byte_idx i = unat i div 8"
  unfolding byte_idx_def unat_drop_bit_eq by (simp add: drop_bit_eq_div)

lemma unat_and_7: "unat ((i :: u32) AND 7) = unat i mod 8"
proof -
  have "i AND 7 = take_bit 3 i"
    by (simp add: take_bit_eq_mask mask_eq_exp_minus_1)
  then have "unat (i AND 7) = take_bit 3 (unat i)"
    by (simp only: unsigned_take_bit_eq)
  then show ?thesis by (simp add: take_bit_eq_mod)
qed

lemma bit_ucast_mask:
  assumes "j < 8"
  shows "bit (ucast (bit_mask i) :: u8) j \<longleftrightarrow> j = unat i mod 8"
proof -
  have "bit (bit_mask i) j \<longleftrightarrow> j = unat i mod 8"
    using assms by (auto simp only: bit_mask_def bit_push_bit_iff unat_and_7 bit_1_iff) auto
  then show ?thesis
    using assms by (simp add: bit_ucast_iff)
qed

lemma bit_ucast_not_mask:
  assumes "j < 8"
  shows "bit (ucast (NOT (bit_mask i)) :: u8) j \<longleftrightarrow> j \<noteq> unat i mod 8"
proof -
  have "bit (bit_mask i) j \<longleftrightarrow> j = unat i mod 8"
    using bit_ucast_mask [OF assms, of i] assms by (simp add: bit_ucast_iff)
  then show ?thesis
    using assms by (simp add: bit_ucast_iff bit_not_iff)
qed

lemma drop_bit_ge_iff:
  "drop_bit 3 i \<ge> byteMax \<longleftrightarrow> unat byteMax * 8 \<le> unat (i :: u32)"
proof -
  have "drop_bit 3 i \<ge> byteMax \<longleftrightarrow> unat byteMax \<le> unat i div 8"
    using byte_idx_div [of i] by (simp add: word_le_nat_alt byte_idx_def)
  also have "\<dots> \<longleftrightarrow> unat byteMax * 8 \<le> unat i"
    by (simp add: less_eq_div_iff_mult_less_eq)
  finally show ?thesis .
qed

section \<open>What the operations do to the set of bits\<close>

lemma mod8_div8_cases: "(k :: nat) = m \<longleftrightarrow> k div 8 = m div 8 \<and> k mod 8 = m mod 8"
  by (metis div_mult_mod_eq)

lemma bm_bit_update:
  assumes "m < 8 * length bm"
    and "\<And>j. j < 8 \<Longrightarrow> bit b j \<longleftrightarrow> (if j = m mod 8 then v else bit (bm ! (m div 8)) j)"
  shows "bm_bit (bm[m div 8 := b]) k \<longleftrightarrow> (if k = m then v else bm_bit bm k)"
proof -
  have "m div 8 < length bm" using assms(1) by auto
  then show ?thesis
    using assms mod8_div8_cases [of k m]
    by (auto simp: bm_bit_def nth_list_update)
qed

lemma SetBit_bits [bit_facts]:
  assumes "bm_ok B bm"
  obtains bm' where "SetBit i B (Some bm) = Some bm'" "bm_ok B bm'"
    "bm_bits bm' = (if unat i < 8 * length bm then insert (unat i) (bm_bits bm) else bm_bits bm)"
proof (cases "unat i < 8 * length bm")
  case True
  with assms have lt: "\<not> drop_bit 3 i \<ge> B"
    by (simp add: drop_bit_ge_iff bm_ok_def)
  let ?bm = "bm[byte_idx i := bm ! byte_idx i OR ucast (bit_mask i)]"
  have "bm_bit ?bm k \<longleftrightarrow> (if k = unat i then True else bm_bit bm k)" for k
    unfolding byte_idx_div
    by (rule bm_bit_update [OF True]) (auto simp: bit_or_iff bit_ucast_mask)
  then have "bm_bits ?bm = insert (unat i) (bm_bits bm)"
    by (auto simp: bm_bits_def)
  with True lt assms show ?thesis
    by (intro that [of ?bm]) (auto simp: SetBit_def bm_ok_def)
next
  case False
  with assms have "drop_bit 3 i \<ge> B"
    by (simp add: drop_bit_ge_iff bm_ok_def)
  with False assms show ?thesis
    by (intro that [of bm]) (auto simp: SetBit_def)
qed

lemma ClearBit_bits [bit_facts]:
  assumes "bm_ok B bm"
  obtains bm' where "ClearBit i B (Some bm) = Some bm'" "bm_ok B bm'"
    "bm_bits bm' = bm_bits bm - {unat i}"
proof (cases "unat i < 8 * length bm")
  case True
  with assms have lt: "\<not> drop_bit 3 i \<ge> B"
    by (simp add: drop_bit_ge_iff bm_ok_def)
  let ?bm = "bm[byte_idx i := bm ! byte_idx i AND ucast (NOT (bit_mask i))]"
  have "bm_bit ?bm k \<longleftrightarrow> (if k = unat i then False else bm_bit bm k)" for k
    unfolding byte_idx_div
    by (rule bm_bit_update [OF True]) (auto simp: bit_and_iff bit_ucast_not_mask)
  then have "bm_bits ?bm = bm_bits bm - {unat i}"
    by (auto simp: bm_bits_def)
  with True lt assms show ?thesis
    by (intro that [of ?bm]) (auto simp: ClearBit_def bm_ok_def)
next
  case False
  then have "unat i \<notin> bm_bits bm" by (auto dest: bm_bits_bound)
  moreover from False assms have "drop_bit 3 i \<ge> B"
    by (simp add: drop_bit_ge_iff bm_ok_def)
  ultimately show ?thesis using assms
    by (intro that [of bm]) (auto simp: ClearBit_def)
qed

lemma CheckBit_iff [bit_facts]:
  assumes "bm_ok B bm"
  shows "CheckBit i B (Some bm) \<longleftrightarrow> unat i \<in> bm_bits bm"
proof (cases "unat i < 8 * length bm")
  case True
  with assms have lt: "\<not> drop_bit 3 i \<ge> B"
    by (simp add: drop_bit_ge_iff bm_ok_def)
  let ?b = "bm ! (unat i div 8)"
  have "?b AND ucast (bit_mask i) \<noteq> 0 \<longleftrightarrow> bit ?b (unat i mod 8)"
  proof -
    have "?b AND ucast (bit_mask i) = 0 \<longleftrightarrow>
        (\<forall>j<8. \<not> (bit ?b j \<and> bit (ucast (bit_mask i) :: u8) j))"
      by (auto simp: bit_eq_iff bit_and_iff)
    also have "\<dots> \<longleftrightarrow> (\<forall>j<8. j = unat i mod 8 \<longrightarrow> \<not> bit ?b j)"
      using bit_ucast_mask [of _ i] by blast
    also have "\<dots> \<longleftrightarrow> \<not> bit ?b (unat i mod 8)"
      using mod_less_divisor [of 8 "unat i"] by (metis zero_less_numeral)
    finally show ?thesis by blast
  qed
  with True lt show ?thesis
    by (simp add: CheckBit_def byte_idx_div bm_bits_def bm_bit_def)
next
  case False
  with assms have "drop_bit 3 i \<ge> B"
    by (simp add: drop_bit_ge_iff bm_ok_def)
  with False show ?thesis
    by (auto simp: CheckBit_def bm_bits_def bm_bit_def)
qed

section \<open>The scan finds the first bit of the wanted polarity\<close>

lemma bitZero_iff: "j < 8 \<Longrightarrow> bitZero b j \<longleftrightarrow> \<not> bit b j"
proof -
  assume j: "j < 8"
  have "b AND push_bit j 1 = 0 \<longleftrightarrow> (\<forall>k<8. \<not> (bit b k \<and> bit (push_bit j 1 :: u8) k))"
    by (auto simp: bit_eq_iff bit_and_iff)
  also have "\<dots> \<longleftrightarrow> \<not> bit b j"
    using j by (auto simp only: bit_push_bit_iff bit_1_iff) auto
  finally show ?thesis by (simp add: bitZero_def)
qed

text \<open>A byte that differs from the skipped value has a bit of the wanted polarity.\<close>

lemma ref_byte_bits:
  assumes "refByte = (if r then 0xff else (0 :: u8))"
  shows "b = refByte \<longleftrightarrow> (\<forall>j<8. bit b j = r)"
proof -
  have "bit (0xff :: u8) j \<longleftrightarrow> j < 8" for j
  proof -
    have "(0xff :: u8) = mask 8" by (simp add: mask_eq_exp_minus_1)
    then show ?thesis by (simp only: bit_mask_iff) auto
  qed
  then show ?thesis using assms by (auto simp: bit_eq_iff)
qed

lemma scan_bytes_spec:
  assumes "refByte = (if r then 0xff else (0 :: u8))"
  shows "scan_bytes bs i refByte r = v \<Longrightarrow>
    (v = - 1 \<and> (\<forall>k < 8 * length bs. bit (bs ! (k div 8)) (k mod 8) = r)) \<or>
    (\<exists>k < 8 * length bs. v = int (8 * i + k) \<and> bit (bs ! (k div 8)) (k mod 8) = (\<not> r) \<and>
      (\<forall>m<k. bit (bs ! (m div 8)) (m mod 8) = r))"
proof (induction bs arbitrary: i v)
  case Nil
  then show ?case by simp
next
  case (Cons b bs)
  have step: "k < 8 * length (b # bs) \<Longrightarrow> 8 \<le> k \<Longrightarrow>
      (b # bs) ! (k div 8) = bs ! ((k - 8) div 8) \<and> k mod 8 = (k - 8) mod 8" for k
    by (simp add: le_div_geq le_mod_geq)
  show ?case
  proof (cases "\<forall>j<8. bit b j = r")
    case True
    with assms have "b = refByte" by (simp add: ref_byte_bits)
    with Cons.prems have v: "scan_bytes bs (Suc i) refByte r = v" by simp
    from Cons.IH [OF v] show ?thesis
    proof (elim disjE exE conjE)
      assume "v = - 1" and all: "\<forall>k < 8 * length bs. bit (bs ! (k div 8)) (k mod 8) = r"
      have "bit ((b # bs) ! (k div 8)) (k mod 8) = r" if "k < 8 * length (b # bs)" for k
        using that True all step [of k] by (cases "k < 8") auto
      with \<open>v = - 1\<close> show ?thesis by blast
    next
      fix k assume k: "k < 8 * length bs" "v = int (8 * Suc i + k)"
        "bit (bs ! (k div 8)) (k mod 8) = (\<not> r)"
        and less: "\<forall>m<k. bit (bs ! (m div 8)) (m mod 8) = r"
      have "bit ((b # bs) ! (m div 8)) (m mod 8) = r" if "m < k + 8" for m
        using that True less step [of m] k(1) by (cases "m < 8") auto
      with k step [of "k + 8"] show ?thesis
        by (intro disjI2 exI [of _ "k + 8"]) auto
    qed
  next
    case False
    then obtain j0 where j0: "j0 < 8" "bit b j0 \<noteq> r" by auto
    from False have ne: "b \<noteq> refByte" using ref_byte_bits [OF assms, of b] by blast
    have "find (\<lambda>j. bitZero b j = r) [0..<8] \<noteq> None"
      unfolding find_None_all using j0 bitZero_iff [of j0 b] by auto
    then obtain j where j: "find (\<lambda>j. bitZero b j = r) [0..<8] = Some j" by blast
    note fs = find_Some_least [OF j]
    have "bit b j = (\<not> r)" using fs(1,2) bitZero_iff [of j b] by blast
    moreover have "bit b m = r" if "m < j" for m
      using fs(1,3) that bitZero_iff [of m b] by simp
    moreover from j ne Cons.prems have "v = int (8 * i + j)" by simp
    ultimately show ?thesis using fs(1)
      by (intro disjI2 exI [of _ j]) auto
  qed
qed


section \<open>Allocation: the least free slot is taken, and only it\<close>

text \<open>
  The two polarities of \<^verbatim>\<open>IterateBitmap\<close> as one statement: \<open>free_bits ops bm\<close> are the bits it
  looks for.
\<close>

definition free_bits :: "BitmapOps \<Rightarrow> u8 list \<Rightarrow> nat set" where
  "free_bits ops bm = (if ops = SET then {..<8 * length bm} - bm_bits bm else bm_bits bm)"

lemma free_bits_bound: "k \<in> free_bits ops bm \<Longrightarrow> k < 8 * length bm"
  by (auto simp: free_bits_def dest: bm_bits_bound split: if_splits)

lemma mem_free_bits:
  "k \<in> free_bits ops bm \<longleftrightarrow> k < 8 * length bm \<and> bit (bm ! (k div 8)) (k mod 8) = (ops = CLEAR)"
  by (cases ops) (auto simp: free_bits_def bm_bits_def bm_bit_def)

lemma scan_result:
  assumes "bm_ok B bm"
    and "v = scan_bytes (take (unat B) bm) 0 (if ops = SET then 0xff else 0) (ops = SET)"
  shows "(v = - 1 \<and> free_bits ops bm = {}) \<or>
    (\<exists>k. v = int k \<and> k \<in> free_bits ops bm \<and> (\<forall>m<k. m \<notin> free_bits ops bm))"
proof -
  have run: "scan_bytes bm 0 (if ops = SET then 0xff else 0) (ops = SET) = v"
    using assms by (simp add: bm_ok_def)
  have flip: "k \<in> free_bits ops bm \<longleftrightarrow>
      k < 8 * length bm \<and> bit (bm ! (k div 8)) (k mod 8) = (\<not> ops = SET)" for k
    by (cases ops) (simp_all add: mem_free_bits)
  from scan_bytes_spec [OF refl run] show ?thesis
  proof (elim disjE exE conjE)
    assume "v = - 1" "\<forall>k<8 * length bm. bit (bm ! (k div 8)) (k mod 8) = (ops = SET)"
    then show ?thesis using flip by blast
  next
    fix k assume "k < 8 * length bm" "v = int (8 * 0 + k)"
      "bit (bm ! (k div 8)) (k mod 8) = (\<not> ops = SET)"
      "\<forall>m<k. bit (bm ! (m div 8)) (m mod 8) = (ops = SET)"
    moreover from this have "v = int k" by simp
    ultimately show ?thesis using flip by blast
  qed
qed

lemma unat_bit_number: "bm_ok B bm \<Longrightarrow> k < 8 * length bm \<Longrightarrow> unat (word_of_int (int k) :: u32) = k"
  by (simp add: bm_ok_def unat_of_nat32)

lemma IterateBitmap_spec:
  assumes ok: "bm_ok B bm" and run: "IterateBitmap bm B ops = (v, bm')"
  shows "(free_bits ops bm = {} \<and> v = - 1 \<and> bm' = bm) \<or>
    (\<exists>k. v = int k \<and> k \<in> free_bits ops bm \<and> (\<forall>m<k. m \<notin> free_bits ops bm) \<and>
       bm_ok B bm' \<and> bm_bits bm' = (if ops = SET then insert k (bm_bits bm) else bm_bits bm - {k}))"
proof -
  define v0 where "v0 = scan_bytes (take (unat B) bm) 0 (if ops = SET then 0xff else 0) (ops = SET)"
  from scan_result [OF ok v0_def] show ?thesis
  proof (elim disjE conjE exE)
    assume "v0 = - 1" "free_bits ops bm = {}"
    with run show ?thesis by (simp add: IterateBitmap_def v0_def [symmetric])
  next
    fix k assume k: "v0 = int k" "k \<in> free_bits ops bm" "\<forall>m<k. m \<notin> free_bits ops bm"
    from k(2) have lt: "k < 8 * length bm" by (rule free_bits_bound)
    note un = unat_bit_number [OF ok lt]
    obtain s where s: "SetBit (word_of_int (int k)) B (Some bm) = Some s" "bm_ok B s"
      "bm_bits s = insert k (bm_bits bm)"
      by (rule SetBit_bits [OF ok, of "word_of_int (int k)"]) (use lt un in auto)
    obtain c where c: "ClearBit (word_of_int (int k)) B (Some bm) = Some c" "bm_ok B c"
      "bm_bits c = bm_bits bm - {k}"
      by (rule ClearBit_bits [OF ok, of "word_of_int (int k)"]) (use un in auto)
    have "IterateBitmap bm B ops = (int k, if ops = SET then s else c)"
      using k(1) s(1) c(1) by (simp add: IterateBitmap_def v0_def [symmetric])
    with run k s c show ?thesis by auto
  qed
qed


section \<open>The contract of a slot allocator\<close>

text \<open>
  What the users of the bitmap rely on: \<open>acquire\<close> takes the least free slot or reports that there is
  none, \<open>release\<close> gives a slot back. A run is any sequence of the two in which only held slots are
  released, as the callers do; \<open>held\<close> is the set of slots handed out.
\<close>

datatype slot_op = Acquire | Release nat

fun pool_run :: "('b \<Rightarrow> int \<times> 'b) \<Rightarrow> (nat \<Rightarrow> 'b \<Rightarrow> 'b) \<Rightarrow> slot_op list \<Rightarrow> 'b \<times> nat set \<Rightarrow> 'b \<times> nat set" where
  "pool_run acq rel [] s = s"
| "pool_run acq rel (Acquire # xs) (b, held) =
     (let (v, b') = acq b in
      pool_run acq rel xs (b', if v < 0 then held else insert (nat v) held))"
| "pool_run acq rel (Release k # xs) (b, held) =
     (if k \<in> held then pool_run acq rel xs (rel k b, held - {k})
      else pool_run acq rel xs (b, held))"

locale slot_pool =
  fixes acquire :: "'b \<Rightarrow> int \<times> 'b"
    and release :: "nat \<Rightarrow> 'b \<Rightarrow> 'b"
    and free :: "'b \<Rightarrow> nat set"
    and cap :: "'b \<Rightarrow> nat"
    and inv :: "'b \<Rightarrow> bool"
  assumes free_cap: "inv b \<Longrightarrow> free b \<subseteq> {..<cap b}"
    and acquire_empty: "inv b \<Longrightarrow> free b = {} \<Longrightarrow> acquire b = (- 1, b)"
    and acquire_least: "inv b \<Longrightarrow> free b \<noteq> {} \<Longrightarrow>
      \<exists>k b'. acquire b = (int k, b') \<and> k \<in> free b \<and> (\<forall>m<k. m \<notin> free b) \<and>
        inv b' \<and> free b' = free b - {k} \<and> cap b' = cap b"
    and release_free: "inv b \<Longrightarrow> k < cap b \<Longrightarrow>
      inv (release k b) \<and> free (release k b) = insert k (free b) \<and> cap (release k b) = cap b"
begin

text \<open>Held and free slots partition the slots, whatever the order of the operations.\<close>

lemma run_partition:
  assumes "inv b" "held \<inter> free b = {}" "held \<subseteq> {..<cap b}"
    and "pool_run acquire release xs (b, held) = (b', held')"
  shows "inv b' \<and> held' \<inter> free b' = {} \<and> held' \<union> free b' = held \<union> free b \<and>
    held' \<subseteq> {..<cap b'} \<and> cap b' = cap b"
  using assms
proof (induction xs arbitrary: b held)
  case Nil
  then show ?case by simp
next
  case (Cons x xs)
  show ?case
  proof (cases x)
    case Acquire
    show ?thesis
    proof (cases "free b = {}")
      case True
      with Cons.prems Acquire have "pool_run acquire release xs (b, held) = (b', held')"
        by (simp add: acquire_empty)
      from Cons.IH [OF Cons.prems(1,2,3) this] show ?thesis .
    next
      case False
      from acquire_least [OF Cons.prems(1) False] obtain k b1 where
        k: "acquire b = (int k, b1)" "k \<in> free b" "inv b1" "free b1 = free b - {k}" "cap b1 = cap b"
        by blast
      with free_cap [OF Cons.prems(1)] have "k < cap b" by auto
      with k Cons.prems Acquire have "inv b' \<and> held' \<inter> free b' = {} \<and>
          held' \<union> free b' = insert k held \<union> free b1 \<and> held' \<subseteq> {..<cap b'} \<and> cap b' = cap b1"
        by (intro Cons.IH [of b1 "insert k held"]) auto
      with k show ?thesis by auto
    qed
  next
    case (Release k)
    show ?thesis
    proof (cases "k \<in> held")
      case True
      with Cons.prems have "k < cap b" by auto
      note r = release_free [OF Cons.prems(1) this]
      from True r Cons.prems Release have "inv b' \<and> held' \<inter> free b' = {} \<and>
          held' \<union> free b' = (held - {k}) \<union> free (release k b) \<and> held' \<subseteq> {..<cap b'} \<and>
          cap b' = cap (release k b)"
        by (intro Cons.IH [of "release k b" "held - {k}"]) auto
      with r True show ?thesis by auto
    next
      case False
      with Cons.prems Release have "pool_run acquire release xs (b, held) = (b', held')" by simp
      from Cons.IH [OF Cons.prems(1,2,3) this] show ?thesis .
    qed
  qed
qed

text \<open>A slot that is out is never handed out again; the allocator fails only when all are out.\<close>

lemma run_acquire:
  assumes "inv b" "pool_run acquire release xs (b, {}) = (b', held)" "acquire b' = (v, b'')"
  shows "(v = - 1 \<and> held = free b) \<or> (0 \<le> v \<and> nat v \<in> free b \<and> nat v \<notin> held)"
proof -
  from run_partition [OF assms(1) _ _ assms(2)]
  have p: "inv b'" "held \<inter> free b' = {}" "held \<union> free b' = free b" by auto
  show ?thesis
  proof (cases "free b' = {}")
    case True
    with p assms(3) show ?thesis by (simp add: acquire_empty)
  next
    case False
    from acquire_least [OF p(1) False] assms(3) p show ?thesis by auto
  qed
qed

end

text \<open>
  The two clients: shared-memory offsets (a free slot is a clear bit) and pooled sessions (a free
  slot is a set bit).
\<close>

definition bm_cap :: "u8 list option \<Rightarrow> nat" where
  "bm_cap bitMap = (case bitMap of None \<Rightarrow> 0 | Some bm \<Rightarrow> 8 * length bm)"

definition bm_free :: "BitmapOps \<Rightarrow> u8 list option \<Rightarrow> nat set" where
  "bm_free ops bitMap = (case bitMap of None \<Rightarrow> {} | Some bm \<Rightarrow> free_bits ops bm)"

definition bm_inv :: "u32 \<Rightarrow> u8 list option \<Rightarrow> bool" where
  "bm_inv B bitMap = (case bitMap of None \<Rightarrow> False | Some bm \<Rightarrow> bm_ok B bm)"

lemma bm_inv_Some: "bm_inv B bitMap \<longleftrightarrow> (\<exists>bm. bitMap = Some bm \<and> bm_ok B bm)"
  by (cases bitMap) (auto simp: bm_inv_def)

lemma bm_ok_length: "bm_ok B bm \<Longrightarrow> bm_ok B bm' \<Longrightarrow> length bm' = length bm"
  by (simp add: bm_ok_def)

lemma unat_nat_bit: "bm_ok B bm \<Longrightarrow> k < 8 * length bm \<Longrightarrow> unat (of_nat k :: u32) = k"
  using unat_bit_number [of B bm k] by simp


interpretation pool_slots: slot_pool "\<lambda>bm. GetAndCleartBit bm B" "\<lambda>k. SetBit (of_nat k) B"
    "bm_free CLEAR" bm_cap "bm_inv B" for B :: u32
proof (unfold_locales, goal_cases)
  case (1 b)
  then show ?case by (auto simp: bm_inv_Some bm_free_def bm_cap_def dest: free_bits_bound)
next
  case (2 b)
  then obtain bm where b: "b = Some bm" "bm_ok B bm" "free_bits CLEAR bm = {}"
    by (auto simp: bm_inv_Some bm_free_def)
  obtain v bm' where r: "IterateBitmap bm B CLEAR = (v, bm')" by (cases "IterateBitmap bm B CLEAR")
  from IterateBitmap_spec [OF b(2) r] b r show ?case by (auto simp: GetAndCleartBit_def)
next
  case (3 b)
  then obtain bm where b': "b = Some bm" "bm_ok B bm" by (auto simp: bm_inv_Some)
  with 3 have "free_bits CLEAR bm \<noteq> {}" by (simp add: bm_free_def)
  note b = b' this
  obtain v bm' where r: "IterateBitmap bm B CLEAR = (v, bm')" by (cases "IterateBitmap bm B CLEAR")
  from IterateBitmap_spec [OF b(2) r] b(3) obtain k where
    k: "v = int k" "k \<in> free_bits CLEAR bm" "\<forall>m<k. m \<notin> free_bits CLEAR bm" "bm_ok B bm'"
      "bm_bits bm' = bm_bits bm - {k}" by auto
  with b r bm_ok_length [of B bm bm'] show ?case
    by (auto simp: GetAndCleartBit_def bm_free_def bm_inv_def bm_cap_def free_bits_def)
next
  case (4 b k)
  then obtain bm where b: "b = Some bm" "bm_ok B bm" "k < 8 * length bm"
    by (auto simp: bm_inv_Some bm_cap_def)
  obtain c where c: "SetBit (of_nat k) B (Some bm) = Some c" "bm_ok B c"
    "bm_bits c = insert k (bm_bits bm)"
    by (rule SetBit_bits [OF b(2), of "of_nat k"]) (use unat_nat_bit [OF b(2,3)] b(3) in auto)
  with b bm_ok_length [OF b(2) c(2)] show ?case
    by (auto simp: bm_free_def bm_inv_def bm_cap_def free_bits_def)
qed


section \<open>Properties\<close>

text \<open>C23. \<^verbatim>\<open>GetAndSetBit\<close> on a bitmap that fills its array returns the number of the lowest clear bit and
  sets exactly that bit; it returns -1, changing nothing, exactly when every bit is set.\<close>

theorem GetAndSetBit_lowest_clear:
  assumes "bm_ok B bm" and "GetAndSetBit (Some bm) B = (v, r)"
  shows "\<exists>bm'. r = Some bm' \<and>
    (if bm_bits bm = {..<8 * length bm} then v = - 1 \<and> bm' = bm
     else 0 \<le> v \<and> nat v < 8 * length bm \<and> nat v \<notin> bm_bits bm \<and> {..<nat v} \<subseteq> bm_bits bm \<and>
       bm_ok B bm' \<and> bm_bits bm' = insert (nat v) (bm_bits bm))"
proof -
  obtain w bm' where r: "IterateBitmap bm B SET = (w, bm')" by (cases "IterateBitmap bm B SET")
  with assms(2) have v: "v = w" "r = Some bm'" by (auto simp: GetAndSetBit_def)
  have eq: "free_bits SET bm = {} \<longleftrightarrow> bm_bits bm = {..<8 * length bm}"
    by (auto simp: free_bits_def dest: bm_bits_bound)
  from IterateBitmap_spec [OF assms(1) r] show ?thesis
    unfolding eq using v by (auto simp: free_bits_def)
qed

lemma GetAndSetBit_lowest_clear_witness:
  "\<exists>bm'. GetAndSetBit (Some [0xff, 0x05]) 2 = (9, Some bm') \<and> bm_bits bm' = insert 9 (bm_bits [0xff, 0x05])"
proof -
  have ok: "bm_ok 2 [0xff, 0x05]" by (simp add: bm_ok_def)
  obtain r where r: "GetAndSetBit (Some [0xff, 0x05]) 2 = (9, r)"
    by (simp add: GetAndSetBit_def IterateBitmap_def bitZero_def upt_rec)
  have ne: "9 \<in> {..<8 * length [0xff, 0x05 :: u8]} - bm_bits [0xff, 0x05]"
    by (simp add: bm_bits_def bm_bit_def)
  from GetAndSetBit_lowest_clear [OF ok r] r ne show ?thesis
    by (auto split: if_splits)
qed



end
