(* ===== verification/Intrusive_List.thy ===== *)
theory Intrusive_List
  imports Prelude
begin

text \<open>
  The intrusive doubly linked lists of \<^verbatim>\<open>include/tee_client_list.h\<close>, on an explicit heap of
  \<^verbatim>\<open>struct ListNode\<close> links: every C assignment to a link is one update of the heap, in the order of the
  source. \<open>ring h l xs\<close> says that the nodes \<open>xs\<close> hang off the list head \<open>l\<close> in this order.

  The contexts, sessions, shared memories and temporary packages of the other theories are kept in such
  lists; those theories use plain lists of addresses, and the locale \<open>node_list\<close> with its
  simulation lemma is what makes this sound. It is interpreted here for the ring and in
  \<open>Open_Files\<close> for the hand-written circular list of open files.
\<close>

section \<open>The operations on the links\<close>

record links =
  nxt :: "addr \<Rightarrow> addr"
  prv :: "addr \<Rightarrow> addr"

definition set_nxt :: "addr \<Rightarrow> addr \<Rightarrow> links \<Rightarrow> links" where
  "set_nxt a b h = h\<lparr>nxt := (nxt h)(a := b)\<rparr>"

definition set_prv :: "addr \<Rightarrow> addr \<Rightarrow> links \<Rightarrow> links" where
  "set_prv a b h = h\<lparr>prv := (prv h)(a := b)\<rparr>"

lemma set_links_simps [simp]:
  "nxt (set_nxt a b h) = (nxt h)(a := b)" "prv (set_nxt a b h) = prv h"
  "prv (set_prv a b h) = (prv h)(a := b)" "nxt (set_prv a b h) = nxt h"
  by (simp_all add: set_nxt_def set_prv_def)

definition ListInit :: "addr \<Rightarrow> links \<Rightarrow> links" where
  "ListInit l h = set_prv l l (set_nxt l l h)"

definition LIST_EMPTY :: "links \<Rightarrow> addr \<Rightarrow> bool" where
  "LIST_EMPTY h l \<longleftrightarrow> l = nxt h l"

definition ListInsertHead :: "addr \<Rightarrow> addr \<Rightarrow> links \<Rightarrow> links" where
  "ListInsertHead l e h =
     (let h1 = set_prv (nxt h l) e h;
          h2 = set_nxt e (nxt h1 l) h1;
          h3 = set_prv e l h2
      in set_nxt l e h3)"

definition ListInsertTail :: "addr \<Rightarrow> addr \<Rightarrow> links \<Rightarrow> links" where
  "ListInsertTail l e h =
     (let h1 = set_nxt e l h;
          h2 = set_prv e (prv h1 l) h1;
          h3 = set_nxt (prv h2 l) e h2
      in set_prv l e h3)"

definition ListRemoveEntry :: "addr \<Rightarrow> links \<Rightarrow> links" where
  "ListRemoveEntry e h =
     (let h1 = set_nxt (prv h e) (nxt h e) h
      in set_prv (nxt h1 e) (prv h1 e) h1)"

definition ListRemoveHead :: "addr \<Rightarrow> links \<Rightarrow> addr option \<times> links" where
  "ListRemoveHead l h =
     (if \<not> LIST_EMPTY h l then let e = nxt h l in (Some e, ListRemoveEntry e h) else (None, h))"

definition ListRemoveTail :: "addr \<Rightarrow> links \<Rightarrow> addr option \<times> links" where
  "ListRemoveTail l h =
     (if \<not> LIST_EMPTY h l then let e = prv h l in (Some e, ListRemoveEntry e h) else (None, h))"

text \<open>
  The two loops. A corrupt list may make them run forever, so they take fuel and \<^const>\<open>None\<close> is
  "has not ended yet". \<open>LIST_FOR_EACH\<close> collects the visited nodes; \<open>LIST_FOR_EACH_SAFE\<close> runs a
  body that may unlink the node it is given, with the next node read before the body.
\<close>

fun LIST_FOR_EACH :: "nat \<Rightarrow> links \<Rightarrow> addr \<Rightarrow> addr \<Rightarrow> addr list option" where
  "LIST_FOR_EACH 0 h pos l = None"
| "LIST_FOR_EACH (Suc fuel) h pos l =
     (if pos = l then Some []
      else map_option ((#) pos) (LIST_FOR_EACH fuel h (nxt h pos) l))"

fun LIST_FOR_EACH_SAFE ::
  "nat \<Rightarrow> (addr \<Rightarrow> links \<times> 's \<Rightarrow> links \<times> 's) \<Rightarrow> links \<times> 's \<Rightarrow> addr \<Rightarrow> addr \<Rightarrow> addr \<Rightarrow> (links \<times> 's) option" where
  "LIST_FOR_EACH_SAFE 0 body s pos n l = None"
| "LIST_FOR_EACH_SAFE (Suc fuel) body s pos n l =
     (if pos = l then Some s
      else let s' = body pos s in LIST_FOR_EACH_SAFE fuel body s' n (nxt (fst s') n) l)"

section \<open>Rings\<close>

fun linked :: "links \<Rightarrow> addr list \<Rightarrow> bool" where
  "linked h (a # b # xs) \<longleftrightarrow> nxt h a = b \<and> prv h b = a \<and> linked h (b # xs)"
| "linked h _ \<longleftrightarrow> True"

definition ring :: "links \<Rightarrow> addr \<Rightarrow> addr list \<Rightarrow> bool" where
  "ring h l xs \<longleftrightarrow> distinct (l # xs) \<and> linked h (l # xs @ [l])"

lemma linked_append: "linked h (xs @ a # ys) \<longleftrightarrow> linked h (xs @ [a]) \<and> linked h (a # ys)"
proof (induction xs)
  case (Cons x xs)
  then show ?case by (cases xs) auto
qed simp

lemma linked_cong:
  assumes "\<forall>a \<in> set (butlast xs). nxt h' a = nxt h a" "\<forall>a \<in> set (tl xs). prv h' a = prv h a"
  shows "linked h' xs = linked h xs"
  using assms
proof (induction xs)
  case (Cons x xs)
  then show ?case by (cases xs) auto
qed simp

lemma ring_first: "ring h l xs \<Longrightarrow> nxt h l = hd (xs @ [l])"
  by (cases xs) (auto simp: ring_def)

lemma ring_last: "ring h l xs \<Longrightarrow> prv h l = last (l # xs)"
proof (cases xs rule: rev_cases)
  case (snoc ys y)
  assume "ring h l xs"
  with snoc have "linked h ((l # ys) @ y # [l])" by (simp add: ring_def)
  then have "linked h (y # [l])" using linked_append by blast
  then show ?thesis using snoc by simp
qed (simp add: ring_def)

lemma ring_distinct: "ring h l xs \<Longrightarrow> distinct xs \<and> l \<notin> set xs"
  by (simp add: ring_def)

lemma ring_empty: "ring h l xs \<Longrightarrow> LIST_EMPTY h l \<longleftrightarrow> xs = []"
  using ring_first [of h l xs] by (cases xs) (auto simp: LIST_EMPTY_def ring_def)

lemma ring_ListInit: "ring (ListInit l h) l []"
  by (simp add: ring_def ListInit_def)

lemma ring_cong:
  assumes "ring h l xs" "\<forall>a \<in> set (l # xs). nxt h' a = nxt h a \<and> prv h' a = prv h a"
  shows "ring h' l xs"
proof -
  have "linked h' (l # xs @ [l]) = linked h (l # xs @ [l])"
    by (rule linked_cong) (use assms(2) in \<open>auto simp: butlast_append\<close>)
  with assms(1) show ?thesis by (simp add: ring_def)
qed


lemma linked_join:
  "linked h (xs @ ys) \<longleftrightarrow> linked h xs \<and> linked h ys \<and>
     (xs \<noteq> [] \<and> ys \<noteq> [] \<longrightarrow> nxt h (last xs) = hd ys \<and> prv h (hd ys) = last xs)"
proof (induction xs)
  case (Cons x xs)
  show ?case
  proof (cases xs)
    case Nil
    then show ?thesis by (cases ys) auto
  next
    case (Cons y zs)
    with Cons.IH show ?thesis by auto
  qed
qed simp

lemma linked_sides: "linked h ((l # as) @ (bs @ [l])) \<Longrightarrow> linked h (l # as) \<and> linked h (bs @ [l])"
  unfolding linked_join [of h "l # as" "bs @ [l]"] by blast

text \<open>Linking a new node between two neighbours, and unlinking one, whatever code did it.\<close>

lemma ring_link:
  assumes r: "ring h l (as @ bs)" and e: "e \<notin> set (l # as @ bs)"
    and p: "p = last (l # as)" and n: "n = hd (bs @ [l])"
    and nx: "\<And>a. nxt h' a = (if a = p then e else if a = e then n else nxt h a)"
    and pv: "\<And>a. prv h' a = (if a = n then e else if a = e then p else prv h a)"
  shows "ring h' l (as @ e # bs)"
proof -
  from r have d: "distinct (l # as @ bs)" and lk: "linked h ((l # as) @ (bs @ [l]))"
    by (auto simp: ring_def)
  have p_in: "p \<in> set (l # as)" unfolding p by (rule last_in_set) simp
  have n_in: "n \<in> set (bs @ [l])" unfolding n by (rule hd_in_set) simp
  have p_last: "p \<notin> set (butlast (l # as))"
    unfolding p by (rule last_notin_butlast) (use d in auto)
  have e_tl: "e \<notin> set (tl (bs @ [l]))"
    using e by (cases bs) auto
  have n_hd: "n \<notin> set (tl (bs @ [l]))"
    using d unfolding n by (cases bs) auto
  have "linked h' (l # as) = linked h (l # as)"
    by (rule linked_cong) (use p_last e n_in d in \<open>auto simp: nx pv dest: in_set_butlastD\<close>)
  moreover have "linked h' (bs @ [l]) = linked h (bs @ [l])"
    by (rule linked_cong) (use p_in e n_hd e_tl d in \<open>auto simp: nx pv butlast_append dest: list.set_sel(2)\<close>)
  moreover have "e \<noteq> p" "e \<noteq> n" using e p_in n_in by auto
  moreover have "last (l # as) = p" "hd (bs @ [l]) = n" using p n by simp_all
  ultimately have "linked h' ((l # as) @ e # (bs @ [l]))"
    using linked_sides [OF lk] nx pv
    by (simp only: linked_join [of h' "l # as"] linked_join [of h' "[e]" "bs @ [l]", simplified])
       (auto simp: nx pv)
  with d e show ?thesis by (auto simp: ring_def)
qed

lemma ring_unlink:
  assumes r: "ring h l (as @ e # bs)"
    and p: "p = last (l # as)" and n: "n = hd (bs @ [l])"
    and nx: "\<And>a. nxt h' a = (if a = p then n else nxt h a)"
    and pv: "\<And>a. prv h' a = (if a = n then p else prv h a)"
  shows "ring h' l (as @ bs)"
proof -
  from r have d: "distinct (l # as @ e # bs)" and lk: "linked h ((l # as) @ (e # bs @ [l]))"
    by (auto simp: ring_def)
  have p_in: "p \<in> set (l # as)" unfolding p by (rule last_in_set) simp
  have n_in: "n \<in> set (bs @ [l])" unfolding n by (rule hd_in_set) simp
  have p_last: "p \<notin> set (butlast (l # as))"
    unfolding p by (rule last_notin_butlast) (use d in auto)
  have n_hd: "n \<notin> set (tl (bs @ [l]))"
    using d unfolding n by (cases bs) auto
  have l1: "linked h (l # as)" and l2: "linked h (bs @ [l])"
    using lk unfolding linked_join [of h "l # as" "e # bs @ [l]"]
    by (auto simp: linked_join [of h "[e]" "bs @ [l]", simplified])
  have "linked h' (l # as) = linked h (l # as)"
    by (rule linked_cong) (use p_last n_in d in \<open>auto simp: nx pv dest: in_set_butlastD\<close>)
  moreover have "linked h' (bs @ [l]) = linked h (bs @ [l])"
    by (rule linked_cong) (use p_in n_hd d in \<open>auto simp: nx pv butlast_append dest: list.set_sel(2)\<close>)
  ultimately have "linked h' ((l # as) @ (bs @ [l]))"
    unfolding linked_join [of h' "l # as"] using l1 l2 p n nx pv by auto
  with d show ?thesis by (auto simp: ring_def)
qed


section \<open>What the operations do to a ring\<close>

lemma ring_ListInsertTail:
  assumes "ring h l xs" "e \<notin> set (l # xs)"
  shows "ring (ListInsertTail l e h) l (xs @ [e])"
proof (rule ring_link [of h l xs "[]" e "last (l # xs)" l])
  have pl: "prv h l = last (l # xs)" using assms(1) by (rule ring_last)
  moreover have "last (l # xs) \<noteq> e"
    using assms(2) last_in_set [of "l # xs"] by (metis list.distinct(1))
  ultimately show "nxt (ListInsertTail l e h) a =
      (if a = last (l # xs) then e else if a = e then l else nxt h a)" for a
    using assms(2) by (auto simp: ListInsertTail_def Let_def)
  show "prv (ListInsertTail l e h) a = (if a = l then e else if a = e then last (l # xs) else prv h a)" for a
    using assms(2) pl by (auto simp: ListInsertTail_def Let_def)
qed (use assms in auto)

lemma ring_ListInsertHead:
  assumes "ring h l xs" "e \<notin> set (l # xs)"
  shows "ring (ListInsertHead l e h) l (e # xs)"
proof -
  have "ring (ListInsertHead l e h) l ([] @ e # xs)"
  proof (rule ring_link [of h l "[]" xs e l "hd (xs @ [l])"])
    have nl: "nxt h l = hd (xs @ [l])" using assms(1) by (rule ring_first)
    have ne: "hd (xs @ [l]) \<noteq> e" using assms(2) hd_in_snoc [of xs l] by auto
    from nl ne show "nxt (ListInsertHead l e h) a =
        (if a = l then e else if a = e then hd (xs @ [l]) else nxt h a)" for a
      using assms(2) by (auto simp: ListInsertHead_def Let_def)
    from nl ne show "prv (ListInsertHead l e h) a =
        (if a = hd (xs @ [l]) then e else if a = e then l else prv h a)" for a
      using assms(2) by (auto simp: ListInsertHead_def Let_def)
  qed (use assms in auto)
  then show ?thesis by simp
qed

lemma ring_neighbours:
  assumes "ring h l (as @ e # bs)"
  shows "prv h e = last (l # as)" "nxt h e = hd (bs @ [l])"
proof -
  have "linked h ((l # as) @ (e # bs @ [l]))" using assms by (simp add: ring_def)
  then have "prv h e = last (l # as)" "linked h ([e] @ (bs @ [l]))"
    unfolding linked_join [of h "l # as"] by auto
  then show "prv h e = last (l # as)" "nxt h e = hd (bs @ [l])"
    unfolding linked_join [of h "[e]"] by auto
qed

lemma ring_ListRemoveEntry:
  assumes "ring h l xs" "e \<in> set xs"
  shows "ring (ListRemoveEntry e h) l (remove1 e xs)"
proof -
  from assms(2) obtain as bs where xs: "xs = as @ e # bs" by (auto dest: split_list)
  with assms(1) have r: "ring h l (as @ e # bs)" by simp
  note nb = ring_neighbours [OF r]
  from r have d: "e \<notin> set (l # as)" "e \<notin> set (bs @ [l])" by (auto simp: ring_def)
  then have "last (l # as) \<noteq> e" "hd (bs @ [l]) \<noteq> e"
    using last_in_set [of "l # as"] hd_in_snoc [of bs l] by (metis list.distinct(1), metis)
  with nb have "ring (ListRemoveEntry e h) l (as @ bs)"
    by (intro ring_unlink [OF r refl refl]) (auto simp: ListRemoveEntry_def Let_def)
  moreover have "remove1 e xs = as @ bs" using xs d by (simp add: remove1_append)
  ultimately show ?thesis by simp
qed

lemma ring_ListRemoveHead:
  assumes "ring h l xs"
  shows "case xs of [] \<Rightarrow> ListRemoveHead l h = (None, h)
    | x # ys \<Rightarrow> \<exists>h'. ListRemoveHead l h = (Some x, h') \<and> ring h' l ys"
  using assms ring_empty [OF assms] ring_first [OF assms] ring_ListRemoveEntry [OF assms, of "hd xs"]
  by (cases xs) (auto simp: ListRemoveHead_def Let_def)

lemma ring_ListRemoveTail:
  assumes "ring h l (xs @ [x])"
  shows "\<exists>h'. ListRemoveTail l h = (Some x, h') \<and> ring h' l xs"
proof -
  have "x \<notin> set xs" using ring_distinct [OF assms] by simp
  then have "remove1 x (xs @ [x]) = xs" by (simp add: remove1_append)
  then show ?thesis
    using ring_empty [OF assms] ring_last [OF assms] ring_ListRemoveEntry [OF assms, of x]
    by (auto simp: ListRemoveTail_def Let_def)
qed

text \<open>Operations on one list leave the other lists alone.\<close>

lemma ring_frame [frame_facts]:
  assumes "ring h m ys" "ring h l xs" "set (m # ys) \<inter> set (l # xs) = {}" "e \<notin> set (m # ys)"
  shows "ring (ListInsertTail l e h) m ys" "ring (ListInsertHead l e h) m ys"
    "e \<in> set xs \<Longrightarrow> ring (ListRemoveEntry e h) m ys"
proof -
  have nb: "prv h l \<notin> set (m # ys)" "nxt h l \<notin> set (m # ys)"
    using ring_last [OF assms(2)] ring_first [OF assms(2)] last_in_set [of "l # xs"]
      hd_in_snoc [of xs l] assms(3) by auto
  then show "ring (ListInsertTail l e h) m ys" "ring (ListInsertHead l e h) m ys"
    using assms by (auto intro!: ring_cong [OF assms(1)] simp: ListInsertTail_def ListInsertHead_def Let_def)
  assume "e \<in> set xs"
  then obtain as bs where xs: "xs = as @ e # bs" by (auto dest: split_list)
  have "prv h e \<in> set (l # as)" "nxt h e \<in> set (bs @ [l])"
    using ring_neighbours [of h l as e bs] assms(2) xs last_in_set [of "l # as"] hd_in_snoc [of bs l]
    by auto
  then have "prv h e \<notin> set (m # ys)" "nxt h e \<notin> set (m # ys)"
    using assms(3) xs by auto
  then show "ring (ListRemoveEntry e h) m ys"
    using assms by (auto intro!: ring_cong [OF assms(1)] simp: ListRemoveEntry_def Let_def)
qed


section \<open>The loops visit every node once\<close>

lemma for_each_suffix:
  assumes "ring h l (as @ bs)" "length bs < fuel"
  shows "LIST_FOR_EACH fuel h (hd (bs @ [l])) l = Some bs"
  using assms
proof (induction bs arbitrary: as fuel)
  case Nil
  then show ?case by (cases fuel) auto
next
  case (Cons b bs)
  then obtain f where f: "fuel = Suc f" "length bs < f" by (cases fuel) auto
  have "LIST_FOR_EACH f h (hd (bs @ [l])) l = Some bs"
    by (rule Cons.IH [of "as @ [b]"]) (use Cons.prems f in auto)
  moreover have "b \<noteq> l" using Cons.prems(1) by (auto simp: ring_def)
  ultimately show ?case
    using f ring_neighbours(2) [OF Cons.prems(1)] by simp
qed

lemma for_each_ring:
  "ring h l xs \<Longrightarrow> length xs < fuel \<Longrightarrow> LIST_FOR_EACH fuel h (nxt h l) l = Some xs"
  using for_each_suffix [of h l "[]" xs fuel] by (simp add: ring_first)

text \<open>
  The draining loops of the program (closing all sessions of a context, releasing all its shared
  memory, freeing all packages) unlink the node they are given and use its contents.
\<close>

definition drain_body :: "(addr \<Rightarrow> 's \<Rightarrow> 's) \<Rightarrow> addr \<Rightarrow> links \<times> 's \<Rightarrow> links \<times> 's" where
  "drain_body act e = (\<lambda>(h, s). (ListRemoveEntry e h, act e s))"

lemma for_each_safe_drain:
  assumes "ring h l xs" "length xs < fuel"
  shows "\<exists>h'. LIST_FOR_EACH_SAFE fuel (drain_body act) (h, s) (nxt h l) (nxt h (nxt h l)) l
      = Some (h', fold act xs s) \<and> ring h' l []"
  using assms
proof (induction xs arbitrary: h s fuel)
  case Nil
  then show ?case using ring_first [OF Nil(1)] by (cases fuel) auto
next
  case (Cons x xs)
  then obtain f where f: "fuel = Suc f" "length xs < f" by (cases fuel) auto
  let ?h = "ListRemoveEntry x h"
  have r: "ring ?h l xs" using ring_ListRemoveEntry [OF Cons.prems(1), of x] by simp
  have x: "x \<noteq> l" "nxt h l = x" "nxt h x = hd (xs @ [l])"
    using Cons.prems(1) ring_first [OF Cons.prems(1)] ring_neighbours [of h l "[]" x xs]
    by (auto simp: ring_def)
  from ring_first [OF r] x(3) have n: "nxt h x = nxt ?h l" by simp
  from Cons.IH [OF r f(2), of "act x s"] show ?case
    using f(1) x n by (simp add: drain_body_def)
qed

section \<open>The interface the components use\<close>

text \<open>
  A list of nodes with the two mutations the components perform. \<open>R h xs\<close> relates the concrete state
  to the sequence of nodes; \<open>ok\<close> excludes addresses that cannot be nodes of this list.
\<close>

datatype node_op = PushTail addr | Unlink addr

fun list_run :: "addr list \<Rightarrow> node_op list \<Rightarrow> addr list" where
  "list_run xs [] = xs"
| "list_run xs (PushTail e # ops) = list_run (xs @ [e]) ops"
| "list_run xs (Unlink e # ops) = list_run (remove1 e xs) ops"

fun node_run :: "(addr \<Rightarrow> 'h \<Rightarrow> 'h) \<Rightarrow> (addr \<Rightarrow> 'h \<Rightarrow> 'h) \<Rightarrow> 'h \<Rightarrow> node_op list \<Rightarrow> 'h" where
  "node_run push unlink h [] = h"
| "node_run push unlink h (PushTail e # ops) = node_run push unlink (push e h) ops"
| "node_run push unlink h (Unlink e # ops) = node_run push unlink (unlink e h) ops"

fun ops_ok :: "(addr \<Rightarrow> bool) \<Rightarrow> addr list \<Rightarrow> node_op list \<Rightarrow> bool" where
  "ops_ok ok xs [] = True"
| "ops_ok ok xs (PushTail e # ops) = (ok e \<and> e \<notin> set xs \<and> ops_ok ok (xs @ [e]) ops)"
| "ops_ok ok xs (Unlink e # ops) = (e \<in> set xs \<and> ops_ok ok (remove1 e xs) ops)"

locale node_list =
  fixes R :: "'h \<Rightarrow> addr list \<Rightarrow> bool"
    and push :: "addr \<Rightarrow> 'h \<Rightarrow> 'h"
    and unlink :: "addr \<Rightarrow> 'h \<Rightarrow> 'h"
    and ok :: "addr \<Rightarrow> bool"
  assumes nodes_distinct: "R h xs \<Longrightarrow> distinct xs"
    and push_tail: "R h xs \<Longrightarrow> ok e \<Longrightarrow> e \<notin> set xs \<Longrightarrow> R (push e h) (xs @ [e])"
    and unlink_node: "R h xs \<Longrightarrow> e \<in> set xs \<Longrightarrow> R (unlink e h) (remove1 e xs)"
begin

text \<open>Any script of admissible operations on the concrete list is simulated by the list of its nodes.\<close>

lemma simulation:
  "R h xs \<Longrightarrow> ops_ok ok xs ops \<Longrightarrow> R (node_run push unlink h ops) (list_run xs ops)"
proof (induction ops arbitrary: h xs)
  case Nil
  then show ?case by simp
next
  case (Cons x ops)
  then show ?case by (cases x) (auto intro: push_tail unlink_node)
qed

text \<open>Moving a node that may already be in the list to its end, as \<^verbatim>\<open>AddSessionList\<close> does.\<close>

lemma relink:
  assumes "R h xs" "ok e"
  shows "R (push e (if e \<in> set xs then unlink e h else h)) (removeAll e xs @ [e])"
proof (cases "e \<in> set xs")
  case True
  have "removeAll e xs = remove1 e xs"
    using nodes_distinct [OF assms(1)] by (simp add: distinct_remove1_removeAll)
  with True assms show ?thesis
    using nodes_distinct [OF assms(1)] by (simp add: push_tail unlink_node)
next
  case False
  with assms show ?thesis by (simp add: push_tail removeAll_id)
qed

end

interpretation ring_list: node_list "\<lambda>h xs. ring h l xs" "ListInsertTail l" ListRemoveEntry "\<lambda>e. e \<noteq> l"
  for l :: addr
  by unfold_locales (auto simp: ring_distinct ring_ListInsertTail ring_ListRemoveEntry)

section \<open>Properties\<close>

text \<open>C12. On the links of the heap, any sequence of \<^verbatim>\<open>ListInsertTail\<close> of new nodes and
  \<^verbatim>\<open>ListRemoveEntry\<close> of nodes in the list leaves a well-formed ring that holds exactly the nodes, in
  order, that appending to and removing from a plain list would; and \<^verbatim>\<open>LIST_FOR_EACH\<close> visits them in
  this order and ends.\<close>

theorem intrusive_list_refines_list:
  assumes "ring h l xs" and "ops_ok (\<lambda>e. e \<noteq> l) xs ops"
  defines "h' \<equiv> node_run (ListInsertTail l) ListRemoveEntry h ops"
  shows "ring h' l (list_run xs ops) \<and>
    LIST_FOR_EACH (Suc (length (list_run xs ops))) h' (nxt h' l) l = Some (list_run xs ops)"
proof -
  have "ring h' l (list_run xs ops)"
    unfolding h'_def by (rule ring_list.simulation [OF assms(1,2)])
  then show ?thesis by (simp add: for_each_ring del: LIST_FOR_EACH.simps)
qed

lemma intrusive_list_refines_list_witness:
  "ring (node_run (ListInsertTail 7) ListRemoveEntry (ListInit 7 \<lparr>nxt = \<lambda>_. 0, prv = \<lambda>_. 0\<rparr>)
      [PushTail 1, PushTail 2, Unlink 1]) 7 [2]"
proof -
  have r: "ring (ListInit 7 \<lparr>nxt = \<lambda>_. 0, prv = \<lambda>_. 0\<rparr>) 7 []" by (rule ring_ListInit)
  have "ops_ok (\<lambda>e. e \<noteq> 7) [] [PushTail 1, PushTail 2, Unlink 1]" by simp
  from intrusive_list_refines_list [OF r this] show ?thesis by simp
qed

text \<open>C27. The draining loop (\<^verbatim>\<open>LIST_FOR_EACH_SAFE\<close> with a body that unlinks its node) ends, handles
  every node of the list exactly once and in order, and leaves the list empty.\<close>

theorem safe_iteration_drains:
  assumes "ring h l xs"
  shows "\<exists>h'. LIST_FOR_EACH_SAFE (Suc (length xs)) (drain_body act) (h, s) (nxt h l) (nxt h (nxt h l)) l
      = Some (h', fold act xs s) \<and> LIST_EMPTY h' l"
proof -
  from for_each_safe_drain [OF assms, of "Suc (length xs)" act s] show ?thesis
    by (auto dest: ring_empty simp del: LIST_FOR_EACH_SAFE.simps)
qed

lemma safe_iteration_drains_witness:
  "\<forall>h. \<exists>h'. LIST_FOR_EACH_SAFE 3 (drain_body (#))
      (ListInsertTail 7 2 (ListInsertTail 7 1 (ListInit 7 h)), []) 1 2 7 = Some (h', [2, 1]) \<and> LIST_EMPTY h' 7"
proof
  fix h :: links
  have "ring (ListInsertTail 7 1 (ListInit 7 h)) 7 ([] @ [1])"
    by (rule ring_ListInsertTail [OF ring_ListInit]) simp
  then have r: "ring (ListInsertTail 7 2 (ListInsertTail 7 1 (ListInit 7 h))) 7 (([] @ [1]) @ [2])"
    by (rule ring_ListInsertTail) simp
  from safe_iteration_drains [OF r, of "(#)" "[]"] ring_first [OF r]
    ring_neighbours [of _ 7 "[]" 1 "[2]"] r
  show "\<exists>h'. LIST_FOR_EACH_SAFE 3 (drain_body (#))
      (ListInsertTail 7 2 (ListInsertTail 7 1 (ListInit 7 h)), []) 1 2 7 = Some (h', [2, 1]) \<and> LIST_EMPTY h' 7"
    by (simp del: LIST_FOR_EACH_SAFE.simps add: numeral_3_eq_3)
qed

end
