(* ===== verification/Refcount.thy ===== *)
theory Refcount
  imports Prelude
begin

text \<open>
  Reference counting: \<^verbatim>\<open>AtomInc\<close> and \<^verbatim>\<open>AtomDecAndCompareWithZero\<close> of
  \<^verbatim>\<open>src/libteec_vendor/tee_client_api.c\<close> (32-bit counters under one mutex) and the contract
  \<open>refcounted\<close> of an object that is freed by the put that drops its last reference. The contract is
  interpreted for the packages of \<^verbatim>\<open>Fd_List\<close> and the contexts and shared memories of
  \<^verbatim>\<open>Client_State\<close>; its lemmas say that an object stays allocated exactly as long as somebody holds a
  reference to it.
\<close>

section \<open>The counters\<close>

definition AtomInc :: "u32 \<Rightarrow> u32" where
  "AtomInc cnt = cnt + 1"

definition AtomDecAndCompareWithZero :: "u32 \<Rightarrow> bool \<times> u32" where
  "AtomDecAndCompareWithZero cnt = (let cnt' = cnt - 1 in (cnt' = 0, cnt'))"

lemma AtomInc_unat: "Suc (unat c) < 2 ^ 32 \<Longrightarrow> unat (AtomInc c) = Suc (unat c)"
  by (simp add: AtomInc_def unat_word_ariths)

lemma unat_minus_one': "0 < unat (c :: 'a::len word) \<Longrightarrow> unat (c - 1) = unat c - 1"
  by (metis unat_0 less_irrefl unat_minus_one)

lemma AtomDec_unat:
  assumes "0 < unat c"
  shows "AtomDecAndCompareWithZero c = (unat c = 1, c - 1)" "unat (c - 1) = unat c - 1"
proof -
  from assms have "c - 1 = 0 \<longleftrightarrow> unat c = 1" by (metis word_dec_zero_iff unat_1 word_unat_eq_iff)
  then show "AtomDecAndCompareWithZero c = (unat c = 1, c - 1)"
    by (simp add: AtomDecAndCompareWithZero_def)
  from assms show "unat (c - 1) = unat c - 1" by (rule unat_minus_one')
qed

section \<open>The contract of a counted object\<close>

datatype 'a ref_op = Get 'a | Put 'a

text \<open>
  The ledger of a run: how many references are out for each object. Only an object with a reference out
  may be referenced again or put, which is what the code of the components guarantees.
\<close>

fun ledger :: "('a \<Rightarrow> nat) \<Rightarrow> 'a ref_op list \<Rightarrow> ('a \<Rightarrow> nat)" where
  "ledger refs [] = refs"
| "ledger refs (Get a # ops) = ledger (refs(a := Suc (refs a))) ops"
| "ledger refs (Put a # ops) = ledger (refs(a := refs a - 1)) ops"

fun ledger_ok :: "('a \<Rightarrow> nat) \<Rightarrow> 'a ref_op list \<Rightarrow> bool" where
  "ledger_ok refs [] = True"
| "ledger_ok refs (Get a # ops) = (0 < refs a \<and> ledger_ok (refs(a := Suc (refs a))) ops)"
| "ledger_ok refs (Put a # ops) = (0 < refs a \<and> ledger_ok (refs(a := refs a - 1)) ops)"

text \<open>\<open>cnt s a\<close> is the counter of a live object, \<^const>\<open>None\<close> once it has been freed; operations that
  would touch freed memory return \<^const>\<open>None\<close>.\<close>

fun ref_run :: "('a \<Rightarrow> 's \<Rightarrow> 's option) \<Rightarrow> ('a \<Rightarrow> 's \<Rightarrow> 's option) \<Rightarrow> 's \<Rightarrow> 'a ref_op list \<Rightarrow> 's option" where
  "ref_run get put s [] = Some s"
| "ref_run get put s (Get a # ops) = (case get a s of None \<Rightarrow> None | Some s' \<Rightarrow> ref_run get put s' ops)"
| "ref_run get put s (Put a # ops) = (case put a s of None \<Rightarrow> None | Some s' \<Rightarrow> ref_run get put s' ops)"

locale refcounted =
  fixes cnt :: "'s \<Rightarrow> 'a \<Rightarrow> nat option"
    and get :: "'a \<Rightarrow> 's \<Rightarrow> 's option"
    and put :: "'a \<Rightarrow> 's \<Rightarrow> 's option"
    and lim :: nat
    and inv :: "'s \<Rightarrow> bool"
  assumes get_live: "inv s \<Longrightarrow> cnt s a = Some n \<Longrightarrow> 0 < n \<Longrightarrow> Suc n < lim \<Longrightarrow>
      \<exists>s'. get a s = Some s' \<and> inv s' \<and> cnt s' = (cnt s)(a := Some (Suc n))"
    and put_live: "inv s \<Longrightarrow> cnt s a = Some (Suc n) \<Longrightarrow> Suc n < lim \<Longrightarrow>
      \<exists>s'. put a s = Some s' \<and> inv s' \<and> cnt s' = (cnt s)(a := if n = 0 then None else Some n)"
begin

definition counts :: "'s \<Rightarrow> ('a \<Rightarrow> nat) \<Rightarrow> bool" where
  "counts s refs \<longleftrightarrow> inv s \<and> (\<forall>a. cnt s a = (if refs a = 0 then None else Some (refs a)))"

text \<open>
  No run of gets and puts that respects the ledger touches freed memory, and after it an object is
  allocated exactly if a reference to it is still out.
\<close>

lemma ref_run_counts:
  assumes "counts s refs" "ledger_ok refs ops" "\<forall>a. refs a + length ops < lim"
  shows "\<exists>s'. ref_run get put s ops = Some s' \<and> counts s' (ledger refs ops)"
  using assms
proof (induction ops arbitrary: s refs)
  case Nil
  then show ?case by simp
next
  case (Cons x ops)
  show ?case
  proof (cases x)
    case (Get a)
    with Cons.prems have c: "cnt s a = Some (refs a)" "0 < refs a" "inv s"
      by (auto simp: counts_def)
    have "Suc (refs a) < lim" using Cons.prems(3) [rule_format, of a] by simp
    from get_live [OF c(3,1,2) this] obtain s' where
      s': "get a s = Some s'" "inv s'" "cnt s' = (cnt s)(a := Some (Suc (refs a)))" by blast
    define refs' where "refs' = refs(a := Suc (refs a))"
    from s' have "counts s' refs'"
      using Cons.prems(1) by (auto simp: counts_def refs'_def)
    moreover have "\<forall>b. refs' b + length ops < lim"
    proof
      fix b show "refs' b + length ops < lim"
        using Cons.prems(3) [rule_format, of b] Get by (cases "b = a") (auto simp: refs'_def)
    qed
    moreover have "ledger_ok refs' ops" using Cons.prems(2) Get by (simp add: refs'_def)
    ultimately have "\<exists>s''. ref_run get put s' ops = Some s'' \<and> counts s'' (ledger refs' ops)"
      by (intro Cons.IH)
    then show ?thesis using Get s'(1) by (simp add: refs'_def)
  next
    case (Put a)
    with Cons.prems obtain n where n: "refs a = Suc n" by (cases "refs a") auto
    with Cons.prems have c: "cnt s a = Some (Suc n)" "inv s" by (auto simp: counts_def)
    have "Suc n < lim" using Cons.prems(3) [rule_format, of a] n by simp
    from put_live [OF c(2,1) this] obtain s' where
      s': "put a s = Some s'" "inv s'" "cnt s' = (cnt s)(a := if n = 0 then None else Some n)" by blast
    define refs' where "refs' = refs(a := n)"
    from s' have "counts s' refs'"
      using Cons.prems(1) by (auto simp: counts_def refs'_def)
    moreover have "\<forall>b. refs' b + length ops < lim"
    proof
      fix b show "refs' b + length ops < lim"
        using Cons.prems(3) [rule_format, of b] n Put by (cases "b = a") (auto simp: refs'_def)
    qed
    moreover have "ledger_ok refs' ops" using Cons.prems(2) Put n by (simp add: refs'_def)
    ultimately have "\<exists>s''. ref_run get put s' ops = Some s'' \<and> counts s'' (ledger refs' ops)"
      by (intro Cons.IH)
    then show ?thesis using Put s'(1) n by (simp add: refs'_def)
  qed
qed

end

end
