(* ===== verification/Fd_List.thy ===== *)
theory Fd_List
  imports Bitmap Intrusive_List Refcount
begin

text \<open>
  The descriptor list of the posix proxy,
  \<^verbatim>\<open>src/tee_teleport/posix_proxy/src/fd_list.c\<close> and \<^verbatim>\<open>fd_list.h\<close>: a bitmap of
  descriptors and a list of reference-counted temporary packages, keyed by descriptor and TEE index.
  \<^verbatim>\<open>GetTimestampUs\<close> of \<^verbatim>\<open>common.c\<close> is included.

  The state is a record with the two parts; packages live in a heap \<open>pkgs\<close>, and \<open>nodes\<close> is the sequence
  of the intrusive list (see \<open>node_list\<close>). Each function takes the outcomes of its calls to the
  operating system in an environment record. An operation that would read or write a freed package has
  the outcome \<^const>\<open>None\<close>. The bodies run under \<^verbatim>\<open>fdListLock\<close> or \<^verbatim>\<open>bitmapLock\<close>, so each is one
  step.
\<close>

section \<open>State and environment\<close>

record PkgTmpBuf =
  fd :: u32
  teeIndex :: u64
  buff :: "addr option"
  buffLen :: u64
  refCnt :: u64
  creatTimeUs :: u64

record FdList =
  bitmap :: "u8 list option"
  byteMax :: u32
  nodes :: "addr list"
  pkgs :: "addr \<Rightarrow> PkgTmpBuf option"
  freed_buffs :: "addr list"

text \<open>What \<^verbatim>\<open>gettimeofday\<close> returned: its result, \<^verbatim>\<open>errno\<close> and the two fields of the time.\<close>

record gettimeofday_res =
  gt_rc :: int
  gt_errno :: int
  gt_sec :: u64
  gt_usec :: u64

record fd_env =
  lock_rc :: int
  err_no :: int
  malloc_ret :: "addr option"
  gtod :: gettimeofday_res

definition GetTimestampUs :: "bool \<Rightarrow> gettimeofday_res \<Rightarrow> int \<times> u64 option" where
  "GetTimestampUs usec_null r =
     (if usec_null then (- EINVAL_no, None)
      else if gt_rc r = - 1 then (- gt_errno r, None)
      else (gt_rc r, Some (gt_sec r * 1000000 + gt_usec r)))"

section \<open>Creation and the descriptor bitmap\<close>

definition MAX_FD_NUMS :: nat where "MAX_FD_NUMS = 1024"
definition BITS_PER_BYTE :: nat where "BITS_PER_BYTE = 8"

text \<open>
  \<open>m1\<close> and \<open>m2\<close> say whether the two allocations succeed, \<open>l1\<close> and \<open>l2\<close> are the results of the two mutex
  initialisations, \<open>e\<close> is \<^verbatim>\<open>errno\<close>. The new list is returned; nothing is when initialisation fails.
\<close>

definition FdListInit :: "bool \<Rightarrow> bool \<Rightarrow> bool \<Rightarrow> int \<Rightarrow> int \<Rightarrow> int \<Rightarrow> int \<times> FdList option" where
  "FdListInit retFdList_null m1 m2 l1 l2 e =
     (if retFdList_null then (- EINVAL_no, None)
      else if \<not> m1 then (- e, None)
      else let bytes = MAX_FD_NUMS div BITS_PER_BYTE in
        if \<not> m2 then (- e, None)
        else if l1 \<noteq> 0 then (- e, None)
        else if l2 \<noteq> 0 then (- e, None)
        else (0, Some \<lparr>bitmap = Some (replicate bytes 0), byteMax = of_nat bytes, nodes = [],
                       pkgs = Map.empty, freed_buffs = []\<rparr>))"

definition FdListPutFD :: "fd_env \<Rightarrow> FdList option \<Rightarrow> u32 \<Rightarrow> int \<times> FdList option" where
  "FdListPutFD env fdList f =
     (case fdList of
        None \<Rightarrow> (- EINVAL_no, None)
      | Some l \<Rightarrow>
          if lock_rc env \<noteq> 0 then (- err_no env, Some l)
          else (0, Some (l\<lparr>bitmap := SetBit f (byteMax l) (bitmap l)\<rparr>)))"

definition FdListCheckFD :: "fd_env \<Rightarrow> FdList option \<Rightarrow> u32 \<Rightarrow> bool \<Rightarrow> int \<times> bool option" where
  "FdListCheckFD env fdList f res_null =
     (case fdList of
        None \<Rightarrow> (- EINVAL_no, None)
      | Some l \<Rightarrow>
          if res_null then (- EINVAL_no, None)
          else if lock_rc env \<noteq> 0 then (- err_no env, None)
          else (0, Some (CheckBit f (byteMax l) (bitmap l))))"

definition FdListRemoveFD :: "fd_env \<Rightarrow> FdList option \<Rightarrow> u32 \<Rightarrow> int \<times> FdList option" where
  "FdListRemoveFD env fdList f =
     (case fdList of
        None \<Rightarrow> (- EINVAL_no, None)
      | Some l \<Rightarrow>
          if lock_rc env \<noteq> 0 then (- err_no env, Some l)
          else (0, Some (l\<lparr>bitmap := ClearBit f (byteMax l) (bitmap l)\<rparr>)))"

definition FdListFreeBitmap :: "fd_env \<Rightarrow> FdList option \<Rightarrow> int \<times> FdList option" where
  "FdListFreeBitmap env fdList =
     (case fdList of
        None \<Rightarrow> (- EINVAL_no, None)
      | Some l \<Rightarrow>
          if bitmap l = None then (- EINVAL_no, Some l)
          else if lock_rc env \<noteq> 0 then (- err_no env, Some l)
          else (0, Some (l\<lparr>bitmap := None\<rparr>)))"

section \<open>Packages\<close>

definition FdListCreatPkg ::
  "fd_env \<Rightarrow> u32 \<Rightarrow> u64 \<Rightarrow> addr option \<Rightarrow> u64 \<Rightarrow> int \<times> (addr \<times> PkgTmpBuf) option" where
  "FdListCreatPkg env f idx b len =
     (case malloc_ret env of
        None \<Rightarrow> (- err_no env, None)
      | Some a \<Rightarrow>
          (case GetTimestampUs False (gtod env) of
             (ret, now) \<Rightarrow>
               if ret \<noteq> 0 then (ret, None)
               else (0, Some (a, \<lparr>fd = f, teeIndex = idx, buff = b, buffLen = len, refCnt = 1,
                                 creatTimeUs = (case now of Some t \<Rightarrow> t | None \<Rightarrow> 0)\<rparr>))))"

text \<open>The search walks the list and reads every package it passes.\<close>

fun FdListSearchPkg ::
  "(addr \<Rightarrow> PkgTmpBuf option) \<Rightarrow> addr list \<Rightarrow> u32 \<Rightarrow> u64 \<Rightarrow> addr option option" where
  "FdListSearchPkg heap [] f idx = Some None"
| "FdListSearchPkg heap (a # as) f idx =
     (case heap a of
        None \<Rightarrow> None
      | Some p \<Rightarrow> if fd p = f \<and> teeIndex p = idx then Some (Some a) else FdListSearchPkg heap as f idx)"

definition FdListFreePkg :: "addr option \<Rightarrow> FdList \<Rightarrow> FdList option" where
  "FdListFreePkg pkg l =
     (case pkg of
        None \<Rightarrow> Some l
      | Some a \<Rightarrow>
          (case pkgs l a of
             None \<Rightarrow> None
           | Some p \<Rightarrow> Some (l\<lparr>pkgs := (pkgs l)(a := None),
                freed_buffs := (case buff p of None \<Rightarrow> freed_buffs l | Some b \<Rightarrow> b # freed_buffs l)\<rparr>)))"

definition RefPkg :: "addr option \<Rightarrow> FdList \<Rightarrow> FdList option" where
  "RefPkg pkg l =
     (case pkg of
        None \<Rightarrow> Some l
      | Some a \<Rightarrow>
          (case pkgs l a of
             None \<Rightarrow> None
           | Some p \<Rightarrow> Some (l\<lparr>pkgs := (pkgs l)(a \<mapsto> p\<lparr>refCnt := refCnt p + 1\<rparr>)\<rparr>)))"

definition DerefPkg :: "addr option \<Rightarrow> FdList \<Rightarrow> FdList option" where
  "DerefPkg pkg l =
     (case pkg of
        None \<Rightarrow> Some l
      | Some a \<Rightarrow>
          (case pkgs l a of
             None \<Rightarrow> None
           | Some p \<Rightarrow>
               let l' = l\<lparr>pkgs := (pkgs l)(a \<mapsto> p\<lparr>refCnt := refCnt p - 1\<rparr>)\<rparr> in
               if refCnt p = 1 then FdListFreePkg (Some a) (l'\<lparr>nodes := remove1 a (nodes l')\<rparr>)
               else Some l'))"

definition FdListPutPkg ::
  "fd_env \<Rightarrow> FdList option \<Rightarrow> u32 \<Rightarrow> u64 \<Rightarrow> addr option \<Rightarrow> u64 \<Rightarrow> (int \<times> FdList option) option" where
  "FdListPutPkg env fdList f idx b len =
     (case fdList of
        None \<Rightarrow> Some (- EINVAL_no, None)
      | Some l \<Rightarrow>
          if lock_rc env \<noteq> 0 then Some (- err_no env, Some l)
          else case FdListSearchPkg (pkgs l) (nodes l) f idx of
            None \<Rightarrow> None
          | Some (Some _) \<Rightarrow> Some (- EBADF_no, Some l)
          | Some None \<Rightarrow>
              (case FdListCreatPkg env f idx b len of
                 (ret, Some (a, p)) \<Rightarrow>
                   Some (0, Some (l\<lparr>pkgs := (pkgs l)(a \<mapsto> p), nodes := nodes l @ [a]\<rparr>))
               | (ret, None) \<Rightarrow> Some (ret, Some l)))"

definition FdListGetPkg ::
  "fd_env \<Rightarrow> FdList option \<Rightarrow> u32 \<Rightarrow> u64 \<Rightarrow> bool \<Rightarrow> (int \<times> addr option \<times> FdList option) option" where
  "FdListGetPkg env fdList f idx retPkg_null =
     (case fdList of
        None \<Rightarrow> Some (- EINVAL_no, None, None)
      | Some l \<Rightarrow>
          if retPkg_null then Some (- EINVAL_no, None, Some l)
          else if lock_rc env \<noteq> 0 then Some (- err_no env, None, Some l)
          else case FdListSearchPkg (pkgs l) (nodes l) f idx of
            None \<Rightarrow> None
          | Some None \<Rightarrow> Some (- ENOENT_no, None, Some l)
          | Some (Some a) \<Rightarrow>
              (case RefPkg (Some a) l of
                 None \<Rightarrow> None
               | Some l' \<Rightarrow> Some (0, Some a, Some l')))"

definition FdListReleasePkgByIndex ::
  "fd_env \<Rightarrow> FdList option \<Rightarrow> u32 \<Rightarrow> u64 \<Rightarrow> (int \<times> FdList option) option" where
  "FdListReleasePkgByIndex env fdList f idx =
     (case fdList of
        None \<Rightarrow> Some (0, None)
      | Some l \<Rightarrow>
          if lock_rc env \<noteq> 0 then Some (- err_no env, Some l)
          else case FdListSearchPkg (pkgs l) (nodes l) f idx of
            None \<Rightarrow> None
          | Some None \<Rightarrow> Some (0, Some l)
          | Some (Some a) \<Rightarrow> map_option (\<lambda>l'. (0, Some l')) (DerefPkg (Some a) l))"

definition FdListReleasePkg ::
  "fd_env \<Rightarrow> FdList option \<Rightarrow> addr option \<Rightarrow> (int \<times> FdList option) option" where
  "FdListReleasePkg env fdList pkg =
     (case fdList of
        None \<Rightarrow> Some (0, None)
      | Some l \<Rightarrow>
          if pkg = None then Some (0, Some l)
          else if lock_rc env \<noteq> 0 then Some (- err_no env, Some l)
          else map_option (\<lambda>l'. (0, Some l')) (DerefPkg pkg l))"

section \<open>Timeouts and destruction\<close>

definition GetPkgTimeOutByLen :: "u64 \<Rightarrow> u64" where
  "GetPkgTimeOutByLen pkgBuffLen =
     (let GB = 2 ^ 30;
          numGB = pkgBuffLen div GB;
          numGB = (if pkgBuffLen mod GB \<noteq> 0 then numGB + 1 else numGB)
      in numGB * 10000000)"

text \<open>
  The timeout scan: \<open>clock i\<close> is what \<^verbatim>\<open>gettimeofday\<close> returns at the \<open>i\<close>-th node. The safe loop reads
  the next node before the body and the body unlinks no other node, so it visits the nodes the list
  had at the start (see \<open>safe_iteration_drains\<close>).
\<close>

fun timeout_loop ::
  "(nat \<Rightarrow> gettimeofday_res) \<Rightarrow> nat \<Rightarrow> addr list \<Rightarrow> int \<Rightarrow> FdList \<Rightarrow> (int \<times> FdList) option" where
  "timeout_loop clock i [] ret l = Some (ret, l)"
| "timeout_loop clock i (a # as) ret l =
     (case GetTimestampUs False (clock i) of
        (ret', now) \<Rightarrow>
          if ret' \<noteq> 0 then Some (ret', l)
          else case pkgs l a of
            None \<Rightarrow> None
          | Some p \<Rightarrow>
              if (case now of Some t \<Rightarrow> t | None \<Rightarrow> 0) - creatTimeUs p > GetPkgTimeOutByLen (buffLen p)
              then (case DerefPkg (Some a) l of
                      None \<Rightarrow> None
                    | Some l' \<Rightarrow> timeout_loop clock (Suc i) as ret' l')
              else timeout_loop clock (Suc i) as ret' l)"

definition FdListDelTimeoutPkg ::
  "fd_env \<Rightarrow> (nat \<Rightarrow> gettimeofday_res) \<Rightarrow> FdList option \<Rightarrow> (int \<times> FdList option) option" where
  "FdListDelTimeoutPkg env clock fdList =
     (case fdList of
        None \<Rightarrow> Some (0, None)
      | Some l \<Rightarrow>
          if lock_rc env \<noteq> 0 then Some (- err_no env, Some l)
          else map_option (map_prod id Some) (timeout_loop clock 0 (nodes l) 0 l))"

fun deref_all :: "addr list \<Rightarrow> FdList \<Rightarrow> FdList option" where
  "deref_all [] l = Some l"
| "deref_all (a # as) l = (case DerefPkg (Some a) l of None \<Rightarrow> None | Some l' \<Rightarrow> deref_all as l')"

definition FdListFreePkgList :: "fd_env \<Rightarrow> FdList option \<Rightarrow> (int \<times> FdList option) option" where
  "FdListFreePkgList env fdList =
     (case fdList of
        None \<Rightarrow> Some (0, None)
      | Some l \<Rightarrow>
          if lock_rc env \<noteq> 0 then Some (- err_no env, Some l)
          else map_option (\<lambda>l'. (0, Some l')) (deref_all (nodes l) l))"

text \<open>
  \<open>d1\<close> and \<open>d2\<close> are the results of destroying the two mutexes. On success the list itself is freed; the
  second component is what is left of it otherwise, and the third the packages that were in the
  freed list and are still allocated.
\<close>

definition FdListDestroy ::
  "fd_env \<Rightarrow> int \<Rightarrow> int \<Rightarrow> FdList option \<Rightarrow> (int \<times> FdList option \<times> (addr \<Rightarrow> PkgTmpBuf option)) option" where
  "FdListDestroy env d1 d2 fdList =
     (case fdList of
        None \<Rightarrow> Some (- EINVAL_no, None, Map.empty)
      | Some _ \<Rightarrow>
          (case FdListFreePkgList env fdList of
             None \<Rightarrow> None
           | Some (ret, l1) \<Rightarrow>
               if ret \<noteq> 0 then Some (ret, l1, Map.empty)
               else case FdListFreeBitmap env l1 of
                 (ret, l2) \<Rightarrow>
                   if ret \<noteq> 0 then Some (ret, l2, Map.empty)
                   else if d1 \<noteq> 0 then Some (d1, l2, Map.empty)
                   else if d2 \<noteq> 0 then Some (d2, l2, Map.empty)
                   else Some (0, None, case l2 of Some l \<Rightarrow> pkgs l | None \<Rightarrow> Map.empty)))"


section \<open>The invariant\<close>

definition pkg_key :: "PkgTmpBuf \<Rightarrow> u32 \<times> u64" where
  "pkg_key p = (fd p, teeIndex p)"

text \<open>
  The list holds each allocated package once, all keys differ, and every package in it has a reference.
\<close>

definition fd_inv :: "FdList \<Rightarrow> bool" where
  "fd_inv l \<longleftrightarrow> distinct (nodes l) \<and> dom (pkgs l) = set (nodes l) \<and>
     (\<forall>a b p q. pkgs l a = Some p \<longrightarrow> pkgs l b = Some q \<longrightarrow> pkg_key p = pkg_key q \<longrightarrow> a = b) \<and>
     (\<forall>a p. pkgs l a = Some p \<longrightarrow> refCnt p \<noteq> 0)"

lemma fd_invD:
  assumes "fd_inv l"
  shows "distinct (nodes l)" "dom (pkgs l) = set (nodes l)"
    "\<And>a b p q. pkgs l a = Some p \<Longrightarrow> pkgs l b = Some q \<Longrightarrow> pkg_key p = pkg_key q \<Longrightarrow> a = b"
    "\<And>a p. pkgs l a = Some p \<Longrightarrow> refCnt p \<noteq> 0"
  using assms unfolding fd_inv_def by blast+

lemma fd_inv_init [inv_facts]: "FdListInit n m1 m2 l1 l2 e = (r, Some l) \<Longrightarrow> fd_inv l"
  by (auto simp: FdListInit_def fd_inv_def Let_def split: if_splits)

lemma search_cases:
  "set ns \<subseteq> dom heap \<Longrightarrow>
   (FdListSearchPkg heap ns f idx = Some None \<and> (\<forall>a\<in>set ns. map_option pkg_key (heap a) \<noteq> Some (f, idx))) \<or>
   (\<exists>a p. FdListSearchPkg heap ns f idx = Some (Some a) \<and> a \<in> set ns \<and> heap a = Some p \<and> pkg_key p = (f, idx))"
proof (induction ns)
  case Nil
  then show ?case by simp
next
  case (Cons a ns)
  then obtain p where p: "heap a = Some p" by auto
  from Cons have IH: "(FdListSearchPkg heap ns f idx = Some None \<and>
        (\<forall>a\<in>set ns. map_option pkg_key (heap a) \<noteq> Some (f, idx))) \<or>
      (\<exists>a p. FdListSearchPkg heap ns f idx = Some (Some a) \<and> a \<in> set ns \<and> heap a = Some p \<and>
        pkg_key p = (f, idx))" by simp
  show ?case
  proof (cases "pkg_key p = (f, idx)")
    case True
    with p show ?thesis by (auto simp: pkg_key_def)
  next
    case False
    then have "FdListSearchPkg heap (a # ns) f idx = FdListSearchPkg heap ns f idx"
      using p by (auto simp: pkg_key_def)
    moreover have "map_option pkg_key (heap a) \<noteq> Some (f, idx)" using p False by simp
    ultimately show ?thesis using IH by (metis list.set_intros(2) set_ConsD)
  qed
qed

lemma search_inv:
  assumes "fd_inv l"
  shows "FdListSearchPkg (pkgs l) (nodes l) f idx =
    Some (if \<exists>a p. pkgs l a = Some p \<and> pkg_key p = (f, idx)
          then Some (THE a. \<exists>p. pkgs l a = Some p \<and> pkg_key p = (f, idx)) else None)"
proof -
  note i = fd_invD [OF assms]
  have sub: "set (nodes l) \<subseteq> dom (pkgs l)" using i(2) by simp
  have mem: "\<And>a p. pkgs l a = Some p \<Longrightarrow> a \<in> set (nodes l)" using i(2) by (auto simp: dom_def)
  from search_cases [OF sub, of f idx] show ?thesis
  proof (elim disjE exE conjE)
    assume n: "FdListSearchPkg (pkgs l) (nodes l) f idx = Some None"
      "\<forall>a\<in>set (nodes l). map_option pkg_key (pkgs l a) \<noteq> Some (f, idx)"
    then have "\<not> (\<exists>a p. pkgs l a = Some p \<and> pkg_key p = (f, idx))" using mem by fastforce
    with n show ?thesis by simp
  next
    fix a p assume a: "FdListSearchPkg (pkgs l) (nodes l) f idx = Some (Some a)"
      "pkgs l a = Some p" "pkg_key p = (f, idx)"
    have "(THE a. \<exists>p. pkgs l a = Some p \<and> pkg_key p = (f, idx)) = a"
      using a(2,3) i(3) by (intro the_equality) (metis)+
    with a show ?thesis by auto
  qed
qed

lemma search_found:
  "fd_inv l \<Longrightarrow> pkgs l a = Some p \<Longrightarrow> FdListSearchPkg (pkgs l) (nodes l) (fd p) (teeIndex p) = Some (Some a)"
proof -
  assume i: "fd_inv l" and p: "pkgs l a = Some p"
  have "(THE a. \<exists>q. pkgs l a = Some q \<and> pkg_key q = (fd p, teeIndex p)) = a"
    using p fd_invD(3) [OF i] by (intro the_equality) (auto simp: pkg_key_def)
  with search_inv [OF i, of "fd p" "teeIndex p"] p show ?thesis by (auto simp: pkg_key_def)
qed

section \<open>Effect of the operations on one package\<close>

definition after_deref :: "PkgTmpBuf \<Rightarrow> PkgTmpBuf option" where
  "after_deref p = (if refCnt p = 1 then None else Some (p\<lparr>refCnt := refCnt p - 1\<rparr>))"

lemma DerefPkg_spec:
  assumes "fd_inv l" "pkgs l a = Some p"
  obtains l' where "DerefPkg (Some a) l = Some l'" "fd_inv l'"
    "pkgs l' = (pkgs l)(a := after_deref p)"
    "nodes l' = (if refCnt p = 1 then remove1 a (nodes l) else nodes l)"
    "bitmap l' = bitmap l" "byteMax l' = byteMax l"
proof -
  note i = fd_invD [OF assms(1)]
  obtain l' where l': "DerefPkg (Some a) l = Some l'"
    "pkgs l' = (pkgs l)(a := after_deref p)"
    "nodes l' = (if refCnt p = 1 then remove1 a (nodes l) else nodes l)"
    "bitmap l' = bitmap l" "byteMax l' = byteMax l"
    using assms(2) by (cases "refCnt p = 1") (auto simp: DerefPkg_def FdListFreePkg_def after_deref_def Let_def)
  have "pkgs l a \<noteq> None" using assms(2) by simp
  then have mem: "a \<in> set (nodes l)" using i(2) by (auto simp: dom_def)
  have "fd_inv l'"
    unfolding fd_inv_def
  proof (intro conjI allI impI)
    show "distinct (nodes l')" using i(1) l'(3) by (simp add: distinct_remove1)
    show "dom (pkgs l') = set (nodes l')"
      using i(1,2) l'(2,3) mem by (auto simp: after_deref_def dom_def set_remove1_eq)
    fix b c q r assume "pkgs l' b = Some q" "pkgs l' c = Some r" "pkg_key q = pkg_key r"
    moreover have "\<exists>q0. pkgs l b = Some q0 \<and> pkg_key q0 = pkg_key q" if "pkgs l' b = Some q" for b q
      using that l'(2) assms(2) by (auto simp: after_deref_def pkg_key_def split: if_splits)
    ultimately show "b = c" using i(3) by metis
  next
    fix b q assume "pkgs l' b = Some q"
    then show "refCnt q \<noteq> 0"
      using l'(2) i(4) by (auto simp: after_deref_def split: if_splits)
  qed
  with l' show ?thesis by (intro that [of l']) auto
qed

lemma RefPkg_spec:
  assumes "fd_inv l" "pkgs l a = Some p" "refCnt p \<noteq> - 1"
  obtains l' where "RefPkg (Some a) l = Some l'" "fd_inv l'"
    "pkgs l' = (pkgs l)(a \<mapsto> p\<lparr>refCnt := refCnt p + 1\<rparr>)" "nodes l' = nodes l"
proof -
  note i = fd_invD [OF assms(1)]
  let ?l = "l\<lparr>pkgs := (pkgs l)(a \<mapsto> p\<lparr>refCnt := refCnt p + 1\<rparr>)\<rparr>"
  have "refCnt p + 1 \<noteq> 0" using assms(3) by (metis add_eq_0_iff2)
  moreover have "\<exists>q0. pkgs l b = Some q0 \<and> pkg_key q0 = pkg_key q" if "pkgs ?l b = Some q" for b q
    using that assms(2) by (auto simp: pkg_key_def split: if_splits)
  moreover have "dom (pkgs ?l) = set (nodes l)"
    using i(2) assms(2) by (auto simp: dom_def split: if_splits)
  ultimately have "fd_inv ?l"
    using i unfolding fd_inv_def by (simp split: if_splits) metis
  then show ?thesis using assms(2) by (intro that [of ?l]) (auto simp: RefPkg_def)
qed


lemma key_update:
  "pkgs l a = Some p \<Longrightarrow> pkg_key (p\<lparr>refCnt := n\<rparr>) = pkg_key p"
  by (simp add: pkg_key_def)

section \<open>The packages as counted objects\<close>

definition pkg_cnt :: "FdList \<Rightarrow> addr \<Rightarrow> nat option" where
  "pkg_cnt l a = map_option (\<lambda>p. unat (refCnt p)) (pkgs l a)"

text \<open>Taking and dropping a reference through the interface, by a caller that gets the lock.\<close>

definition pkg_get :: "fd_env \<Rightarrow> addr \<Rightarrow> FdList \<Rightarrow> FdList option" where
  "pkg_get env a l =
     (case pkgs l a of
        None \<Rightarrow> None
      | Some p \<Rightarrow>
          (case FdListGetPkg env (Some l) (fd p) (teeIndex p) False of
             Some (r, Some a', Some l') \<Rightarrow> if r = 0 \<and> a' = a then Some l' else None
           | _ \<Rightarrow> None))"

definition pkg_put :: "fd_env \<Rightarrow> addr \<Rightarrow> FdList \<Rightarrow> FdList option" where
  "pkg_put env a l =
     (case FdListReleasePkg env (Some l) (Some a) of
        Some (r, Some l') \<Rightarrow> if r = 0 then Some l' else None
      | _ \<Rightarrow> None)"

lemma pkg_get_RefPkg:
  "fd_inv l \<Longrightarrow> lock_rc env = 0 \<Longrightarrow> pkgs l a \<noteq> None \<Longrightarrow> pkg_get env a l = RefPkg (Some a) l"
  by (auto simp: pkg_get_def FdListGetPkg_def search_found split: option.splits)

lemma pkg_put_DerefPkg: "lock_rc env = 0 \<Longrightarrow> pkg_put env a l = DerefPkg (Some a) l"
  by (auto simp: pkg_put_def FdListReleasePkg_def split: option.splits)

lemma unat_max_word: "Suc (unat (w :: u64)) < 2 ^ 64 \<Longrightarrow> w \<noteq> - 1"
  by (auto simp: unsigned_minus_1_eq_mask mask_eq_exp_minus_1)

interpretation pkg_refs: refcounted pkg_cnt "pkg_get env" "pkg_put env" "2 ^ 64"
    "\<lambda>l. fd_inv l \<and> lock_rc env = 0" for env :: fd_env
proof (unfold_locales, goal_cases)
  case (1 l a n)
  then obtain p where p: "pkgs l a = Some p" "unat (refCnt p) = n" by (auto simp: pkg_cnt_def)
  with 1 have "refCnt p \<noteq> - 1" by (intro unat_max_word) simp
  with 1 p obtain l' where l': "RefPkg (Some a) l = Some l'" "fd_inv l'"
    "pkgs l' = (pkgs l)(a \<mapsto> p\<lparr>refCnt := refCnt p + 1\<rparr>)" "nodes l' = nodes l"
    by (auto elim: RefPkg_spec)
  have "unat (refCnt p + 1) = Suc n" using 1 p by (simp add: unat_word_ariths)
  with 1 p l' show ?case by (auto simp: pkg_get_RefPkg pkg_cnt_def fun_eq_iff)
next
  case (2 l a n)
  then obtain p where p: "pkgs l a = Some p" "unat (refCnt p) = Suc n" by (auto simp: pkg_cnt_def)
  then obtain l' where l': "DerefPkg (Some a) l = Some l'" "fd_inv l'"
    "pkgs l' = (pkgs l)(a := after_deref p)"
    using 2 by (auto elim: DerefPkg_spec)
  have "refCnt p = 1 \<longleftrightarrow> n = 0" using p(2) by (metis One_nat_def Suc_inject unat_1 word_unat_eq_iff)
  moreover have "unat (refCnt p - 1) = n" using p(2) by (simp add: unat_minus_one')
  ultimately show ?case
    using 2 p l' by (auto simp: pkg_put_DerefPkg pkg_cnt_def after_deref_def fun_eq_iff)
qed


section \<open>Inserting, scanning and draining\<close>

lemma fd_inv_insert [inv_facts]:
  assumes "fd_inv l" "pkgs l a = None" "refCnt p \<noteq> 0"
    and "\<nexists>a q. pkgs l a = Some q \<and> pkg_key q = pkg_key p"
  shows "fd_inv (l\<lparr>pkgs := (pkgs l)(a \<mapsto> p), nodes := nodes l @ [a]\<rparr>)"
proof -
  note i = fd_invD [OF assms(1)]
  have "a \<notin> set (nodes l)" using i(2) assms(2) domIff [of a "pkgs l"] by simp
  then show ?thesis
    unfolding fd_inv_def using i assms(3,4) by (auto split: if_splits) metis+
qed

definition expired :: "u64 \<Rightarrow> PkgTmpBuf \<Rightarrow> bool" where
  "expired t p \<longleftrightarrow> t - creatTimeUs p > GetPkgTimeOutByLen (buffLen p)"

definition deref_if :: "bool \<Rightarrow> PkgTmpBuf option \<Rightarrow> PkgTmpBuf option" where
  "deref_if b x = (case x of None \<Rightarrow> None | Some p \<Rightarrow> if b then after_deref p else Some p)"

lemma timeout_loop_spec:
  assumes "\<forall>i. GetTimestampUs False (clock i) = (0, Some t)"
    and "fd_inv l" "distinct as" "set as \<subseteq> dom (pkgs l)"
  shows "\<exists>l'. timeout_loop clock i as ret l = Some (if as = [] then ret else 0, l') \<and> fd_inv l' \<and>
    pkgs l' = (\<lambda>a. deref_if (a \<in> set as \<and> (\<forall>p. pkgs l a = Some p \<longrightarrow> expired t p)) (pkgs l a)) \<and>
    bitmap l' = bitmap l"
  using assms(2-)
proof (induction as arbitrary: i ret l)
  case Nil
  then show ?case by (auto simp: deref_if_def fun_eq_iff split: option.splits)
next
  case (Cons a as)
  then obtain p where p: "pkgs l a = Some p" by auto
  have na: "a \<notin> set as" using Cons.prems(2) by simp
  show ?case
  proof (cases "expired t p")
    case True
    from DerefPkg_spec [OF Cons.prems(1) p] obtain l1 where
      l1: "DerefPkg (Some a) l = Some l1" "fd_inv l1" "pkgs l1 = (pkgs l)(a := after_deref p)"
        "bitmap l1 = bitmap l" by metis
    have "set as \<subseteq> dom (pkgs l1)" using Cons.prems(3) na l1(3) by (auto simp: dom_def)
    with Cons.IH [OF l1(2), of "Suc i" 0] Cons.prems(2) obtain l' where
      l': "timeout_loop clock (Suc i) as 0 l1 = Some (0, l')" "fd_inv l'" "bitmap l' = bitmap l1"
        "pkgs l' = (\<lambda>b. deref_if (b \<in> set as \<and> (\<forall>p. pkgs l1 b = Some p \<longrightarrow> expired t p)) (pkgs l1 b))"
      by auto
    have "timeout_loop clock i (a # as) ret l = Some (0, l')"
      using assms(1) p True l1(1) l'(1) by (simp add: expired_def)
    moreover have "pkgs l' b = deref_if (b \<in> set (a # as) \<and> (\<forall>p. pkgs l b = Some p \<longrightarrow> expired t p)) (pkgs l b)" for b
      using l'(4) l1(3) p True na by (cases "b = a") (auto simp: deref_if_def split: option.splits)
    ultimately show ?thesis using l' l1(4) by auto
  next
    case False
    from Cons.IH [OF Cons.prems(1), of "Suc i" 0] Cons.prems obtain l' where
      l': "timeout_loop clock (Suc i) as 0 l = Some (0, l')" "fd_inv l'" "bitmap l' = bitmap l"
        "pkgs l' = (\<lambda>b. deref_if (b \<in> set as \<and> (\<forall>p. pkgs l b = Some p \<longrightarrow> expired t p)) (pkgs l b))"
      by auto
    have "timeout_loop clock i (a # as) ret l = Some (0, l')"
      using assms(1) p False l'(1) by (simp add: expired_def)
    moreover have "pkgs l' b = deref_if (b \<in> set (a # as) \<and> (\<forall>p. pkgs l b = Some p \<longrightarrow> expired t p)) (pkgs l b)" for b
      using l'(4) p False na by (cases "b = a") (auto simp: deref_if_def)
    ultimately show ?thesis using l' by auto
  qed
qed

lemma timeout_scan_spec:
  assumes "\<forall>i. GetTimestampUs False (clock i) = (0, Some t)" "fd_inv l" "lock_rc env = 0"
  shows "\<exists>l'. FdListDelTimeoutPkg env clock (Some l) = Some (0, Some l') \<and> fd_inv l' \<and>
    pkgs l' = (\<lambda>a. deref_if (\<forall>p. pkgs l a = Some p \<longrightarrow> expired t p) (pkgs l a))"
proof -
  note i = fd_invD [OF assms(2)]
  from timeout_loop_spec [OF assms(1,2) i(1), where i = 0 and ret = 0] i(2) obtain l' where
    l': "timeout_loop clock 0 (nodes l) 0 l = Some (0, l')" "fd_inv l'"
      "pkgs l' = (\<lambda>a. deref_if (a \<in> set (nodes l) \<and> (\<forall>p. pkgs l a = Some p \<longrightarrow> expired t p)) (pkgs l a))"
    by auto
  have "pkgs l a \<noteq> None \<Longrightarrow> a \<in> set (nodes l)" for a using i(2) by (auto simp: dom_def)
  then have "pkgs l' = (\<lambda>a. deref_if (\<forall>p. pkgs l a = Some p \<longrightarrow> expired t p) (pkgs l a))"
    using l'(3) by (auto simp: fun_eq_iff deref_if_def split: option.splits)
  with l' assms(3) show ?thesis by (simp add: FdListDelTimeoutPkg_def)
qed

lemma deref_all_spec:
  "fd_inv l \<Longrightarrow> distinct as \<Longrightarrow> set as \<subseteq> dom (pkgs l) \<Longrightarrow>
   \<exists>l'. deref_all as l = Some l' \<and> fd_inv l' \<and> bitmap l' = bitmap l \<and>
     pkgs l' = (\<lambda>a. deref_if (a \<in> set as) (pkgs l a))"
proof (induction as arbitrary: l)
  case Nil
  then show ?case by (auto simp: deref_if_def fun_eq_iff split: option.splits)
next
  case (Cons a as)
  then obtain p where p: "pkgs l a = Some p" by auto
  from DerefPkg_spec [OF Cons.prems(1) p] obtain l1 where
    l1: "DerefPkg (Some a) l = Some l1" "fd_inv l1" "pkgs l1 = (pkgs l)(a := after_deref p)"
      "bitmap l1 = bitmap l" by metis
  have na: "a \<notin> set as" using Cons.prems(2) by simp
  have "set as \<subseteq> dom (pkgs l1)" using Cons.prems(3) na l1(3) by (auto simp: dom_def)
  with Cons.IH [OF l1(2)] Cons.prems(2) obtain l' where
    l': "deref_all as l1 = Some l'" "fd_inv l'" "bitmap l' = bitmap l1"
      "pkgs l' = (\<lambda>a. deref_if (a \<in> set as) (pkgs l1 a))" by auto
  have "pkgs l' b = deref_if (b \<in> set (a # as)) (pkgs l b)" for b
    using l'(4) l1(3) p na by (cases "b = a") (auto simp: deref_if_def split: option.splits)
  with l' l1 show ?case by auto
qed


section \<open>Properties\<close>

text \<open>C24. Putting a package under a key that is already present is refused with \<^verbatim>\<open>-EBADF\<close> and changes
  nothing; otherwise the package is stored under its key with one reference, the list invariant is kept,
  and the next \<^verbatim>\<open>FdListGetPkg\<close> for the key returns exactly this package and takes a second
  reference.\<close>

theorem FdListPutPkg_then_Get:
  assumes "fd_inv l" "lock_rc env = 0" "malloc_ret env = Some a" "pkgs l a = None"
    and "GetTimestampUs False (gtod env) = (0, Some t)"
  shows "if \<exists>b q. pkgs l b = Some q \<and> pkg_key q = (f, idx)
    then FdListPutPkg env (Some l) f idx b len = Some (- EBADF_no, Some l)
    else \<exists>l' l''. FdListPutPkg env (Some l) f idx b len = Some (0, Some l') \<and> fd_inv l' \<and>
      pkgs l' = (pkgs l)(a \<mapsto> \<lparr>fd = f, teeIndex = idx, buff = b, buffLen = len, refCnt = 1, creatTimeUs = t\<rparr>) \<and>
      FdListGetPkg env (Some l') f idx False = Some (0, Some a, Some l'') \<and> pkg_cnt l'' a = Some 2"
proof (cases "\<exists>b q. pkgs l b = Some q \<and> pkg_key q = (f, idx)")
  case True
  with assms show ?thesis by (simp add: FdListPutPkg_def search_inv)
next
  case False
  let ?p = "\<lparr>fd = f, teeIndex = idx, buff = b, buffLen = len, refCnt = 1, creatTimeUs = t\<rparr>"
  let ?l = "l\<lparr>pkgs := (pkgs l)(a \<mapsto> ?p), nodes := nodes l @ [a]\<rparr>"
  have put: "FdListPutPkg env (Some l) f idx b len = Some (0, Some ?l)"
    using False assms by (simp add: FdListPutPkg_def search_inv FdListCreatPkg_def)
  have inv: "fd_inv ?l"
    by (rule fd_inv_insert) (use False assms in \<open>auto simp: pkg_key_def\<close>)
  have found: "FdListSearchPkg (pkgs ?l) (nodes ?l) f idx = Some (Some a)"
    using search_found [OF inv, of a ?p] by simp
  have "FdListGetPkg env (Some ?l) f idx False =
      Some (0, Some a, Some (?l\<lparr>pkgs := (pkgs ?l)(a \<mapsto> ?p\<lparr>refCnt := 2\<rparr>)\<rparr>))"
    using assms(2) found by (simp add: FdListGetPkg_def RefPkg_def)
  with False put inv show ?thesis by (auto simp: pkg_cnt_def)
qed

definition ex_gtod :: gettimeofday_res where
  "ex_gtod = \<lparr>gt_rc = 0, gt_errno = 0, gt_sec = 30, gt_usec = 5\<rparr>"

definition ex_env :: fd_env where
  "ex_env = \<lparr>lock_rc = 0, err_no = 0, malloc_ret = Some 100, gtod = ex_gtod\<rparr>"

definition ex_list :: FdList where
  "ex_list = \<lparr>bitmap = Some (replicate 128 0), byteMax = 128, nodes = [7],
     pkgs = [7 \<mapsto> \<lparr>fd = 3, teeIndex = 9, buff = Some 50, buffLen = 16, refCnt = 2, creatTimeUs = 0\<rparr>],
     freed_buffs = []\<rparr>"

lemma ex_list_inv: "fd_inv ex_list"
  by (auto simp: ex_list_def fd_inv_def split: if_splits)

lemma ex_clock: "GetTimestampUs False ex_gtod = (0, Some 30000005)"
  by (simp add: GetTimestampUs_def ex_gtod_def)

lemma FdListPutPkg_then_Get_witness:
  "FdListPutPkg ex_env (Some ex_list) 3 9 None 0 = Some (- EBADF_no, Some ex_list)"
proof -
  have "lock_rc ex_env = 0" "malloc_ret ex_env = Some 100" "pkgs ex_list 100 = None"
    "GetTimestampUs False (gtod ex_env) = (0, Some 30000005)"
    by (simp_all add: ex_env_def ex_list_def ex_clock)
  note * = FdListPutPkg_then_Get [OF ex_list_inv this, of 3 9 None 0]
  have "\<exists>b q. pkgs ex_list b = Some q \<and> pkg_key q = (3, 9)"
    by (auto simp: ex_list_def pkg_key_def)
  with * show ?thesis by simp
qed

text \<open>C8. A package stays allocated exactly as long as somebody holds a reference to it: a run of
  \<^verbatim>\<open>FdListGetPkg\<close> and \<^verbatim>\<open>FdListReleasePkg\<close> calls in which only references that are out are used never
  touches freed memory, keeps the list invariant, and at its end the counter of every package is the
  number of references that are out, the packages without one being freed.\<close>

theorem package_lifetime:
  assumes "fd_inv l" "lock_rc env = 0"
    and "\<forall>a. pkg_cnt l a = (if refs a = 0 then None else Some (refs a))"
    and "ledger_ok refs ops" "\<forall>a. refs a + length ops < 2 ^ 64"
  shows "\<exists>l'. ref_run (pkg_get env) (pkg_put env) l ops = Some l' \<and> fd_inv l' \<and>
    (\<forall>a. pkg_cnt l' a = (if ledger refs ops a = 0 then None else Some (ledger refs ops a)))"
proof -
  have "pkg_refs.counts env l refs"
    using assms(1-3) by (intro pkg_refs.counts_def [THEN iffD2]) blast
  from pkg_refs.ref_run_counts [OF this assms(4,5)] obtain l' where
    l': "ref_run (pkg_get env) (pkg_put env) l ops = Some l'" "pkg_refs.counts env l' (ledger refs ops)"
    by blast
  from l'(1) pkg_refs.counts_def [THEN iffD1, OF l'(2)] show ?thesis by blast
qed

lemma package_lifetime_witness:
  "\<exists>l'. ref_run (pkg_get ex_env) (pkg_put ex_env) ex_list [Get 7, Put 7, Put 7, Put 7] = Some l' \<and>
    pkg_cnt l' 7 = None"
proof -
  have a: "lock_rc ex_env = 0" by (simp add: ex_env_def)
  have b: "\<forall>a. pkg_cnt ex_list a = (if ((\<lambda>_. 0)(7 := 2 :: nat)) a = 0 then None else Some (((\<lambda>_. 0)(7 := 2)) a))"
    by (simp add: pkg_cnt_def ex_list_def)
  have c: "ledger_ok ((\<lambda>_. 0)(7 := 2)) [Get 7, Put 7, Put 7, Put 7]" by simp
  have d: "\<forall>a. ((\<lambda>_. 0)(7 := 2)) a + length [Get 7, Put 7, Put 7, Put 7] < 2 ^ 64" by simp
  from package_lifetime [OF ex_list_inv a b c d] show ?thesis by auto
qed

text \<open>C32. The timeout scan drops a reference of every expired package each time it runs, whoever holds the
  others: two scans free a package that a thread has obtained with \<^verbatim>\<open>FdListGetPkg\<close> and not yet released,
  and that thread's \<^verbatim>\<open>FdListReleasePkg\<close> then touches freed memory.\<close>

theorem timeout_scan_frees_held_package:
  assumes "fd_inv l" "lock_rc env = 0" "\<forall>i. GetTimestampUs False (clock i) = (0, Some t)"
    and "pkgs l a = Some p" "refCnt p = 2" "expired t p"
  shows "\<exists>l1 l2. FdListDelTimeoutPkg env clock (Some l) = Some (0, Some l1) \<and>
    FdListDelTimeoutPkg env clock (Some l1) = Some (0, Some l2) \<and>
    pkg_cnt l1 a = Some 1 \<and> pkgs l2 a = None \<and> FdListReleasePkg env (Some l2) (Some a) = None"
proof -
  from timeout_scan_spec [OF assms(3,1,2)] obtain l1 where
    l1: "FdListDelTimeoutPkg env clock (Some l) = Some (0, Some l1)" "fd_inv l1"
      "pkgs l1 = (\<lambda>a. deref_if (\<forall>p. pkgs l a = Some p \<longrightarrow> expired t p) (pkgs l a))" by auto
  with assms have p1: "pkgs l1 a = Some (p\<lparr>refCnt := 1\<rparr>)"
    by (simp add: deref_if_def after_deref_def)
  have e1: "expired t (p\<lparr>refCnt := 1\<rparr>)" using assms(6) by (simp add: expired_def)
  from timeout_scan_spec [OF assms(3) l1(2) assms(2)] obtain l2 where
    l2: "FdListDelTimeoutPkg env clock (Some l1) = Some (0, Some l2)"
      "pkgs l2 = (\<lambda>a. deref_if (\<forall>p. pkgs l1 a = Some p \<longrightarrow> expired t p) (pkgs l1 a))" by auto
  with p1 e1 have "pkgs l2 a = None" by (simp add: deref_if_def after_deref_def)
  moreover have "FdListReleasePkg env (Some l2) (Some a) = None"
    using calculation assms(2) by (simp add: FdListReleasePkg_def DerefPkg_def)
  ultimately show ?thesis using l1(1) l2(1) p1 by (auto simp: pkg_cnt_def)
qed

lemma timeout_scan_frees_held_package_witness:
  "\<exists>l1 l2. FdListDelTimeoutPkg ex_env (\<lambda>_. ex_gtod) (Some ex_list) = Some (0, Some l1) \<and>
    FdListDelTimeoutPkg ex_env (\<lambda>_. ex_gtod) (Some l1) = Some (0, Some l2) \<and>
    FdListReleasePkg ex_env (Some l2) (Some 7) = None"
proof -
  obtain p where p: "pkgs ex_list 7 = Some p" "refCnt p = 2" "expired 30000005 p"
    by (auto simp: ex_list_def expired_def GetPkgTimeOutByLen_def)
  have a: "lock_rc ex_env = 0" by (simp add: ex_env_def)
  have b: "\<forall>i. GetTimestampUs False ((\<lambda>_ :: nat. ex_gtod) i) = (0, Some 30000005)"
    by (simp add: ex_clock)
  from timeout_scan_frees_held_package [OF ex_list_inv a b p] show ?thesis by blast
qed

text \<open>C25. Destroying the list succeeds and drops the list's own reference of every package: what is
  still allocated afterwards are exactly the packages that somebody else holds, with one reference
  less.\<close>

theorem FdListDestroy_releases_own_reference:
  assumes "fd_inv l" "bitmap l \<noteq> None" "lock_rc env = 0"
  shows "FdListDestroy env 0 0 (Some l) = Some (0, None, \<lambda>a. Option.bind (pkgs l a) after_deref)"
proof -
  note i = fd_invD [OF assms(1)]
  from deref_all_spec [OF assms(1) i(1)] i(2) obtain l' where
    l': "deref_all (nodes l) l = Some l'" "bitmap l' = bitmap l"
      "pkgs l' = (\<lambda>a. deref_if (a \<in> set (nodes l)) (pkgs l a))" by auto
  have "pkgs l a \<noteq> None \<Longrightarrow> a \<in> set (nodes l)" for a using i(2) by (auto simp: dom_def)
  then have "pkgs l' = (\<lambda>a. Option.bind (pkgs l a) after_deref)"
    using l'(3) by (auto simp: fun_eq_iff deref_if_def split: option.splits)
  with l' assms show ?thesis
    by (simp add: FdListDestroy_def FdListFreePkgList_def FdListFreeBitmap_def)
qed

lemma FdListDestroy_releases_own_reference_witness:
  "FdListDestroy ex_env 0 0 (Some ex_list) = Some (0, None, \<lambda>a. Option.bind (pkgs ex_list a) after_deref)"
  by (rule FdListDestroy_releases_own_reference [OF ex_list_inv])
     (simp_all add: ex_list_def ex_env_def)

text \<open>C40. The descriptor bitmap records exactly the descriptors below 1024: on a list whose bitmap has
  the initial size, \<^verbatim>\<open>FdListPutFD\<close> reports success for every descriptor, but \<^verbatim>\<open>FdListCheckFD\<close> finds it
  afterwards only if it is below 1024, while all other descriptors are answered as before.\<close>

theorem FdListPutFD_records_below_1024:
  assumes "bitmap l = Some bm" "bm_ok 128 bm" "byteMax l = 128" "lock_rc env = 0"
  shows "\<exists>l'. FdListPutFD env (Some l) f = (0, Some l') \<and>
    (\<forall>g. FdListCheckFD env (Some l') g False =
      (0, Some (if g = f then unat f < 1024 else CheckBit g 128 (Some bm))))"
proof -
  obtain bm' where b: "SetBit f 128 (Some bm) = Some bm'" "bm_ok 128 bm'"
    "bm_bits bm' = (if unat f < 8 * length bm then insert (unat f) (bm_bits bm) else bm_bits bm)"
    by (rule SetBit_bits [OF assms(2), of f])
  have len: "length bm = 128" using assms(2) by (simp add: bm_ok_def)
  have "CheckBit g 128 (Some bm') = (if g = f then unat f < 1024 else CheckBit g 128 (Some bm))" for g
    using b(3) len bm_bits_bound [of "unat f" bm]
    by (auto simp: CheckBit_iff [OF b(2)] CheckBit_iff [OF assms(2)] word_unat_eq_iff)
  with b(1) assms show ?thesis
    by (simp add: FdListPutFD_def FdListCheckFD_def)
qed

lemma FdListPutFD_records_below_1024_witness:
  "\<exists>l'. FdListPutFD ex_env (Some ex_list) 5 = (0, Some l') \<and>
    FdListCheckFD ex_env (Some l') 5 False = (0, Some True)"
proof -
  have "bitmap ex_list = Some (replicate 128 0)" "bm_ok 128 (replicate 128 0)"
    "byteMax ex_list = 128" "lock_rc ex_env = 0"
    by (simp_all add: ex_list_def ex_env_def bm_ok_def)
  from FdListPutFD_records_below_1024 [OF this, of 5] show ?thesis by auto
qed

end
