(* ===== verification/Bytes.thy ===== *)
theory Bytes
  imports Prelude
begin

text \<open>
  Little-endian byte layouts shared by the marshalling code, the operation encoder and the loader of
  trusted applications: words as byte lists and back, reads and writes at an offset of a buffer, and the
  lemmas that let one write be read back after another.
\<close>

section \<open>Bytes\<close>

fun le_word :: "u8 list \<Rightarrow> 'a::len word" where
  "le_word [] = 0"
| "le_word (b # bs) = ucast b OR push_bit 8 (le_word bs)"

definition le_bytes :: "nat \<Rightarrow> 'a::len word \<Rightarrow> u8 list" where
  "le_bytes n w = map (\<lambda>i. ucast (drop_bit (8 * i) w)) [0..<n]"

definition u64_at :: "u8 list \<Rightarrow> nat \<Rightarrow> u64" where
  "u64_at buf off = le_word (take 8 (drop off buf))"

definition u32_at :: "u8 list \<Rightarrow> nat \<Rightarrow> u32" where
  "u32_at buf off = le_word (take 4 (drop off buf))"

definition put_bytes :: "nat \<Rightarrow> u8 list \<Rightarrow> u8 list \<Rightarrow> u8 list" where
  "put_bytes off bs buf = take off buf @ bs @ drop (off + length bs) buf"

section \<open>Byte lemmas\<close>

lemma le_bytes_length [simp]: "length (le_bytes n w) = n"
  by (simp add: le_bytes_def)

lemma bit_le_word:
  "bit (le_word bs :: 'a::len word) i \<longleftrightarrow>
     i < LENGTH('a) \<and> i div 8 < length bs \<and> bit (bs ! (i div 8)) (i mod 8)"
proof (induction bs arbitrary: i)
  case (Cons b bs)
  show ?case
  proof (cases "i < 8")
    case True
    then show ?thesis by (auto simp: bit_simps)
  next
    case False
    then have div: "i div 8 = Suc ((i - 8) div 8)" and md: "i mod 8 = (i - 8) mod 8"
      by (simp_all add: le_div_geq le_mod_geq)
    have "\<not> bit b i" using False by (auto dest: bit_imp_le_length)
    moreover have "i < LENGTH('a) \<Longrightarrow> i - 8 < LENGTH('a)" by simp
    ultimately show ?thesis using False Cons.IH [of "i - 8"]
      by (auto simp: bit_simps div md)
  qed
qed simp

lemma le_word_le_bytes:
  assumes "LENGTH('a::len) \<le> 8 * n"
  shows "le_word (le_bytes n (w :: 'a word)) = w"
proof (rule bit_word_eqI)
  fix i assume i: "i < LENGTH('a)"
  then have "i div 8 < n" using assms by linarith
  moreover have "8 * (i div 8) + i mod 8 = i" by simp
  ultimately show "bit (le_word (le_bytes n w) :: 'a word) i \<longleftrightarrow> bit w i"
    using i by (simp add: bit_le_word le_bytes_def bit_simps)
qed

lemma put_bytes_length [simp]:
  "off + length bs \<le> length buf \<Longrightarrow> length (put_bytes off bs buf) = length buf"
  by (simp add: put_bytes_def)

lemma put_bytes_below [simp]:
  "m \<le> off \<Longrightarrow> off \<le> length buf \<Longrightarrow> take m (put_bytes off bs buf) = take m buf"
  by (simp add: put_bytes_def min_def)

lemma put_bytes_read:
  "off + length bs \<le> length buf \<Longrightarrow> take (length bs) (drop off (put_bytes off bs buf)) = bs"
  by (simp add: put_bytes_def)

lemma put_bytes_upto:
  "off + length bs \<le> length buf \<Longrightarrow> take (off + length bs) (put_bytes off bs buf) = take off buf @ bs"
  by (simp add: put_bytes_def)

lemma take_drop_agree:
  assumes "take m xs = take m ys" "off + n \<le> m"
  shows "take n (drop off xs) = take n (drop off ys)"
proof -
  have "take n (drop off zs) = take n (drop off (take m zs))" for zs :: "'a list"
    using assms(2) by (simp add: drop_take min_def)
  then show ?thesis using assms(1) by metis
qed

lemma u64_at_agree:
  "take m xs = take m ys \<Longrightarrow> off + 8 \<le> m \<Longrightarrow> u64_at xs off = u64_at ys off"
  unfolding u64_at_def by (drule (1) take_drop_agree) (simp only:)

lemma u32_at_agree:
  "take m xs = take m ys \<Longrightarrow> off + 4 \<le> m \<Longrightarrow> u32_at xs off = u32_at ys off"
  unfolding u32_at_def by (drule (1) take_drop_agree) (simp only:)

lemma u64_at_put:
  assumes "off + 8 \<le> length buf"
  shows "u64_at (put_bytes off (le_bytes 8 w) buf) off = w"
proof -
  have "take 8 (drop off (put_bytes off (le_bytes 8 w) buf)) = le_bytes 8 w"
    using put_bytes_read [of off "le_bytes 8 w" buf] assms by (simp only: le_bytes_length)
  moreover have "le_word (le_bytes 8 w) = w"
    by (rule le_word_le_bytes) simp
  ultimately show ?thesis unfolding u64_at_def by (simp only:)
qed

lemma u32_at_put:
  assumes "off + 4 \<le> length buf"
  shows "u32_at (put_bytes off (le_bytes 4 w) buf) off = w"
proof -
  have "take 4 (drop off (put_bytes off (le_bytes 4 w) buf)) = le_bytes 4 w"
    using put_bytes_read [of off "le_bytes 4 w" buf] assms by (simp only: le_bytes_length)
  moreover have "le_word (le_bytes 4 w) = w"
    by (rule le_word_le_bytes) simp
  ultimately show ?thesis unfolding u32_at_def by (simp only:)
qed

end
