(* ===== verification/Serialize.thy ===== *)
theory Serialize
  imports Bytes
begin

text \<open>
  The argument marshalling of the posix proxy,
  \<^verbatim>\<open>src/tee_teleport/posix_proxy/src/serialize.c\<close> and \<^verbatim>\<open>serialize.h\<close>: \<^verbatim>\<open>CalculateBuffSize\<close>,
  \<^verbatim>\<open>Serialize\<close> and \<^verbatim>\<open>DeSerialize\<close> with their helpers.

  A buffer is a list of bytes, in the little-endian layout of the targets: a 4-byte argument count, then
  for each argument a 16-byte header (an \<^verbatim>\<open>IntegerStorage_t\<close> or \<^verbatim>\<open>PointStorage_t\<close>) and, for a
  pointer, its bytes. The variadic arguments are a list. \<^verbatim>\<open>memcpy_s\<close> comes from libboundscheck and is a
  parameter: it is given the destination region, the source and the count, and returns its result code
  and the new contents of the region; \<open>memcpy_s_ok\<close> states its documented behaviour.
\<close>

section \<open>Argument descriptors\<close>

text \<open>
  What the caller passes: \<open>{INTEGERTYPE, value}\<close>, \<open>{POINTTYPE, address, size}\<close> or an unknown type; and
  for the reverse direction, the references to fill, which may be null.
\<close>

datatype ser_arg = SInt u64 | SPtr "u8 list option" u64 | SUnknown

datatype deser_arg = DInt bool | DPtr bool | DUnknown

text \<open>What \<^verbatim>\<open>DeSerialize\<close> stores: an integer, or a pointer into the buffer (\<^const>\<open>None\<close> for null).\<close>

datatype deser_res = RInt u64 | RPtr "nat option"

definition INTEGERTYPE :: u64 where "INTEGERTYPE = 17"
definition POINTTYPE :: u64 where "POINTTYPE = 18"

type_synonym memcpy_s_fun = "u8 list \<Rightarrow> u8 list \<Rightarrow> nat \<Rightarrow> int \<times> u8 list"

text \<open>
  Documented behaviour of \<^verbatim>\<open>memcpy_s\<close>: it never writes outside the destination; it copies and returns
  0 when the count fits in the destination, which must not be larger than \<^verbatim>\<open>SECUREC_MEM_MAX_LEN\<close>; it
  fails when the count is larger than the destination.
\<close>

definition memcpy_s_ok :: "memcpy_s_fun \<Rightarrow> bool" where
  "memcpy_s_ok mc \<longleftrightarrow>
     (\<forall>dest src n. length (snd (mc dest src n)) = length dest) \<and>
     (\<forall>dest src n. n \<le> length dest \<longrightarrow> n \<le> length src \<longrightarrow> 0 < length dest \<longrightarrow> length dest < 2 ^ 31 \<longrightarrow>
        mc dest src n = (0, take n src @ drop n dest)) \<and>
     (\<forall>dest src n. fst (mc dest src n) = 0 \<longrightarrow> 0 < n \<longrightarrow> n \<le> length src \<longrightarrow>
        n \<le> length dest \<and> snd (mc dest src n) = take n src @ drop n dest)"

section \<open>Size of the buffer\<close>

definition OverflowCheck :: "u32 \<Rightarrow> u32 \<Rightarrow> bool" where
  "OverflowCheck a b \<longleftrightarrow> a > 0xFFFFFFFF - b"

fun calc_loop :: "ser_arg list \<Rightarrow> u32 \<Rightarrow> int \<times> u32" where
  "calc_loop [] buffSize = (0, buffSize)"
| "calc_loop (SInt v # args) buffSize =
     (if OverflowCheck buffSize 16 then (- EINVAL_no, buffSize) else calc_loop args (buffSize + 16))"
| "calc_loop (SPtr p argBuffSize # args) buffSize =
     (if OverflowCheck 16 (ucast argBuffSize) \<or> OverflowCheck buffSize (ucast (16 + argBuffSize))
      then (- EINVAL_no, buffSize)
      else calc_loop args (ucast (ucast buffSize + (16 + argBuffSize))))"
| "calc_loop (SUnknown # args) buffSize = (- EINVAL_no, buffSize)"

definition CalculateBuffSize :: "ser_arg list \<Rightarrow> int \<times> u64" where
  "CalculateBuffSize args = map_prod id ucast (calc_loop args (0 + 4))"

section \<open>Serialization\<close>

definition SerializeParamValidCheck :: "u8 list option \<Rightarrow> u32 \<Rightarrow> int" where
  "SerializeParamValidCheck buff buffSize =
     (if buff = None \<or> buffSize < 4 then - EINVAL_no else 0)"

definition SerializeInterBuffValidCheck :: "u32 \<Rightarrow> u32 \<Rightarrow> int" where
  "SerializeInterBuffValidCheck buffTotal offset =
     (if buffTotal < offset \<or> buffTotal - offset < 16 then - ENOMEM_no else 0)"

definition SerializePointBuffValidCheck :: "u32 \<Rightarrow> u32 \<Rightarrow> int" where
  "SerializePointBuffValidCheck buffTotal offset =
     (if buffTotal < offset \<or> buffTotal - offset < 16 then - ENOMEM_no else 0)"

definition InterTypeSerialize :: "u8 list \<Rightarrow> u32 \<Rightarrow> u32 \<Rightarrow> u64 \<Rightarrow> int \<times> u8 list" where
  "InterTypeSerialize buf bufSize off v =
     (if SerializeInterBuffValidCheck bufSize off \<noteq> 0 then (- ENOMEM_no, buf)
      else (0, put_bytes (unat off + 8) (le_bytes 8 v) (put_bytes (unat off) (le_bytes 8 INTEGERTYPE) buf)))"

definition PointTypeSerialize ::
  "memcpy_s_fun \<Rightarrow> u8 list \<Rightarrow> u32 \<Rightarrow> u32 \<Rightarrow> u8 list option \<Rightarrow> u64 \<Rightarrow> int \<times> u8 list" where
  "PointTypeSerialize mc buf bufSize off src n =
     (if SerializePointBuffValidCheck bufSize off \<noteq> 0 then (- ENOMEM_no, buf)
      else
        let buf1 = put_bytes (unat off) (le_bytes 8 POINTTYPE) buf;
            at = unat off + 16;
            destMax = unat bufSize - unat off - 16;
            (rc, region) = (if n \<noteq> 0
                            then mc (take destMax (drop at buf1)) (case src of Some s \<Rightarrow> s | None \<Rightarrow> []) (unat n)
                            else (0, take destMax (drop at buf1)));
            buf2 = put_bytes at region buf1
        in if rc \<noteq> 0 then (- ENOMEM_no, buf2)
           else (0, put_bytes (unat off + 8) (le_bytes 8 n) buf2))"

fun ser_loop :: "memcpy_s_fun \<Rightarrow> ser_arg list \<Rightarrow> u8 list \<Rightarrow> u32 \<Rightarrow> u32 \<Rightarrow> int \<times> u8 list" where
  "ser_loop mc [] buf bufSize off = (0, buf)"
| "ser_loop mc (SInt v # args) buf bufSize off =
     (case InterTypeSerialize buf bufSize off v of
        (ret, buf') \<Rightarrow> if ret \<noteq> 0 then (ret, buf') else ser_loop mc args buf' bufSize (off + 16))"
| "ser_loop mc (SPtr src n # args) buf bufSize off =
     (if n \<noteq> 0 \<and> src = None then (- EINVAL_no, buf)
      else case PointTypeSerialize mc buf bufSize off src n of
        (ret, buf') \<Rightarrow> if ret \<noteq> 0 then (ret, buf')
                       else ser_loop mc args buf' bufSize (ucast (ucast off + (16 + n))))"
| "ser_loop mc (SUnknown # args) buf bufSize off = (- EINVAL_no, buf)"

definition Serialize :: "memcpy_s_fun \<Rightarrow> ser_arg list \<Rightarrow> u8 list option \<Rightarrow> u32 \<Rightarrow> int \<times> u8 list option" where
  "Serialize mc args destBuff destBuffSize =
     (if SerializeParamValidCheck destBuff destBuffSize \<noteq> 0 then (- EINVAL_no, destBuff)
      else case destBuff of
        None \<Rightarrow> (- EINVAL_no, None)
      | Some buf \<Rightarrow>
          map_prod id Some
            (ser_loop mc args (put_bytes 0 (le_bytes 4 (of_nat (length args) :: u32)) buf) destBuffSize 4))"

section \<open>Deserialization\<close>

definition DeSerializeParamValidCheck :: "u32 \<Rightarrow> u8 list option \<Rightarrow> u32 \<Rightarrow> int" where
  "DeSerializeParamValidCheck argCount buff buffSize =
     (case buff of
        None \<Rightarrow> - EINVAL_no
      | Some buf \<Rightarrow>
          if buffSize < 4 then - EINVAL_no
          else if u32_at buf 0 \<noteq> argCount then - EINVAL_no
          else 0)"

text \<open>The stored type is cast to the 32-bit enumeration before it is compared.\<close>

definition ParamTypeCheck :: "u32 \<Rightarrow> u32 \<Rightarrow> int" where
  "ParamTypeCheck src dest = (if src \<noteq> dest then - EINVAL_no else 0)"

definition InterTypeDeserialize :: "u8 list \<Rightarrow> u32 \<Rightarrow> u32 \<Rightarrow> int \<times> u64 option" where
  "InterTypeDeserialize buf bufSize off =
     (if SerializeInterBuffValidCheck bufSize off \<noteq> 0 then (- ENOMEM_no, None)
      else if ParamTypeCheck (ucast (u64_at buf (unat off))) (ucast INTEGERTYPE) \<noteq> 0 then (- EINVAL_no, None)
      else (0, Some (u64_at buf (unat off + 8))))"

definition PointTypeDeserialize :: "u8 list \<Rightarrow> u32 \<Rightarrow> u32 \<Rightarrow> int \<times> (nat option \<times> u64) option" where
  "PointTypeDeserialize buf bufSize off =
     (if SerializePointBuffValidCheck bufSize off \<noteq> 0 then (- ENOMEM_no, None)
      else if ParamTypeCheck (ucast (u64_at buf (unat off))) (ucast POINTTYPE) \<noteq> 0 then (- EINVAL_no, None)
      else
        let psize = u64_at buf (unat off + 8) in
        if ucast bufSize < ucast off + 16 + psize then (- ENOMEM_no, None)
        else (0, Some (if psize \<noteq> 0 then Some (unat off + 16) else None, psize)))"

fun deser_loop :: "deser_arg list \<Rightarrow> u8 list \<Rightarrow> u32 \<Rightarrow> u32 \<Rightarrow> int \<times> deser_res list" where
  "deser_loop [] buf bufSize off = (0, [])"
| "deser_loop (DInt null # args) buf bufSize off =
     (if null then (- EINVAL_no, [])
      else case InterTypeDeserialize buf bufSize off of
        (ret, Some v) \<Rightarrow> map_prod id ((#) (RInt v)) (deser_loop args buf bufSize (off + 16))
      | (ret, None) \<Rightarrow> (ret, []))"
| "deser_loop (DPtr null # args) buf bufSize off =
     (if null then (- EINVAL_no, [])
      else case PointTypeDeserialize buf bufSize off of
        (ret, Some (p, n)) \<Rightarrow>
          map_prod id ((#) (RPtr p)) (deser_loop args buf bufSize (ucast (ucast off + (16 + n))))
      | (ret, None) \<Rightarrow> (ret, []))"
| "deser_loop (DUnknown # args) buf bufSize off = (- EINVAL_no, [])"

definition DeSerialize :: "deser_arg list \<Rightarrow> u8 list option \<Rightarrow> u32 \<Rightarrow> int \<times> deser_res list" where
  "DeSerialize args srcBuff srcBuffSize =
     (if DeSerializeParamValidCheck (of_nat (length args)) srcBuff srcBuffSize \<noteq> 0 then (- EINVAL_no, [])
      else case srcBuff of
        None \<Rightarrow> (- EINVAL_no, [])
      | Some buf \<Rightarrow> deser_loop args buf srcBuffSize 4)"

section \<open>The two directions agree\<close>

text \<open>
  What a well-formed argument is, the reference that reads it back, and what must then be found: the same
  integer, or a pointer to the same bytes (null for an empty one).
\<close>

fun arg_ok :: "ser_arg \<Rightarrow> bool" where
  "arg_ok (SInt v) = True"
| "arg_ok (SPtr src n) = (case src of None \<Rightarrow> True | Some s \<Rightarrow> length s = unat n)"
| "arg_ok SUnknown = False"

fun reader_of :: "ser_arg \<Rightarrow> deser_arg" where
  "reader_of (SInt v) = DInt False"
| "reader_of (SPtr src n) = DPtr False"
| "reader_of SUnknown = DUnknown"

fun reads_back :: "u8 list \<Rightarrow> ser_arg \<Rightarrow> deser_res \<Rightarrow> bool" where
  "reads_back buf (SInt v) (RInt w) = (v = w)"
| "reads_back buf (SPtr src n) (RPtr p) =
     (case p of None \<Rightarrow> n = 0
              | Some off \<Rightarrow> n \<noteq> 0 \<and> src = Some (take (unat n) (drop off buf)))"
| "reads_back buf a r = False"



text \<open>One argument written: where the buffer changes, and what can be read there.\<close>

lemma room_16:
  assumes "\<not> (sz < (off :: u32) \<or> sz - off < 16)"
  shows "unat off + 16 \<le> unat sz"
proof -
  have "off \<le> sz" "16 \<le> sz - off" using assms by (simp_all add: not_less)
  then have "unat off \<le> unat sz" "16 \<le> unat (sz - off)" "unat (sz - off) = unat sz - unat off"
    by (simp_all add: word_le_nat_alt unat_sub)
  then show ?thesis by linarith
qed

lemma room_16_conv:
  assumes "unat (off :: u32) + 16 \<le> unat sz"
  shows "\<not> (sz < off \<or> sz - off < 16)"
proof -
  have "off \<le> sz" using assms by (simp add: word_le_nat_alt)
  moreover from this have "unat (sz - off) = unat sz - unat off" by (rule unat_sub)
  ultimately show ?thesis using assms by (simp add: not_less word_le_nat_alt)
qed

lemma off_add_16:
  assumes "unat (off :: u32) + 16 \<le> unat (sz :: u32)"
  shows "unat (off + 16) = unat off + 16"
proof -
  have "unat off + 16 < 4294967296" using assms unat_u32_less [of sz] by linarith
  then show ?thesis by (simp add: unat_word_ariths)
qed

lemma unat_u32_u64 [simp]: "unat (ucast (off :: u32) :: u64) = unat off"
  using unat_u32_less [of off] by (simp add: unsigned_ucast_eq take_bit_nat_eq_self_iff)

lemma off_add_ptr:
  assumes "unat (off :: u32) + 16 + unat (n :: u64) < 4294967296"
  shows "unat (ucast (ucast off + (16 + n)) :: u32) = unat off + 16 + unat n"
proof -
  have "unat (ucast off + (16 + n) :: u64) = (unat off + (16 + unat n)) mod 18446744073709551616"
    by (simp add: unat_word_ariths mod_simps)
  also have "\<dots> = unat off + 16 + unat n" using assms by simp
  finally have "unat (ucast off + (16 + n) :: u64) = unat off + 16 + unat n" .
  then show ?thesis
    using assms by (simp add: unsigned_ucast_eq take_bit_nat_eq_self_iff)
qed

lemma put_bytes_above:
  "off + length bs \<le> length buf \<Longrightarrow> off + length bs \<le> k \<Longrightarrow> drop k (put_bytes off bs buf) = drop k buf"
  by (simp add: put_bytes_def)

lemma put_bytes_same:
  "off + length bs = length buf \<Longrightarrow> drop off (put_bytes off bs buf) = bs"
  by (simp add: put_bytes_def)

lemma InterTypeSerialize_ok:
  assumes len: "length buf = unat sz" and room: "unat off + 16 \<le> unat sz"
  obtains buf' where "InterTypeSerialize buf sz off v = (0, buf')" "length buf' = length buf"
    "take (unat off) buf' = take (unat off) buf"
    "u64_at buf' (unat off) = INTEGERTYPE" "u64_at buf' (unat off + 8) = v"
proof -
  define buf1 where "buf1 = put_bytes (unat off) (le_bytes 8 INTEGERTYPE) buf"
  define buf' where "buf' = put_bytes (unat off + 8) (le_bytes 8 v) buf1"
  have l1: "length buf1 = length buf" using len room by (simp add: buf1_def)
  have l: "length buf' = length buf" using len room l1 by (simp add: buf'_def)
  have "InterTypeSerialize buf sz off v = (0, buf')"
    using room_16_conv [OF room]
    by (simp add: InterTypeSerialize_def SerializeInterBuffValidCheck_def buf1_def buf'_def)
  moreover have t8: "take (unat off + 8) buf' = take (unat off + 8) buf1"
    using len room l1 by (simp add: buf'_def)
  moreover have "take (unat off) buf' = take (unat off) buf"
    using len room l1 by (simp add: buf'_def buf1_def)
  moreover have "u64_at buf' (unat off) = INTEGERTYPE"
    using u64_at_agree [OF t8, of "unat off"] u64_at_put [of "unat off" buf INTEGERTYPE] len room
    by (simp add: buf1_def)
  moreover have "u64_at buf' (unat off + 8) = v"
    using u64_at_put [of "unat off + 8" buf1 v] len room l1 by (simp add: buf'_def)
  ultimately show thesis using that l by blast
qed

lemma PointTypeSerialize_ok:
  assumes mc: "memcpy_s_ok mc" and ok: "arg_ok (SPtr src n)" and src: "n \<noteq> 0 \<longrightarrow> src \<noteq> None"
    and len: "length buf = unat sz" and run: "PointTypeSerialize mc buf sz off src n = (0, buf')"
  shows "unat off + 16 + unat n \<le> unat sz \<and> length buf' = length buf \<and>
     take (unat off) buf' = take (unat off) buf \<and>
     u64_at buf' (unat off) = POINTTYPE \<and> u64_at buf' (unat off + 8) = n \<and>
     (n \<noteq> 0 \<longrightarrow> src = Some (take (unat n) (drop (unat off + 16) buf')))"
proof -
  define buf1 where "buf1 = put_bytes (unat off) (le_bytes 8 POINTTYPE) buf"
  define pos where "pos = unat off + 16"
  define dest where "dest = take (unat sz - unat off - 16) (drop pos buf1)"
  define bytes where "bytes = (case src of Some s \<Rightarrow> s | None \<Rightarrow> [])"
  define res where "res = (if n \<noteq> 0 then mc dest bytes (unat n) else (0, dest))"
  have chk: "SerializePointBuffValidCheck sz off = 0"
    using run by (auto simp: PointTypeSerialize_def split: if_splits)
  then have room: "pos \<le> unat sz"
    using room_16 [of sz off]
    by (auto simp: SerializePointBuffValidCheck_def pos_def split: if_splits)
  have l1: "length buf1 = length buf" using len room by (simp add: buf1_def pos_def)
  have ld: "length dest = unat sz - pos" using len l1 room by (simp add: dest_def pos_def)
  have lr: "length (snd res) = length dest"
    using mc by (simp add: res_def memcpy_s_ok_def)
  obtain rc region where res: "res = (rc, region)" by (cases res)
  have body: "PointTypeSerialize mc buf sz off src n =
      (let buf2 = put_bytes pos region buf1 in
        if rc \<noteq> 0 then (- ENOMEM_no, buf2) else (0, put_bytes (unat off + 8) (le_bytes 8 n) buf2))"
    using chk res
    by (simp add: PointTypeSerialize_def Let_def buf1_def pos_def dest_def bytes_def res_def
        split del: if_split cong: if_cong)
  then have rc: "rc = 0" using run by (auto simp: Let_def split: if_splits)
  define buf2 where "buf2 = put_bytes pos region buf1"
  have buf': "buf' = put_bytes (unat off + 8) (le_bytes 8 n) buf2"
    using run body rc by (simp add: Let_def buf2_def)
  have lreg: "pos + length region = length buf1" using lr res ld room len l1 by simp
  have l2: "length buf2 = length buf" using lreg l1 by (simp add: buf2_def)
  have l': "length buf' = length buf" using l2 len room by (simp add: buf' pos_def)
  have copied: "n \<noteq> 0 \<longrightarrow> unat n \<le> length dest \<and> region = bytes @ drop (unat n) dest"
  proof
    assume n: "n \<noteq> 0"
    then have lb: "length bytes = unat n" using src ok by (auto simp: bytes_def)
    have "fst (mc dest bytes (unat n)) = 0" "snd (mc dest bytes (unat n)) = region"
      using n res rc by (simp_all add: res_def)
    then show "unat n \<le> length dest \<and> region = bytes @ drop (unat n) dest"
      using mc n lb unfolding memcpy_s_ok_def by (metis order_refl take_all unat_gt_0)
  qed
  then have fit: "unat off + 16 + unat n \<le> unat sz"
    using ld room by (cases "n = 0") (auto simp: pos_def)
  have t16: "take pos buf2 = take pos buf1"
    using lreg by (simp add: buf2_def)
  have t8: "take (unat off + 8) buf' = take (unat off + 8) buf2"
    using room len l2 by (simp add: buf' pos_def)
  have tag: "u64_at buf' (unat off) = POINTTYPE"
  proof -
    have "u64_at buf' (unat off) = u64_at buf2 (unat off)" using u64_at_agree [OF t8] by simp
    also have "\<dots> = u64_at buf1 (unat off)" using u64_at_agree [OF t16] by (simp add: pos_def)
    also have "\<dots> = POINTTYPE" using u64_at_put [of "unat off" buf] len room
      by (simp add: buf1_def pos_def)
    finally show ?thesis .
  qed
  have sz: "u64_at buf' (unat off + 8) = n"
    using u64_at_put [of "unat off + 8" buf2 n] l2 len room by (simp add: buf' pos_def)
  have low: "take (unat off) buf' = take (unat off) buf"
  proof -
    have "take (unat off) buf' = take (unat off) buf2" using room len l2 by (simp add: buf' pos_def)
    also have "\<dots> = take (unat off) buf1" using lreg by (simp add: buf2_def pos_def)
    also have "\<dots> = take (unat off) buf" using len room by (simp add: buf1_def pos_def)
    finally show ?thesis .
  qed
  have dat: "n \<noteq> 0 \<longrightarrow> src = Some (take (unat n) (drop pos buf'))"
  proof
    assume n: "n \<noteq> 0"
    have "drop pos buf' = drop pos buf2"
      using room len l2 put_bytes_above [of "unat off + 8" "le_bytes 8 n" buf2 pos]
      by (simp add: buf' pos_def)
    also have "\<dots> = region" using lreg by (simp add: buf2_def put_bytes_same)
    finally have "take (unat n) (drop pos buf') = take (unat n) region" by simp
    moreover obtain s where s: "src = Some s" "length s = unat n" using src ok n by (auto split: option.splits)
    ultimately show "src = Some (take (unat n) (drop pos buf'))" using copied n by (simp add: bytes_def)
  qed
  show ?thesis using fit l' low tag sz dat by (simp add: pos_def)
qed

text \<open>The reader of one argument succeeds where the writer left it.\<close>

lemma InterTypeDeserialize_ok:
  assumes "unat off + 16 \<le> unat sz" "u64_at buf (unat off) = INTEGERTYPE"
  shows "InterTypeDeserialize buf sz off = (0, Some (u64_at buf (unat off + 8)))"
  using assms room_16_conv [OF assms(1)]
  by (simp add: InterTypeDeserialize_def SerializeInterBuffValidCheck_def ParamTypeCheck_def)

lemma PointTypeDeserialize_ok:
  assumes fit: "unat off + 16 + unat n \<le> unat sz"
    and tag: "u64_at buf (unat off) = POINTTYPE" and psz: "u64_at buf (unat off + 8) = n"
  shows "PointTypeDeserialize buf sz off = (0, Some (if n \<noteq> 0 then Some (unat off + 16) else None, n))"
proof -
  have "unat (ucast off + 16 + n :: u64) = unat off + 16 + unat n"
  proof -
    have "unat off + 16 + unat n < 4294967296" using fit unat_u32_less [of sz] by linarith
    moreover have "unat (ucast off + 16 + n :: u64) = (unat off + 16 + unat n) mod 18446744073709551616"
      by (simp add: unat_word_ariths mod_simps)
    ultimately show ?thesis by simp
  qed
  then have "\<not> (ucast sz < (ucast off + 16 + n :: u64))"
    using fit by (simp add: word_less_nat_alt)
  then show ?thesis
    using assms room_16_conv [of off sz]
    by (simp add: PointTypeDeserialize_def SerializePointBuffValidCheck_def ParamTypeCheck_def Let_def)
qed

lemma reads_back_stable:
  assumes "reads_back buf (SPtr src n) (RPtr (Some p))" "take m buf' = take m buf" "p + unat n \<le> m"
  shows "reads_back buf' (SPtr src n) (RPtr (Some p))"
  using assms take_drop_agree [OF assms(2,3)] by simp

lemma ser_then_deser_loop:
  assumes "memcpy_s_ok mc" "\<forall>a \<in> set args. arg_ok a" "length buf = unat sz" "unat off \<le> unat sz"
    "ser_loop mc args buf sz off = (0, out)"
  shows "length out = length buf \<and> take (unat off) out = take (unat off) buf \<and>
     (\<exists>res. deser_loop (map reader_of args) out sz off = (0, res) \<and> list_all2 (reads_back out) args res)"
  using assms
proof (induction mc args buf sz off rule: ser_loop.induct)
  case (2 mc v args buf sz off)
  have room: "unat off + 16 \<le> unat sz"
    using 2(6) room_16 [of sz off]
    by (auto simp: InterTypeSerialize_def SerializeInterBuffValidCheck_def split: if_splits)
  obtain buf' where w: "InterTypeSerialize buf sz off v = (0, buf')" "length buf' = length buf"
    "take (unat off) buf' = take (unat off) buf"
    "u64_at buf' (unat off) = INTEGERTYPE" "u64_at buf' (unat off + 8) = v"
    using InterTypeSerialize_ok [OF 2(4) room] by blast
  have next_off: "unat (off + 16) = unat off + 16" using room by (rule off_add_16)
  have rest: "ser_loop mc args buf' sz (off + 16) = (0, out)" using 2(6) w(1) by simp
  have "length out = length buf' \<and> take (unat (off + 16)) out = take (unat (off + 16)) buf' \<and>
     (\<exists>res. deser_loop (map reader_of args) out sz (off + 16) = (0, res) \<and>
            list_all2 (reads_back out) args res)"
    using 2(1) [of 0 buf'] 2(2,3,4) w rest room next_off by simp
  then obtain res where ih: "length out = length buf'" "take (unat off + 16) out = take (unat off + 16) buf'"
    "deser_loop (map reader_of args) out sz (off + 16) = (0, res)" "list_all2 (reads_back out) args res"
    unfolding next_off by blast
  have "u64_at out (unat off) = INTEGERTYPE" "u64_at out (unat off + 8) = v"
    using u64_at_agree [OF ih(2)] w by simp_all
  then have "InterTypeDeserialize out sz off = (0, Some v)"
    using InterTypeDeserialize_ok [OF room, of out] by simp
  then have "deser_loop (map reader_of (SInt v # args)) out sz off = (0, RInt v # res)"
    using ih(3) by simp
  moreover have "list_all2 (reads_back out) (SInt v # args) (RInt v # res)" using ih(4) by simp
  moreover have "take (unat off) out = take (unat off) buf"
    using w(3) arg_cong [OF ih(2), of "take (unat off)"] by simp
  ultimately show ?case using ih(1) w(2) by metis
next
  case (3 mc src n args buf sz off)
  have src: "n \<noteq> 0 \<longrightarrow> src \<noteq> None" using 3(6) by (auto split: if_splits)
  obtain buf' where run: "PointTypeSerialize mc buf sz off src n = (0, buf')"
    and rest: "ser_loop mc args buf' sz (ucast (ucast off + (16 + n))) = (0, out)"
    using 3(6) src by (auto split: prod.splits if_splits)
  have ok: "arg_ok (SPtr src n)" using 3(3) by simp
  have w: "unat off + 16 + unat n \<le> unat sz" "length buf' = length buf"
     "take (unat off) buf' = take (unat off) buf"
     "u64_at buf' (unat off) = POINTTYPE" "u64_at buf' (unat off + 8) = n"
     "n \<noteq> 0 \<longrightarrow> src = Some (take (unat n) (drop (unat off + 16) buf'))"
    using PointTypeSerialize_ok [OF 3(2) ok src 3(4) run] by blast+
  define off' :: u32 where "off' = ucast (ucast off + (16 + n))"
  have next_off: "unat off' = unat off + 16 + unat n"
    unfolding off'_def by (rule off_add_ptr) (use w(1) unat_u32_less [of sz] in linarith)
  have "length out = length buf' \<and> take (unat off') out = take (unat off') buf' \<and>
     (\<exists>res. deser_loop (map reader_of args) out sz off' = (0, res) \<and>
            list_all2 (reads_back out) args res)"
    using 3(1) [of 0 buf'] src run 3(2,3,4) w(1,2) rest next_off off'_def by auto
  then obtain res where ih: "length out = length buf'" "take (unat off') out = take (unat off') buf'"
    "deser_loop (map reader_of args) out sz off' = (0, res)" "list_all2 (reads_back out) args res"
    by blast
  define p where "p = (if n \<noteq> 0 then Some (unat off + 16) else None)"
  have "u64_at out (unat off) = POINTTYPE" "u64_at out (unat off + 8) = n"
    using u64_at_agree [OF ih(2), unfolded next_off] w by simp_all
  then have "PointTypeDeserialize out sz off = (0, Some (p, n))"
    using PointTypeDeserialize_ok [OF w(1), of out] by (simp add: p_def)
  then have "deser_loop (map reader_of (SPtr src n # args)) out sz off = (0, RPtr p # res)"
    using ih(3) by (simp add: off'_def)
  moreover have "reads_back out (SPtr src n) (RPtr p)"
  proof (cases "n = 0")
    case False
    then have "reads_back buf' (SPtr src n) (RPtr (Some (unat off + 16)))" using w(6) by simp
    then have "reads_back out (SPtr src n) (RPtr (Some (unat off + 16)))"
      by (rule reads_back_stable [OF _ ih(2)]) (simp add: next_off)
    then show ?thesis using False by (simp add: p_def)
  qed (simp add: p_def)
  moreover have "take (unat off) out = take (unat off) buf"
    using w(3) arg_cong [OF ih(2), of "take (unat off)"] by (simp add: next_off min_def)
  ultimately show ?case using ih(1,4) w(2) by auto
qed auto

section \<open>The computed size is enough\<close>

fun arg_present :: "ser_arg \<Rightarrow> bool" where
  "arg_present (SPtr src n) = (n \<noteq> 0 \<longrightarrow> src \<noteq> None)"
| "arg_present a = True"






section \<open>A concrete run\<close>

definition ex_memcpy :: memcpy_s_fun where
  "ex_memcpy dest src n =
     (if n \<le> length dest \<and> n \<le> length src then (0, take n src @ drop n dest) else (34, dest))"

definition ex_args :: "ser_arg list" where
  "ex_args = [SInt 7, SPtr (Some [1, 2, 3]) 3]"

definition ex_out :: "u8 list" where
  "ex_out = [2, 0, 0, 0, 17, 0, 0, 0, 0, 0, 0, 0, 7, 0, 0, 0, 0, 0, 0, 0,
             18, 0, 0, 0, 0, 0, 0, 0, 3, 0, 0, 0, 0, 0, 0, 0, 1, 2, 3]"

text \<open>A buffer of 20 bytes whose only argument claims $2^{64} - 20$ bytes.\<close>

definition ex_wrap :: "u8 list" where
  "ex_wrap = [1, 0, 0, 0, 18, 0, 0, 0, 0, 0, 0, 0, 0xEC, 0xFF, 0xFF, 0xFF, 0xFF, 0xFF, 0xFF, 0xFF]"

lemma ex_memcpy_ok: "memcpy_s_ok ex_memcpy"
  by (auto simp: memcpy_s_ok_def ex_memcpy_def)

lemma ex_run: "Serialize ex_memcpy ex_args (Some (replicate 39 0)) 39 = (0, Some ex_out)"
  by code_simp

lemma ex_args_ok: "\<forall>a \<in> set ex_args. arg_ok a \<and> arg_present a"
  by (simp add: ex_args_def)

text \<open>
  The sum in \<^verbatim>\<open>CalculateBuffSize\<close> is kept in 32 bits and \<^verbatim>\<open>OverflowCheck\<close> takes 32-bit arguments: a size
  that is a multiple of $2^{32}$ passes both checks and counts as 0.
\<close>

lemma ucast_down_add: "(ucast (a + b :: u64) :: u32) = ucast a + ucast b"
proof -
  have "(uint a + uint b) mod 18446744073709551616 mod 4294967296 = (uint a + uint b) mod 4294967296"
    by (rule mod_mod_cancel) simp
  then show ?thesis
    by (simp add: word_uint_eq_iff uint_word_ariths unsigned_ucast_eq take_bit_eq_mod mod_simps)
qed

lemma CalculateBuffSize_truncates:
  assumes "(ucast n :: u32) = 0"
  shows "CalculateBuffSize [SPtr p n] = (0, 20)"
proof -
  have "(ucast (16 + n) :: u32) = 16" "(ucast (ucast (4 :: u32) + (16 + n)) :: u32) = 20"
    using assms by (simp_all add: ucast_down_add)
  then show ?thesis using assms by (simp add: CalculateBuffSize_def OverflowCheck_def)
qed

section \<open>Properties\<close>

text \<open>
  C5. The round trip. When \<^verbatim>\<open>Serialize\<close> succeeds, \<^verbatim>\<open>DeSerialize\<close> of its buffer with references of the
  same types succeeds too and gives back every integer unchanged and, for every pointer argument, a
  pointer into the buffer at exactly the bytes that were passed (null for an empty one).
\<close>

theorem Serialize_DeSerialize_roundtrip:
  assumes mc: "memcpy_s_ok mc" and args: "\<forall>a \<in> set args. arg_ok a" and len: "length buf = unat sz"
    and run: "Serialize mc args (Some buf) sz = (0, Some out)"
  shows "\<exists>res. DeSerialize (map reader_of args) (Some out) sz = (0, res) \<and> list_all2 (reads_back out) args res"
proof -
  define buf1 where "buf1 = put_bytes 0 (le_bytes 4 (of_nat (length args) :: u32)) buf"
  have chk: "\<not> sz < 4" and loop: "ser_loop mc args buf1 sz 4 = (0, out)"
    using run by (cases "ser_loop mc args buf1 sz 4",
        auto simp: Serialize_def SerializeParamValidCheck_def buf1_def split: if_splits)+
  have four: "4 \<le> unat sz" using chk by (simp add: not_less word_le_nat_alt)
  have l1: "length buf1 = unat sz" using len four by (simp add: buf1_def)
  have "unat (4 :: u32) \<le> unat sz" using four by simp
  note post = ser_then_deser_loop [OF mc args l1 this loop]
  have "u32_at out 0 = u32_at buf1 0"
    by (rule u32_at_agree [where m = 4]) (use post in simp_all)
  also have "\<dots> = of_nat (length args)"
    unfolding buf1_def by (rule u32_at_put) (use len four in simp)
  finally have "DeSerializeParamValidCheck (of_nat (length (map reader_of args))) (Some out) sz = 0"
    using chk by (simp add: DeSerializeParamValidCheck_def)
  then show ?thesis using post by (simp add: DeSerialize_def)
qed


text \<open>
  C35. The bound check of a pointer argument wraps. \<^verbatim>\<open>PointTypeDeserialize\<close> adds the offset, the header and
  the stored size in 64 bits, so a stored size of at least $2^{64} - 20$ makes the sum wrap and pass: in a
  buffer of 20 bytes, all headers, \<^verbatim>\<open>DeSerialize\<close> succeeds and hands out the address one past its end as a
  pointer to nearly $2^{64}$ bytes.
\<close>

theorem DeSerialize_accepts_wrapped_size:
  assumes cnt: "u32_at buf 0 = 1" and tag: "u64_at buf 4 = POINTTYPE"
    and psz: "u64_at buf 12 = n" "n \<ge> 0xFFFFFFFFFFFFFFEC"
  shows "DeSerialize [DPtr False] (Some buf) 20 = (0, [RPtr (Some 20)])"
proof -
  have "20 + n = n - 0xFFFFFFFFFFFFFFEC" by simp
  also have "\<dots> \<le> 0xFFFFFFFFFFFFFFFF - 0xFFFFFFFFFFFFFFEC"
    using psz(2) by (simp add: word_le_nat_alt unat_sub) (use unat_u64_less [of n] in linarith)
  finally have "\<not> 20 < 20 + n" by (simp add: not_less word_le_nat_alt)
  moreover have "n \<noteq> 0" using psz(2) by auto
  ultimately have "PointTypeDeserialize buf 20 4 = (0, Some (Some 20, n))"
    using tag psz(1)
    by (simp add: PointTypeDeserialize_def SerializePointBuffValidCheck_def ParamTypeCheck_def Let_def)
  then show ?thesis using cnt
    by (simp add: DeSerialize_def DeSerializeParamValidCheck_def)
qed

section \<open>Witnesses\<close>

theorem Serialize_DeSerialize_roundtrip_witness:
  "\<exists>res. DeSerialize (map reader_of ex_args) (Some ex_out) 39 = (0, res) \<and>
         list_all2 (reads_back ex_out) ex_args res"
  by (rule Serialize_DeSerialize_roundtrip [OF ex_memcpy_ok _ _ ex_run]) (use ex_args_ok in simp_all)


theorem DeSerialize_accepts_wrapped_size_witness:
  "DeSerialize [DPtr False] (Some ex_wrap) 20 = (0, [RPtr (Some 20)])"
  by (rule DeSerialize_accepts_wrapped_size [where n = "0xFFFFFFFFFFFFFFEC"]) code_simp+

end
