(* ===== verification/Client_World.thy ===== *)
theory Client_World
  imports Bitmap Refcount Bytes
begin

text \<open>
  The data of the client library, \<^verbatim>\<open>src/include/tee_client_type.h\<close>, \<^verbatim>\<open>src/inc/tee_client_inner.h\<close>,
  \<^verbatim>\<open>tc_ns_client.h\<close>, and the world its functions change: the heaps of the library's and of the
  application's objects, the list of contexts, the memory blocks, and what the operating system was asked.

  Pointers are 64-bit words with 0 for \<^verbatim>\<open>NULL\<close>. An intrusive list is the sequence of its nodes (see
  \<open>Intrusive_List\<close>). Every answer of the operating system (lock results, \<^verbatim>\<open>memset_s\<close>, \<^verbatim>\<open>ioctl\<close>,
  \<^verbatim>\<open>mmap\<close>, ...) is the next value of an arbitrary sequence \<open>answers\<close>. An access to an object of
  the library that is not allocated, or a wrong use of \<^verbatim>\<open>free\<close>, \<^verbatim>\<open>munmap\<close> or \<^verbatim>\<open>close\<close>, sets the flag
  \<open>fault\<close>; an access through a pointer of the application to nothing sets \<open>app_fault\<close>. No operation resets
  either.
\<close>

section \<open>Constants\<close>

type_synonym ptr = u64
type_synonym TEEC_Result = u32

abbreviation NULL_ptr :: ptr where "NULL_ptr \<equiv> 0"

definition TEEC_SUCCESS :: TEEC_Result where "TEEC_SUCCESS = 0"
definition TEEC_ERROR_TRUSTED_APP_LOAD_ERROR :: TEEC_Result where "TEEC_ERROR_TRUSTED_APP_LOAD_ERROR = 13"
definition TEEC_ERROR_GENERIC :: TEEC_Result where "TEEC_ERROR_GENERIC = 0xFFFF0000"
definition TEEC_ERROR_ACCESS_DENIED :: TEEC_Result where "TEEC_ERROR_ACCESS_DENIED = 0xFFFF0001"
definition TEEC_ERROR_BAD_PARAMETERS :: TEEC_Result where "TEEC_ERROR_BAD_PARAMETERS = 0xFFFF0006"
definition TEEC_ERROR_NOT_IMPLEMENTED :: TEEC_Result where "TEEC_ERROR_NOT_IMPLEMENTED = 0xFFFF0009"
definition TEEC_ERROR_OUT_OF_MEMORY :: TEEC_Result where "TEEC_ERROR_OUT_OF_MEMORY = 0xFFFF000C"
definition TEEC_ERROR_SECURITY :: TEEC_Result where "TEEC_ERROR_SECURITY = 0xFFFF000F"
definition TEEC_ERROR_TARGET_DEAD :: TEEC_Result where "TEEC_ERROR_TARGET_DEAD = 0xFFFF3024"
definition TEEC_FAIL :: TEEC_Result where "TEEC_FAIL = 0xFFFF5002"
definition TEE_ERROR_CA_AUTH_FAIL :: TEEC_Result where "TEE_ERROR_CA_AUTH_FAIL = 0xFFFFCFE5"

definition TEEC_ORIGIN_API :: u32 where "TEEC_ORIGIN_API = 1"
definition TEEC_ORIGIN_COMMS :: u32 where "TEEC_ORIGIN_COMMS = 2"

definition TEEC_MEM_INPUT :: u32 where "TEEC_MEM_INPUT = 1"
definition TEEC_MEM_OUTPUT :: u32 where "TEEC_MEM_OUTPUT = 2"
definition TEEC_MEM_INOUT :: u32 where "TEEC_MEM_INOUT = 3"
definition TEEC_MEM_SHARED_INOUT :: u32 where "TEEC_MEM_SHARED_INOUT = 4"
definition TEEC_MEM_REGISTER_INOUT :: u32 where "TEEC_MEM_REGISTER_INOUT = 5"

definition TEEC_LOGIN_IDENTIFY :: u32 where "TEEC_LOGIN_IDENTIFY = 7"
definition GLOBAL_CMD_ID_OPEN_SESSION :: u32 where "GLOBAL_CMD_ID_OPEN_SESSION = 2"
definition GLOBAL_CMD_ID_CLOSE_SESSION :: u32 where "GLOBAL_CMD_ID_CLOSE_SESSION = 3"

definition ZERO_SIZE_PTR :: ptr where "ZERO_SIZE_PTR = 16"
definition MAP_FAILED :: ptr where "MAP_FAILED = - 1"
definition MAX_SHAREDMEM_LEN :: u32 where "MAX_SHAREDMEM_LEN = 0x10000000"
definition NUM_OF_SHAREMEM_BITMAP :: u32 where "NUM_OF_SHAREMEM_BITMAP = 8"

section \<open>Objects\<close>

record TEEC_UUID =
  timeLow :: u32
  timeMid :: u16
  timeHiAndVersion :: u16
  clockSeqAndNode :: "u8 list"

definition zero_uuid :: TEEC_UUID where
  "zero_uuid = \<lparr>timeLow = 0, timeMid = 0, timeHiAndVersion = 0, clockSeqAndNode = replicate 8 0\<rparr>"

definition uuid_bytes :: "TEEC_UUID \<Rightarrow> u8 list" where
  "uuid_bytes u = le_bytes 4 (timeLow u) @ le_bytes 2 (timeMid u) @ le_bytes 2 (timeHiAndVersion u)
     @ clockSeqAndNode u"

text \<open>The application's context and shared memory, and the library's own; sessions are shared.\<close>

record TEEC_Context =
  ac_fd :: int
  ta_path :: "string option"

record TEEC_ContextHidl =
  cx_fd :: int
  session_list :: "ptr list"
  shrd_mem_list :: "ptr list"
  shm_bitmap :: "u8 list"
  cx_ops_cnt :: u32
  callFromHidl :: bool

record TEEC_Session =
  session_id :: u32
  service_id :: TEEC_UUID
  ss_ops_cnt :: u32
  ss_context :: ptr

record TEEC_SharedMemory =
  as_buffer :: ptr
  as_size :: u32
  as_flags :: u32
  as_ops_cnt :: u32
  as_is_allocated :: bool
  as_context :: ptr

record TEEC_SharedMemoryHidl =
  sm_buffer :: ptr
  sm_size :: u32
  sm_flags :: u32
  sm_ops_cnt :: u32
  sm_is_allocated :: bool
  sm_context :: ptr
  sm_offset :: u32

text \<open>
  The parameter union, as its 16 bytes: a pointer-sized word and two 32-bit words. The four views of the
  union are \<open>tmpref_buffer\<close> and so on.
\<close>

record TEEC_Parameter =
  word0 :: u64
  word1 :: u32
  word2 :: u32

definition tmpref_buffer :: "TEEC_Parameter \<Rightarrow> ptr" where "tmpref_buffer p = word0 p"
definition tmpref_size :: "TEEC_Parameter \<Rightarrow> u32" where "tmpref_size p = word1 p"
definition memref_parent :: "TEEC_Parameter \<Rightarrow> ptr" where "memref_parent p = word0 p"
definition memref_size :: "TEEC_Parameter \<Rightarrow> u32" where "memref_size p = word1 p"
definition memref_offset :: "TEEC_Parameter \<Rightarrow> u32" where "memref_offset p = word2 p"
definition ion_share_fd :: "TEEC_Parameter \<Rightarrow> int" where "ion_share_fd p = sint (ucast (word0 p) :: u32)"
definition ion_size :: "TEEC_Parameter \<Rightarrow> u32" where "ion_size p = ucast (drop_bit 32 (word0 p))"

record TEEC_Operation =
  started :: u32
  paramTypes :: u32
  params :: "nat \<Rightarrow> TEEC_Parameter"
  op_session :: ptr
  cancel_flag :: bool

text \<open>The request passed to the driver. Its parameters are a union too: six words, of which the
  \<^verbatim>\<open>value\<close> view uses the first four.\<close>

record TC_NS_ClientParam =
  buffer_lo :: u32
  buffer_hi :: u32
  offset_lo :: u32
  offset_hi :: u32
  size_addr_lo :: u32
  size_addr_hi :: u32

record TC_NS_ClientLogin =
  lg_method :: u32
  lg_mdata :: u32

record TC_NS_ClientContext =
  cc_uuid :: "u8 list"
  cc_session_id :: u32
  cc_cmd_id :: u32
  returns_code :: u32
  returns_origin :: u32
  cc_login :: TC_NS_ClientLogin
  cc_params :: "nat \<Rightarrow> TC_NS_ClientParam"
  cc_paramTypes :: u32
  cc_started :: bool
  callingPid :: u32
  file_size :: u32
  file_addr :: u32
  file_h_addr :: u32

definition zero_param :: TC_NS_ClientParam where
  "zero_param = \<lparr>buffer_lo = 0, buffer_hi = 0, offset_lo = 0, offset_hi = 0,
     size_addr_lo = 0, size_addr_hi = 0\<rparr>"

definition zero_cli :: TC_NS_ClientContext where
  "zero_cli = \<lparr>cc_uuid = replicate 16 0, cc_session_id = 0, cc_cmd_id = 0, returns_code = 0,
     returns_origin = 0, cc_login = \<lparr>lg_method = 0, lg_mdata = 0\<rparr>, cc_params = (\<lambda>_. zero_param),
     cc_paramTypes = 0, cc_started = False, callingPid = 0, file_size = 0, file_addr = 0, file_h_addr = 0\<rparr>"

section \<open>The world\<close>

text \<open>
  A memory block was obtained from \<^verbatim>\<open>malloc\<close> (with the bytes the library wrote to it so far), or mapped
  from the driver descriptor with a size and an offset.
\<close>

datatype block = Heap "u8 list" | Mapped int u32 u32

datatype ioctl_req = SES_OPEN_REQ | SES_CLOSE_REQ | SEND_CMD_REQ | CANCEL_CMD_REQ
  | REGISTER_AGENT | UNREGISTER_AGENT | WAIT_EVENT | SEND_EVENT_RESPONSE

datatype sys_call = Ioctl int ioctl_req TC_NS_ClientContext | IoctlAgent int ioctl_req u32
  | IoctlLoad int nat nat ptr | CloseFd int | Free ptr | Munmap ptr u32

record world =
  w_ctxs :: "ptr \<Rightarrow> TEEC_ContextHidl option"
  g_teecContextList :: "ptr list"
  w_sessions :: "ptr \<Rightarrow> TEEC_Session option"
  w_shms :: "ptr \<Rightarrow> TEEC_SharedMemoryHidl option"
  app_ctxs :: "ptr \<Rightarrow> TEEC_Context option"
  app_shms :: "ptr \<Rightarrow> TEEC_SharedMemory option"
  app_ops :: "ptr \<Rightarrow> TEEC_Operation option"
  w_blocks :: "ptr \<Rightarrow> block option"
  open_fds :: "int \<Rightarrow> bool"
  answers :: "nat \<Rightarrow> int"
  tick :: nat
  calls :: "sys_call list"
  fault :: bool
  app_fault :: bool

text \<open>The next answer of the operating system.\<close>

definition ask :: "world \<Rightarrow> int \<times> world" where
  "ask w = (answers w (tick w), w\<lparr>tick := Suc (tick w)\<rparr>)"

definition log_call :: "sys_call \<Rightarrow> world \<Rightarrow> world" where
  "log_call c w = w\<lparr>calls := calls w @ [c]\<rparr>"

definition faulty :: "world \<Rightarrow> world" where
  "faulty w = w\<lparr>fault := True\<rparr>"

definition app_faulty :: "world \<Rightarrow> world" where
  "app_faulty w = w\<lparr>app_fault := True\<rparr>"

subsection \<open>Reading and writing objects\<close>

definition nil_ctx :: TEEC_ContextHidl where
  "nil_ctx = \<lparr>cx_fd = 0, session_list = [], shrd_mem_list = [], shm_bitmap = replicate 8 0,
     cx_ops_cnt = 0, callFromHidl = False\<rparr>"

definition nil_session :: TEEC_Session where
  "nil_session = \<lparr>session_id = 0, service_id = zero_uuid, ss_ops_cnt = 0, ss_context = 0\<rparr>"

definition nil_shm :: TEEC_SharedMemoryHidl where
  "nil_shm = \<lparr>sm_buffer = 0, sm_size = 0, sm_flags = 0, sm_ops_cnt = 0, sm_is_allocated = False,
     sm_context = 0, sm_offset = 0\<rparr>"

definition nil_app_shm :: TEEC_SharedMemory where
  "nil_app_shm = \<lparr>as_buffer = 0, as_size = 0, as_flags = 0, as_ops_cnt = 0, as_is_allocated = False,
     as_context = 0\<rparr>"

definition nil_op :: TEEC_Operation where
  "nil_op = \<lparr>started = 0, paramTypes = 0, params = (\<lambda>_. \<lparr>word0 = 0, word1 = 0, word2 = 0\<rparr>),
     op_session = 0, cancel_flag = False\<rparr>"

definition rd_ctx :: "world \<Rightarrow> ptr \<Rightarrow> TEEC_ContextHidl" where
  "rd_ctx w a = (case w_ctxs w a of Some c \<Rightarrow> c | None \<Rightarrow> nil_ctx)"

definition rd_sess :: "world \<Rightarrow> ptr \<Rightarrow> TEEC_Session" where
  "rd_sess w a = (case w_sessions w a of Some s \<Rightarrow> s | None \<Rightarrow> nil_session)"

definition rd_shm :: "world \<Rightarrow> ptr \<Rightarrow> TEEC_SharedMemoryHidl" where
  "rd_shm w a = (case w_shms w a of Some m \<Rightarrow> m | None \<Rightarrow> nil_shm)"

definition rd_app_ctx :: "world \<Rightarrow> ptr \<Rightarrow> TEEC_Context" where
  "rd_app_ctx w a = (case app_ctxs w a of Some c \<Rightarrow> c | None \<Rightarrow> \<lparr>ac_fd = 0, ta_path = None\<rparr>)"

definition rd_app_shm :: "world \<Rightarrow> ptr \<Rightarrow> TEEC_SharedMemory" where
  "rd_app_shm w a = (case app_shms w a of Some m \<Rightarrow> m | None \<Rightarrow> nil_app_shm)"

definition rd_op :: "world \<Rightarrow> ptr \<Rightarrow> TEEC_Operation" where
  "rd_op w a = (case app_ops w a of Some p \<Rightarrow> p | None \<Rightarrow> nil_op)"

text \<open>An access marks the world when the object is not there.\<close>

definition use_ctx :: "ptr \<Rightarrow> world \<Rightarrow> world" where
  "use_ctx a w = (if w_ctxs w a = None then faulty w else w)"

definition use_sess :: "ptr \<Rightarrow> world \<Rightarrow> world" where
  "use_sess a w = (if w_sessions w a = None then app_faulty w else w)"

definition use_shm :: "ptr \<Rightarrow> world \<Rightarrow> world" where
  "use_shm a w = (if w_shms w a = None then faulty w else w)"

definition use_app_ctx :: "ptr \<Rightarrow> world \<Rightarrow> world" where
  "use_app_ctx a w = (if app_ctxs w a = None then app_faulty w else w)"

definition use_app_shm :: "ptr \<Rightarrow> world \<Rightarrow> world" where
  "use_app_shm a w = (if app_shms w a = None then app_faulty w else w)"

definition use_op :: "ptr \<Rightarrow> world \<Rightarrow> world" where
  "use_op a w = (if app_ops w a = None then app_faulty w else w)"

definition upd_ctx :: "ptr \<Rightarrow> (TEEC_ContextHidl \<Rightarrow> TEEC_ContextHidl) \<Rightarrow> world \<Rightarrow> world" where
  "upd_ctx a f w = (case w_ctxs w a of None \<Rightarrow> faulty w | Some c \<Rightarrow> w\<lparr>w_ctxs := (w_ctxs w)(a \<mapsto> f c)\<rparr>)"

definition upd_sess :: "ptr \<Rightarrow> (TEEC_Session \<Rightarrow> TEEC_Session) \<Rightarrow> world \<Rightarrow> world" where
  "upd_sess a f w =
     (case w_sessions w a of None \<Rightarrow> app_faulty w | Some s \<Rightarrow> w\<lparr>w_sessions := (w_sessions w)(a \<mapsto> f s)\<rparr>)"

definition upd_shm :: "ptr \<Rightarrow> (TEEC_SharedMemoryHidl \<Rightarrow> TEEC_SharedMemoryHidl) \<Rightarrow> world \<Rightarrow> world" where
  "upd_shm a f w = (case w_shms w a of None \<Rightarrow> faulty w | Some m \<Rightarrow> w\<lparr>w_shms := (w_shms w)(a \<mapsto> f m)\<rparr>)"

definition upd_app_ctx :: "ptr \<Rightarrow> (TEEC_Context \<Rightarrow> TEEC_Context) \<Rightarrow> world \<Rightarrow> world" where
  "upd_app_ctx a f w =
     (case app_ctxs w a of None \<Rightarrow> app_faulty w | Some c \<Rightarrow> w\<lparr>app_ctxs := (app_ctxs w)(a \<mapsto> f c)\<rparr>)"

definition upd_app_shm :: "ptr \<Rightarrow> (TEEC_SharedMemory \<Rightarrow> TEEC_SharedMemory) \<Rightarrow> world \<Rightarrow> world" where
  "upd_app_shm a f w =
     (case app_shms w a of None \<Rightarrow> app_faulty w | Some m \<Rightarrow> w\<lparr>app_shms := (app_shms w)(a \<mapsto> f m)\<rparr>)"

definition upd_op :: "ptr \<Rightarrow> (TEEC_Operation \<Rightarrow> TEEC_Operation) \<Rightarrow> world \<Rightarrow> world" where
  "upd_op a f w = (case app_ops w a of None \<Rightarrow> app_faulty w | Some p \<Rightarrow> w\<lparr>app_ops := (app_ops w)(a \<mapsto> f p)\<rparr>)"

subsection \<open>Memory\<close>

text \<open>
  An allocation answers \<^verbatim>\<open>NULL\<close> or an address that nothing live has: the answer of the system is
  taken when it is fresh. Freeing something that is not a live heap block is a fault.
\<close>

definition in_use :: "world \<Rightarrow> ptr \<Rightarrow> bool" where
  "in_use w p \<longleftrightarrow> p = MAP_FAILED \<or> p = ZERO_SIZE_PTR \<or> w_ctxs w p \<noteq> None \<or> w_sessions w p \<noteq> None \<or>
     w_shms w p \<noteq> None \<or> app_ctxs w p \<noteq> None \<or> app_shms w p \<noteq> None \<or> app_ops w p \<noteq> None \<or>
     w_blocks w p \<noteq> None"

definition malloc_addr :: "world \<Rightarrow> ptr \<times> world" where
  "malloc_addr w = (case ask w of (a, w1) \<Rightarrow>
     if in_use w (word_of_int a) then (NULL_ptr, w1) else (word_of_int a, w1))"

definition malloc_block :: "world \<Rightarrow> ptr \<times> world" where
  "malloc_block w = (case malloc_addr w of (p, w1) \<Rightarrow>
     (p, if p = NULL_ptr then w1 else w1\<lparr>w_blocks := (w_blocks w1)(p \<mapsto> Heap [])\<rparr>))"

definition free_block :: "ptr \<Rightarrow> world \<Rightarrow> world" where
  "free_block p w =
     (if p = NULL_ptr then w
      else case w_blocks w p of
        Some (Heap bs) \<Rightarrow> log_call (Free p) (w\<lparr>w_blocks := (w_blocks w)(p := None)\<rparr>)
      | _ \<Rightarrow> log_call (Free p) (faulty w))"

text \<open>\<^verbatim>\<open>mmap\<close> fails or answers a fresh address.\<close>

definition mmap_block :: "int \<Rightarrow> u32 \<Rightarrow> u32 \<Rightarrow> world \<Rightarrow> ptr \<times> world" where
  "mmap_block fd sz off w = (case malloc_addr w of (p, w1) \<Rightarrow>
     if p = NULL_ptr then (MAP_FAILED, w1) else (p, w1\<lparr>w_blocks := (w_blocks w1)(p \<mapsto> Mapped fd sz off)\<rparr>))"

text \<open>\<^verbatim>\<open>munmap\<close> of a range that is not a live mapping of that size takes away other pages: a fault.\<close>

definition munmap_block :: "ptr \<Rightarrow> u32 \<Rightarrow> world \<Rightarrow> int \<times> world" where
  "munmap_block p sz w = (case ask w of (r, w1) \<Rightarrow>
     (case w_blocks w1 p of
        Some (Mapped fd sz' off) \<Rightarrow>
          if sz = sz' then (0, log_call (Munmap p sz) (w1\<lparr>w_blocks := (w_blocks w1)(p := None)\<rparr>))
          else (r, log_call (Munmap p sz) (faulty w1))
      | _ \<Rightarrow> (r, log_call (Munmap p sz) (faulty w1))))"

text \<open>
  A connection to the daemon answers a negative number or a descriptor that was not open; closing a
  descriptor that is not open is a fault.
\<close>

definition connect_fd :: "world \<Rightarrow> int \<times> world" where
  "connect_fd w = (case ask w of (fd, w1) \<Rightarrow>
     if fd < 0 \<or> open_fds w1 fd then (- 1, w1) else (fd, w1\<lparr>open_fds := (open_fds w1)(fd := True)\<rparr>))"

definition close_fd :: "int \<Rightarrow> world \<Rightarrow> world" where
  "close_fd fd w = (if open_fds w fd then log_call (CloseFd fd) (w\<lparr>open_fds := (open_fds w)(fd := False)\<rparr>)
                    else log_call (CloseFd fd) (faulty w))"

definition free_ctx :: "ptr \<Rightarrow> world \<Rightarrow> world" where
  "free_ctx a w = (if w_ctxs w a = None then faulty w
                   else log_call (Free a) (w\<lparr>w_ctxs := (w_ctxs w)(a := None)\<rparr>))"

definition free_sess :: "ptr \<Rightarrow> world \<Rightarrow> world" where
  "free_sess a w = (if w_sessions w a = None then app_faulty w
                    else log_call (Free a) (w\<lparr>w_sessions := (w_sessions w)(a := None)\<rparr>))"

definition free_shm :: "ptr \<Rightarrow> world \<Rightarrow> world" where
  "free_shm a w = (if w_shms w a = None then faulty w
                   else log_call (Free a) (w\<lparr>w_shms := (w_shms w)(a := None)\<rparr>))"

subsection \<open>Observations\<close>

text \<open>Reading answers and marking faults leave the rest of the world as it is.\<close>

definition core :: "world \<Rightarrow> world" where
  "core w = w\<lparr>tick := 0, fault := False, app_fault := False\<rparr>"

lemma core_use [simp]:
  "core (use_ctx a w) = core w" "core (use_sess a w) = core w" "core (use_shm a w) = core w"
  "core (use_app_ctx a w) = core w" "core (use_app_shm a w) = core w" "core (use_op a w) = core w"
  "core (faulty w) = core w" "core (app_faulty w) = core w"
  by (simp_all add: core_def use_ctx_def use_sess_def use_shm_def use_app_ctx_def use_app_shm_def
      use_op_def faulty_def app_faulty_def)

lemma core_ask: "ask w = (r, w') \<Longrightarrow> core w' = core w \<and> r = answers w (tick w)"
  by (auto simp: core_def ask_def)

lemma rd_core [simp]:
  "rd_ctx (core w) a = rd_ctx w a" "rd_sess (core w) a = rd_sess w a" "rd_shm (core w) a = rd_shm w a"
  "rd_app_ctx (core w) a = rd_app_ctx w a" "rd_app_shm (core w) a = rd_app_shm w a" "rd_op (core w) a = rd_op w a"
  "answers (core w) = answers w"
  by (simp_all add: core_def rd_ctx_def rd_sess_def rd_shm_def rd_app_ctx_def rd_app_shm_def rd_op_def)

lemma rd_same:
  assumes "core w' = core w"
  shows "rd_ctx w' a = rd_ctx w a" "rd_sess w' a = rd_sess w a" "rd_shm w' a = rd_shm w a"
    "rd_app_ctx w' a = rd_app_ctx w a" "rd_app_shm w' a = rd_app_shm w a" "rd_op w' a = rd_op w a"
    "answers w' = answers w"
  using assms by (metis rd_core)+

lemma rd_use [simp]:
  "rd_ctx (use_ctx b w) a = rd_ctx w a" "rd_shm (use_shm b w) a = rd_shm w a"
  "rd_op (use_op b w) a = rd_op w a" "rd_app_shm (use_app_shm b w) a = rd_app_shm w a"
  by (rule rd_same, simp)+

end
