(* ===== verification/Teec_Operation.thy ===== *)
theory Teec_Operation
  imports Client_World
begin

text \<open>
  Operations of the client library: the checks of \<^verbatim>\<open>TEEC_CheckOperation\<close> and the encoding of the four
  parameters into the request of the driver (\<^verbatim>\<open>TEEC_Encode\<close> and its helpers), both of
  \<^verbatim>\<open>src/libteec_vendor/tee_client_api.c\<close>, with the macros of \<^verbatim>\<open>tee_client_api.h\<close> and
  \<^verbatim>\<open>tee_client_inner.h\<close>. Addresses of fields are those of the 64-bit layout.
\<close>

section \<open>Parameter types\<close>

definition TEEC_NONE :: u32 where "TEEC_NONE = 0"
definition TEEC_VALUE_INPUT :: u32 where "TEEC_VALUE_INPUT = 1"
definition TEEC_VALUE_OUTPUT :: u32 where "TEEC_VALUE_OUTPUT = 2"
definition TEEC_VALUE_INOUT :: u32 where "TEEC_VALUE_INOUT = 3"
definition TEEC_MEMREF_TEMP_INPUT :: u32 where "TEEC_MEMREF_TEMP_INPUT = 5"
definition TEEC_MEMREF_TEMP_OUTPUT :: u32 where "TEEC_MEMREF_TEMP_OUTPUT = 6"
definition TEEC_MEMREF_TEMP_INOUT :: u32 where "TEEC_MEMREF_TEMP_INOUT = 7"
definition TEEC_ION_INPUT :: u32 where "TEEC_ION_INPUT = 8"
definition TEEC_ION_SGLIST_INPUT :: u32 where "TEEC_ION_SGLIST_INPUT = 9"
definition TEEC_MEMREF_SHARED_INOUT :: u32 where "TEEC_MEMREF_SHARED_INOUT = 10"
definition TEEC_MEMREF_REGISTER_INOUT :: u32 where "TEEC_MEMREF_REGISTER_INOUT = 11"
definition TEEC_MEMREF_WHOLE :: u32 where "TEEC_MEMREF_WHOLE = 12"
definition TEEC_MEMREF_PARTIAL_INPUT :: u32 where "TEEC_MEMREF_PARTIAL_INPUT = 13"
definition TEEC_MEMREF_PARTIAL_OUTPUT :: u32 where "TEEC_MEMREF_PARTIAL_OUTPUT = 14"
definition TEEC_MEMREF_PARTIAL_INOUT :: u32 where "TEEC_MEMREF_PARTIAL_INOUT = 15"

lemmas param_type_defs = TEEC_NONE_def TEEC_VALUE_INPUT_def TEEC_VALUE_OUTPUT_def TEEC_VALUE_INOUT_def
  TEEC_MEMREF_TEMP_INPUT_def TEEC_MEMREF_TEMP_OUTPUT_def TEEC_MEMREF_TEMP_INOUT_def TEEC_ION_INPUT_def
  TEEC_ION_SGLIST_INPUT_def TEEC_MEMREF_SHARED_INOUT_def TEEC_MEMREF_REGISTER_INOUT_def
  TEEC_MEMREF_WHOLE_def TEEC_MEMREF_PARTIAL_INPUT_def TEEC_MEMREF_PARTIAL_OUTPUT_def
  TEEC_MEMREF_PARTIAL_INOUT_def

definition IS_TEMP_MEM :: "u32 \<Rightarrow> bool" where
  "IS_TEMP_MEM t \<longleftrightarrow> t = TEEC_MEMREF_TEMP_INPUT \<or> t = TEEC_MEMREF_TEMP_OUTPUT \<or> t = TEEC_MEMREF_TEMP_INOUT"

definition IS_PARTIAL_MEM :: "u32 \<Rightarrow> bool" where
  "IS_PARTIAL_MEM t \<longleftrightarrow> t = TEEC_MEMREF_WHOLE \<or> t = TEEC_MEMREF_PARTIAL_INPUT \<or>
     t = TEEC_MEMREF_PARTIAL_OUTPUT \<or> t = TEEC_MEMREF_PARTIAL_INOUT"

definition IS_VALUE_MEM :: "u32 \<Rightarrow> bool" where
  "IS_VALUE_MEM t \<longleftrightarrow> t = TEEC_VALUE_INPUT \<or> t = TEEC_VALUE_OUTPUT \<or> t = TEEC_VALUE_INOUT"

definition IS_SHARED_MEM :: "u32 \<Rightarrow> bool" where
  "IS_SHARED_MEM t \<longleftrightarrow> t = TEEC_MEMREF_SHARED_INOUT \<or> t = TEEC_MEMREF_REGISTER_INOUT"

definition IS_ION :: "u32 \<Rightarrow> bool" where
  "IS_ION t \<longleftrightarrow> t = TEEC_ION_INPUT \<or> t = TEEC_ION_SGLIST_INPUT"

lemmas param_class_defs = IS_TEMP_MEM_def IS_PARTIAL_MEM_def IS_VALUE_MEM_def IS_SHARED_MEM_def IS_ION_def

definition TEEC_PARAM_TYPES :: "u32 \<Rightarrow> u32 \<Rightarrow> u32 \<Rightarrow> u32 \<Rightarrow> u32" where
  "TEEC_PARAM_TYPES p0 p1 p2 p3 = push_bit 12 p3 OR push_bit 8 p2 OR push_bit 4 p1 OR p0"

definition TEEC_PARAM_TYPE_GET :: "u32 \<Rightarrow> nat \<Rightarrow> u32" where
  "TEEC_PARAM_TYPE_GET t i = drop_bit (4 * i) t AND 0x0F"

section \<open>Translations\<close>

definition TranslateRetValue :: "int \<Rightarrow> TEEC_Result" where
  "TranslateRetValue ret =
     (if ret = - EFAULT_no then TEEC_ERROR_ACCESS_DENIED
      else if ret = - ENOMEM_no then TEEC_ERROR_OUT_OF_MEMORY
      else if ret = - EINVAL_no then TEEC_ERROR_BAD_PARAMETERS
      else TEEC_ERROR_GENERIC)"

definition TranslateParamType :: "u32 \<Rightarrow> u32" where
  "TranslateParamType flag =
     (if flag = TEEC_MEM_INPUT then TEEC_MEMREF_PARTIAL_INPUT
      else if flag = TEEC_MEM_OUTPUT then TEEC_MEMREF_PARTIAL_OUTPUT
      else if flag = TEEC_MEM_INOUT then TEEC_MEMREF_PARTIAL_INOUT
      else TEEC_MEMREF_PARTIAL_INOUT)"

section \<open>Encoding\<close>

text \<open>The address of parameter \<open>i\<close> of the operation at \<open>op\<close>; its \<^verbatim>\<open>size\<close> field is 8 bytes in.\<close>

definition param_addr :: "ptr \<Rightarrow> nat \<Rightarrow> ptr" where
  "param_addr op i = op + 8 + 16 * of_nat i"

definition lo32 :: "u64 \<Rightarrow> u32" where "lo32 a = ucast a"
definition hi32 :: "u64 \<Rightarrow> u32" where "hi32 a = ucast (drop_bit 32 a)"

definition TEEC_EncodeTempParam :: "ptr \<Rightarrow> TEEC_Parameter \<Rightarrow> TC_NS_ClientParam \<Rightarrow> TC_NS_ClientParam" where
  "TEEC_EncodeTempParam a p param =
     param\<lparr>buffer_lo := lo32 (tmpref_buffer p), buffer_hi := hi32 (tmpref_buffer p),
           size_addr_lo := lo32 (a + 8), size_addr_hi := hi32 (a + 8)\<rparr>"

definition TEEC_EncodePartialParam ::
  "u32 \<Rightarrow> ptr \<Rightarrow> nat \<Rightarrow> TC_NS_ClientParam \<Rightarrow> world \<Rightarrow> TC_NS_ClientParam \<times> world" where
  "TEEC_EncodePartialParam paramType op i param w =
     (let p = params (rd_op w op) i; parent = memref_parent p; a = param_addr op i;
          w1 = use_app_shm parent w; par = rd_app_shm w1 parent;
          (param1, w2) =
            (if paramType = TEEC_MEMREF_WHOLE
             then (param\<lparr>offset_lo := 0\<rparr>,
                   upd_op op (\<lambda>o'. o'\<lparr>params := (params o')(i := p\<lparr>word1 := as_size par\<rparr>)\<rparr>) w1)
             else (param\<lparr>offset_lo := memref_offset p\<rparr>, w1));
          param2 = param1\<lparr>size_addr_lo := lo32 (a + 8), size_addr_hi := hi32 (a + 8)\<rparr>
      in if as_is_allocated par
         then (param2\<lparr>buffer_lo := lo32 (as_buffer par), buffer_hi := hi32 (as_buffer par)\<rparr>, w2)
         else let b = as_buffer par + ucast (memref_offset p) in
              (param2\<lparr>buffer_lo := lo32 b, buffer_hi := hi32 b, offset_lo := 0\<rparr>, w2))"

text \<open>Both views write the first four words of the union.\<close>

definition TEEC_EncodeValueParam :: "ptr \<Rightarrow> TC_NS_ClientParam \<Rightarrow> TC_NS_ClientParam" where
  "TEEC_EncodeValueParam a param =
     param\<lparr>buffer_lo := lo32 a, buffer_hi := hi32 a, offset_lo := lo32 (a + 4), offset_hi := hi32 (a + 4)\<rparr>"

definition TEEC_EncodeIonParam :: "ptr \<Rightarrow> TC_NS_ClientParam \<Rightarrow> TC_NS_ClientParam" where
  "TEEC_EncodeIonParam a param =
     param\<lparr>buffer_lo := lo32 a, buffer_hi := hi32 a, offset_lo := lo32 (a + 4), offset_hi := hi32 (a + 4)\<rparr>"

text \<open>One turn of the loop of \<^verbatim>\<open>TEEC_EncodeParam\<close>: the type passed to the driver and the parameter.\<close>

definition encode_one ::
  "ptr \<Rightarrow> nat \<Rightarrow> TC_NS_ClientContext \<Rightarrow> world \<Rightarrow> u32 \<times> TC_NS_ClientContext \<times> world" where
  "encode_one op i cli w =
     (let t = TEEC_PARAM_TYPE_GET (paramTypes (rd_op w op)) i;
          p = params (rd_op w op) i; a = param_addr op i;
          set_param = (\<lambda>q. cli\<lparr>cc_params := (cc_params cli)(i := q)\<rparr>)
      in if IS_TEMP_MEM t then (t, set_param (TEEC_EncodeTempParam a p (cc_params cli i)), w)
         else if IS_PARTIAL_MEM t \<or> IS_SHARED_MEM t then
           (case TEEC_EncodePartialParam t op i (cc_params cli i) w of (q, w1) \<Rightarrow>
              let parent = rd_app_shm w1 (memref_parent p);
                  t1 = (if t = TEEC_MEMREF_WHOLE then TranslateParamType (as_flags parent) else t);
                  t2 = (if \<not> as_is_allocated parent
                        then t1 - (TEEC_MEMREF_PARTIAL_INPUT - TEEC_MEMREF_TEMP_INPUT) else t1)
              in (t2, set_param q, w1))
         else if IS_VALUE_MEM t then (t, set_param (TEEC_EncodeValueParam a (cc_params cli i)), w)
         else if IS_ION t then (t, set_param (TEEC_EncodeIonParam a (cc_params cli i)), w)
         else (t, cli, w))"

definition TEEC_EncodeParam :: "TC_NS_ClientContext \<Rightarrow> ptr \<Rightarrow> world \<Rightarrow> TC_NS_ClientContext \<times> world" where
  "TEEC_EncodeParam cli op w =
     (case encode_one op 0 cli w of (t0, cli0, w0) \<Rightarrow>
      case encode_one op 1 cli0 w0 of (t1, cli1, w1) \<Rightarrow>
      case encode_one op 2 cli1 w1 of (t2, cli2, w2) \<Rightarrow>
      case encode_one op 3 cli2 w2 of (t3, cli3, w3) \<Rightarrow>
        (cli3\<lparr>cc_paramTypes := TEEC_PARAM_TYPES t0 t1 t2 t3\<rparr>, w3))"

definition TEEC_Encode ::
  "TC_NS_ClientContext \<Rightarrow> TEEC_UUID \<Rightarrow> u32 \<Rightarrow> u32 \<Rightarrow> TC_NS_ClientLogin \<Rightarrow> ptr \<Rightarrow> world
   \<Rightarrow> TEEC_Result \<times> TC_NS_ClientContext \<times> world" where
  "TEEC_Encode cli serviceId sessionId cmdId cliLogin op w =
     (case ask w of (rc, w1) \<Rightarrow>
      if rc \<noteq> 0 then (TEEC_ERROR_BAD_PARAMETERS, cli, w1)
      else
        let cli1 = zero_cli\<lparr>cc_session_id := sessionId, cc_cmd_id := cmdId, returns_code := 0,
                            returns_origin := TEEC_ORIGIN_API, cc_login := cliLogin\<rparr> in
        case ask w1 of (rc, w2) \<Rightarrow>
        if rc \<noteq> 0 then (TEEC_ERROR_BAD_PARAMETERS, cli1, w2)
        else
          let cli2 = cli1\<lparr>cc_uuid := uuid_bytes serviceId\<rparr> in
          if op = NULL_ptr then (TEEC_SUCCESS, cli2, w2)
          else let w3 = use_op op w2; opn = rd_op w3 op in
            if paramTypes opn = 0 then (TEEC_SUCCESS, cli2, w3)
            else case TEEC_EncodeParam (cli2\<lparr>cc_started := cancel_flag opn\<rparr>) op w3 of
              (cli3, w4) \<Rightarrow> (TEEC_SUCCESS, cli3, w4))"

section \<open>Checks\<close>

definition TEEC_CheckTmpRef :: "TEEC_Parameter \<Rightarrow> TEEC_Result" where
  "TEEC_CheckTmpRef p =
     (if tmpref_buffer p = NULL_ptr \<and> tmpref_size p \<noteq> 0 then TEEC_ERROR_BAD_PARAMETERS
      else if tmpref_buffer p \<noteq> NULL_ptr \<and> tmpref_size p = 0 then TEEC_ERROR_BAD_PARAMETERS
      else TEEC_SUCCESS)"

fun find_shm_buffer :: "ptr list \<Rightarrow> ptr \<Rightarrow> world \<Rightarrow> bool \<times> world" where
  "find_shm_buffer [] b w = (False, w)"
| "find_shm_buffer (a # as) b w =
     (let w1 = use_shm a w in
      if sm_buffer (rd_shm w1 a) = b then (True, w1) else find_shm_buffer as b w1)"

definition CheckSharedBufferExist :: "ptr \<Rightarrow> TEEC_Parameter \<Rightarrow> world \<Rightarrow> bool \<times> world" where
  "CheckSharedBufferExist context p w =
     (if context = NULL_ptr then (False, w)
      else case ask (use_ctx context w) of (lockRet, w1) \<Rightarrow>
        if lockRet \<noteq> 0 then (False, w1)
        else find_shm_buffer (shrd_mem_list (rd_ctx w1 context)) (as_buffer (rd_app_shm w1 (memref_parent p))) w1)"

definition TEEC_CheckMemRef :: "ptr \<Rightarrow> TEEC_Parameter \<Rightarrow> u32 \<Rightarrow> world \<Rightarrow> TEEC_Result \<times> world" where
  "TEEC_CheckMemRef context p paramType w =
     (if memref_parent p = NULL_ptr then (TEEC_ERROR_BAD_PARAMETERS, w)
      else
        let w1 = use_app_shm (memref_parent p) w; par = rd_app_shm w1 (memref_parent p) in
        if as_buffer par = NULL_ptr then (TEEC_ERROR_BAD_PARAMETERS, w1)
        else if as_size par = 0 then (TEEC_ERROR_BAD_PARAMETERS, w1)
        else if paramType = TEEC_MEMREF_PARTIAL_INPUT \<and> as_flags par AND TEEC_MEM_INPUT = 0
          then (TEEC_ERROR_BAD_PARAMETERS, w1)
        else if paramType = TEEC_MEMREF_PARTIAL_OUTPUT \<and> as_flags par AND TEEC_MEM_OUTPUT = 0
          then (TEEC_ERROR_BAD_PARAMETERS, w1)
        else if paramType = TEEC_MEMREF_PARTIAL_INOUT \<and>
                (as_flags par AND TEEC_MEM_INPUT = 0 \<or> as_flags par AND TEEC_MEM_OUTPUT = 0)
          then (TEEC_ERROR_BAD_PARAMETERS, w1)
        else if (paramType = TEEC_MEMREF_PARTIAL_INPUT \<or> paramType = TEEC_MEMREF_PARTIAL_OUTPUT \<or>
                 paramType = TEEC_MEMREF_PARTIAL_INOUT) \<and>
                memref_offset p + memref_size p > as_size par
          then (TEEC_ERROR_BAD_PARAMETERS, w1)
        else if as_is_allocated par then
          (case CheckSharedBufferExist context p w1 of (found, w2) \<Rightarrow>
             if \<not> found then (TEEC_ERROR_BAD_PARAMETERS, w2) else (TEEC_SUCCESS, w2))
        else (TEEC_SUCCESS, w1))"

text \<open>One turn of the loop of \<^verbatim>\<open>TEEC_CheckOperation\<close>; any other result than success ends the loop.\<close>

definition check_one :: "ptr \<Rightarrow> ptr \<Rightarrow> nat \<Rightarrow> world \<Rightarrow> TEEC_Result \<times> world" where
  "check_one context op i w =
     (let t = TEEC_PARAM_TYPE_GET (paramTypes (rd_op w op)) i; p = params (rd_op w op) i in
      if IS_TEMP_MEM t then (TEEC_CheckTmpRef p, w)
      else if IS_PARTIAL_MEM t then TEEC_CheckMemRef context p t w
      else if IS_VALUE_MEM t then (TEEC_SUCCESS, w)
      else if IS_ION t then
        (if ion_share_fd p < 0 \<or> ion_size p = 0 then (TEEC_ERROR_BAD_PARAMETERS, w) else (TEEC_SUCCESS, w))
      else if t = TEEC_NONE \<or> IS_SHARED_MEM t then (TEEC_SUCCESS, w)
      else (TEEC_ERROR_BAD_PARAMETERS, w))"

fun check_loop :: "ptr \<Rightarrow> ptr \<Rightarrow> nat list \<Rightarrow> world \<Rightarrow> TEEC_Result \<times> world" where
  "check_loop context op [] w = (TEEC_SUCCESS, w)"
| "check_loop context op (i # is) w =
     (case check_one context op i w of (ret, w1) \<Rightarrow>
        if ret \<noteq> TEEC_SUCCESS then (ret, w1) else check_loop context op is w1)"

definition TEEC_CheckOperation :: "ptr \<Rightarrow> ptr \<Rightarrow> world \<Rightarrow> TEEC_Result \<times> world" where
  "TEEC_CheckOperation context op w =
     (if op = NULL_ptr then (TEEC_SUCCESS, w)
      else let w1 = use_op op w in
        if started (rd_op w1 op) = 0 then (TEEC_ERROR_NOT_IMPLEMENTED, w1)
        else check_loop context op [0, 1, 2, 3] w1)"

definition CheckRegisterShm :: "ptr \<Rightarrow> world \<Rightarrow> TEEC_Result \<times> world" where
  "CheckRegisterShm op w =
     (if op = NULL_ptr then (TEEC_SUCCESS, w)
      else let w1 = use_op op w in
        if list_ex (\<lambda>i. TEEC_PARAM_TYPE_GET (paramTypes (rd_op w1 op)) i = TEEC_MEMREF_REGISTER_INOUT) [0, 1, 2, 3]
        then (TEEC_ERROR_BAD_PARAMETERS, w1) else (TEEC_SUCCESS, w1))"

section \<open>Types survive packing\<close>

lemma nibble_bits:
  assumes "(t :: u32) < 16" "bit t n"
  shows "n < 4"
proof -
  have "take_bit 4 t = t"
    using assms(1)
    by (simp add: word_unat_eq_iff unsigned_take_bit_eq take_bit_nat_eq_self_iff word_less_nat_alt)
  then have "bit (take_bit 4 t) n" using assms(2) by simp
  then show ?thesis unfolding bit_take_bit_iff by blast
qed

lemma TEEC_PARAM_TYPE_GET_TYPES:
  assumes "\<forall>i < 4. p i < 16" "i < 4"
  shows "TEEC_PARAM_TYPE_GET (TEEC_PARAM_TYPES (p 0) (p 1) (p 2) (p 3)) i = p i"
proof (rule bit_word_eqI)
  fix n assume n: "n < LENGTH(32)"
  have nib: "bit (p j) m \<Longrightarrow> m < 4" if "j < 4" for j m
    using nibble_bits assms(1) that by blast
  have get: "bit (TEEC_PARAM_TYPE_GET t j) n \<longleftrightarrow> n < 4 \<and> bit t (4 * j + n)" for t j
  proof -
    have "bit (0x0F :: u32) n \<longleftrightarrow> n < 4"
    proof -
      have m: "(0x0F :: u32) = mask 4" by (simp add: mask_eq_exp_minus_1)
      show ?thesis unfolding m bit_mask_iff using n by simp
    qed
    then show ?thesis by (auto simp: TEEC_PARAM_TYPE_GET_def bit_simps)
  qed
  have off: "\<not> bit (p 0) m" "\<not> bit (p (Suc 0)) m" "\<not> bit (p 2) m" "\<not> bit (p 3) m" if "4 \<le> m" for m
    using nib [of 0 m] nib [of 1 m] nib [of 2 m] nib [of 3 m] that by auto
  have i: "i = 0 \<or> i = 1 \<or> i = 2 \<or> i = 3" using assms(2) by auto
  show "bit (TEEC_PARAM_TYPE_GET (TEEC_PARAM_TYPES (p 0) (p 1) (p 2) (p 3)) i) n = bit (p i) n"
  proof (cases "n < 4")
    case True
    then show ?thesis using i n
      by (elim disjE) (simp_all add: get TEEC_PARAM_TYPES_def bit_simps off)
  next
    case False
    then show ?thesis using nib [OF assms(2), of n] get by blast
  qed
qed

lemma TEEC_PARAM_TYPE_GET_less: "TEEC_PARAM_TYPE_GET t i < 16"
proof -
  have "TEEC_PARAM_TYPE_GET t i \<le> 0x0F" by (simp add: TEEC_PARAM_TYPE_GET_def word_and_le1)
  then show ?thesis by (simp add: word_le_nat_alt word_less_nat_alt)
qed

section \<open>What the driver is told\<close>

text \<open>The reference table: the direction of a memory parameter and the type that reaches the driver.\<close>

datatype direction = DirIn | DirOut | DirInOut

fun partial_type :: "direction \<Rightarrow> u32" where
  "partial_type DirIn = TEEC_MEMREF_PARTIAL_INPUT"
| "partial_type DirOut = TEEC_MEMREF_PARTIAL_OUTPUT"
| "partial_type DirInOut = TEEC_MEMREF_PARTIAL_INOUT"

fun temp_type :: "direction \<Rightarrow> u32" where
  "temp_type DirIn = TEEC_MEMREF_TEMP_INPUT"
| "temp_type DirOut = TEEC_MEMREF_TEMP_OUTPUT"
| "temp_type DirInOut = TEEC_MEMREF_TEMP_INOUT"

definition mem_direction :: "TEEC_SharedMemory \<Rightarrow> u32 \<Rightarrow> direction" where
  "mem_direction par t =
     (if t = TEEC_MEMREF_PARTIAL_INPUT \<or> t = TEEC_MEMREF_WHOLE \<and> as_flags par = TEEC_MEM_INPUT then DirIn
      else if t = TEEC_MEMREF_PARTIAL_OUTPUT \<or> t = TEEC_MEMREF_WHOLE \<and> as_flags par = TEEC_MEM_OUTPUT then DirOut
      else DirInOut)"

definition driver_type :: "TEEC_SharedMemory \<Rightarrow> u32 \<Rightarrow> u32" where
  "driver_type par t =
     (if IS_PARTIAL_MEM t
      then (if as_is_allocated par then partial_type (mem_direction par t) else temp_type (mem_direction par t))
      else if IS_SHARED_MEM t \<and> \<not> as_is_allocated par
      then (if t = TEEC_MEMREF_SHARED_INOUT then TEEC_VALUE_OUTPUT else TEEC_VALUE_INOUT)
      else t)"

definition op_type :: "world \<Rightarrow> ptr \<Rightarrow> nat \<Rightarrow> u32" where
  "op_type w op i = TEEC_PARAM_TYPE_GET (paramTypes (rd_op w op)) i"

definition op_parent :: "world \<Rightarrow> ptr \<Rightarrow> nat \<Rightarrow> TEEC_SharedMemory" where
  "op_parent w op i = rd_app_shm w (memref_parent (params (rd_op w op) i))"

text \<open>The encoder changes only sizes of references: types and parents of the operation stay.\<close>

definition op_agree :: "ptr \<Rightarrow> world \<Rightarrow> world \<Rightarrow> bool" where
  "op_agree op w w' \<longleftrightarrow> app_shms w' = app_shms w \<and> paramTypes (rd_op w' op) = paramTypes (rd_op w op) \<and>
     (\<forall>i. word0 (params (rd_op w' op) i) = word0 (params (rd_op w op) i))"

lemma op_agree_refl [simp]: "op_agree op w w"
  by (simp add: op_agree_def)

lemma op_agree_trans: "op_agree op w w1 \<Longrightarrow> op_agree op w1 w2 \<Longrightarrow> op_agree op w w2"
  by (simp add: op_agree_def)

lemma op_agree_view: "op_agree op w w' \<Longrightarrow> op_type w' op = op_type w op \<and> op_parent w' op = op_parent w op"
  by (simp add: op_agree_def op_type_def op_parent_def rd_app_shm_def memref_parent_def fun_eq_iff)

lemma op_agree_marks [simp]:
  "op_agree op w (use_app_shm a w')  = op_agree op w w'"
  "op_agree op w (use_op a w')  = op_agree op w w'"
  "op_agree op w (snd (ask w')) = op_agree op w w'"
  by (simp_all add: op_agree_def use_app_shm_def use_op_def app_faulty_def rd_op_def ask_def)

lemma op_agree_size:
  "op_agree op w (upd_op op (\<lambda>o'. o'\<lparr>params := (params o')(i := (params (rd_op w op) i)\<lparr>word1 := n\<rparr>)\<rparr>) w)"
  by (auto simp: op_agree_def upd_op_def rd_op_def app_faulty_def split: option.splits)

lemma rd_op_use [simp]: "rd_op (use_app_shm a w) op = rd_op w op"
  by (simp add: use_app_shm_def rd_op_def app_faulty_def)

lemma TEEC_EncodePartialParam_agree: "op_agree op w (snd (TEEC_EncodePartialParam t op i q w))"
proof -
  define w1 where "w1 = use_app_shm (memref_parent (params (rd_op w op) i)) w"
  have 1: "op_agree op w w1" by (simp add: w1_def)
  have rd: "rd_op w1 op = rd_op w op" by (simp add: w1_def)
  have 2: "op_agree op w (upd_op op (\<lambda>o'. o'\<lparr>params := (params o')(i := (params (rd_op w op) i)\<lparr>word1 := n\<rparr>)\<rparr>) w1)" for n
    using op_agree_trans [OF 1 op_agree_size [of op w1 i n]] by (simp add: rd)
  show ?thesis
    using 1 2 by (auto simp: TEEC_EncodePartialParam_def Let_def w1_def [symmetric] split: prod.splits if_splits)
qed

lemma encode_one_type:
  assumes "encode_one op i cli w = (t', cli', w')"
  shows "t' = driver_type (op_parent w op i) (op_type w op i)" "op_agree op w w'"
proof -
  define p where "p = params (rd_op w op) i"
  define t where "t = op_type w op i"
  have agree: "op_agree op w (snd (TEEC_EncodePartialParam t op i (cc_params cli i) w))"
    by (rule TEEC_EncodePartialParam_agree)
  have par: "rd_app_shm (snd (TEEC_EncodePartialParam t op i (cc_params cli i) w)) (memref_parent p) = op_parent w op i"
    using agree by (simp add: op_agree_def rd_app_shm_def op_parent_def p_def)
  show "op_agree op w w'"
    using assms agree by (auto simp: encode_one_def Let_def op_type_def t_def split: if_splits prod.splits)
  show "t' = driver_type (op_parent w op i) (op_type w op i)"
    using assms par
    by (auto simp: encode_one_def Let_def op_type_def [symmetric] t_def [symmetric] p_def [symmetric]
        driver_type_def mem_direction_def TranslateParamType_def param_class_defs param_type_defs
        split: if_splits prod.splits)
qed

lemma driver_type_less: "t < 16 \<Longrightarrow> driver_type par t < 16"
  by (auto simp: driver_type_def mem_direction_def param_type_defs)

lemma op_type_less [simp]: "op_type w op i < 16"
  by (simp add: op_type_def TEEC_PARAM_TYPE_GET_less)

lemma TEEC_EncodeParam_types:
  assumes run: "TEEC_EncodeParam cli op w = (cli', w')" and i: "i < 4"
  shows "TEEC_PARAM_TYPE_GET (cc_paramTypes cli') i = driver_type (op_parent w op i) (op_type w op i)"
proof -
  obtain t0 cli0 w0 where e0: "encode_one op 0 cli w = (t0, cli0, w0)" by (cases "encode_one op 0 cli w")
  obtain t1 cli1 w1 where e1: "encode_one op 1 cli0 w0 = (t1, cli1, w1)" by (cases "encode_one op 1 cli0 w0")
  obtain t2 cli2 w2 where e2: "encode_one op 2 cli1 w1 = (t2, cli2, w2)" by (cases "encode_one op 2 cli1 w1")
  obtain t3 cli3 w3 where e3: "encode_one op 3 cli2 w2 = (t3, cli3, w3)" by (cases "encode_one op 3 cli2 w2")
  define f where "f = (\<lambda>j. driver_type (op_parent w op j) (op_type w op j))"
  have a0: "op_agree op w w0" using encode_one_type(2) [OF e0] .
  have a1: "op_agree op w w1" using op_agree_trans [OF a0 encode_one_type(2) [OF e1]] .
  have a2: "op_agree op w w2" using op_agree_trans [OF a1 encode_one_type(2) [OF e2]] .
  have "t0 = f 0" "t1 = f 1" "t2 = f 2" "t3 = f 3"
    using encode_one_type(1) [OF e0] encode_one_type(1) [OF e1] encode_one_type(1) [OF e2]
      encode_one_type(1) [OF e3] op_agree_view [OF a0] op_agree_view [OF a1] op_agree_view [OF a2]
    by (simp_all add: f_def)
  moreover have "cc_paramTypes cli' = TEEC_PARAM_TYPES t0 t1 t2 t3"
    using run e0 e1 e2 e3 by (auto simp: TEEC_EncodeParam_def)
  moreover have "\<forall>j < 4. f j < 16" by (simp add: f_def driver_type_less)
  ultimately show ?thesis using TEEC_PARAM_TYPE_GET_TYPES [of f i] i by (simp add: f_def)
qed

lemma TEEC_Encode_param_types:
  assumes run: "TEEC_Encode cli u sid cmd login op w = (TEEC_SUCCESS, cli', w')"
    and op: "op \<noteq> NULL_ptr" "paramTypes (rd_op w op) \<noteq> 0" and i: "i < 4"
  shows "TEEC_PARAM_TYPE_GET (cc_paramTypes cli') i = driver_type (op_parent w op i) (op_type w op i)"
proof -
  define w3 where "w3 = use_op op (snd (ask (snd (ask w))))"
  have agree: "op_agree op w w3" by (simp add: w3_def)
  then have "paramTypes (rd_op w3 op) \<noteq> 0" using op by (simp add: op_agree_def)
  then obtain c where "TEEC_EncodeParam c op w3 = (cli', w')"
    using run op(1)
    by (auto simp: TEEC_Encode_def Let_def w3_def TEEC_ERROR_BAD_PARAMETERS_def TEEC_SUCCESS_def
        split: prod.splits if_splits)
  from TEEC_EncodeParam_types [OF this i] show ?thesis using op_agree_view [OF agree] by simp
qed

section \<open>What the checks accept\<close>

text \<open>The reference predicate: one parameter is acceptable for a context.\<close>

definition shm_known :: "ptr \<Rightarrow> world \<Rightarrow> ptr \<Rightarrow> bool" where
  "shm_known context w b \<longleftrightarrow>
     context \<noteq> NULL_ptr \<and> (\<exists>m \<in> set (shrd_mem_list (rd_ctx w context)). sm_buffer (rd_shm w m) = b)"

definition flags_allow :: "u32 \<Rightarrow> u32 \<Rightarrow> bool" where
  "flags_allow t flags \<longleftrightarrow>
     (t = TEEC_MEMREF_PARTIAL_INPUT \<or> t = TEEC_MEMREF_PARTIAL_INOUT \<longrightarrow> flags AND TEEC_MEM_INPUT \<noteq> 0) \<and>
     (t = TEEC_MEMREF_PARTIAL_OUTPUT \<or> t = TEEC_MEMREF_PARTIAL_INOUT \<longrightarrow> flags AND TEEC_MEM_OUTPUT \<noteq> 0)"

definition memref_legal :: "ptr \<Rightarrow> world \<Rightarrow> TEEC_Parameter \<Rightarrow> u32 \<Rightarrow> bool" where
  "memref_legal context w p t \<longleftrightarrow>
     (let par = rd_app_shm w (memref_parent p) in
        memref_parent p \<noteq> NULL_ptr \<and> as_buffer par \<noteq> NULL_ptr \<and> as_size par \<noteq> 0 \<and> flags_allow t (as_flags par) \<and>
        (t = TEEC_MEMREF_WHOLE \<or> memref_offset p + memref_size p \<le> as_size par) \<and>
        (as_is_allocated par \<longrightarrow> shm_known context w (as_buffer par)))"

definition param_legal :: "ptr \<Rightarrow> world \<Rightarrow> TEEC_Parameter \<Rightarrow> u32 \<Rightarrow> bool" where
  "param_legal context w p t \<longleftrightarrow>
     (if IS_TEMP_MEM t then (tmpref_buffer p = NULL_ptr \<longleftrightarrow> tmpref_size p = 0)
      else if IS_PARTIAL_MEM t then memref_legal context w p t
      else if IS_ION t then 0 \<le> ion_share_fd p \<and> ion_size p \<noteq> 0
      else t = TEEC_NONE \<or> IS_VALUE_MEM t \<or> IS_SHARED_MEM t)"

lemma find_shm_buffer_spec:
  "find_shm_buffer ms b w = (r, w') \<Longrightarrow> core w' = core w \<and> (r \<longleftrightarrow> (\<exists>m \<in> set ms. sm_buffer (rd_shm w m) = b))"
  by (induction ms b w rule: find_shm_buffer.induct) (auto simp: Let_def split: if_splits)

lemma CheckSharedBufferExist_spec:
  assumes run: "CheckSharedBufferExist context p w = (r, w')" and locks: "\<forall>n. answers w n = 0"
  shows "core w' = core w \<and> (r \<longleftrightarrow> shm_known context w (as_buffer (rd_app_shm w (memref_parent p))))"
proof (cases "context = NULL_ptr")
  case False
  obtain l w1 where a: "ask (use_ctx context w) = (l, w1)" by (cases "ask (use_ctx context w)")
  have w1: "core w1 = core w" using core_ask [OF a] by simp
  have "answers (use_ctx context w) = answers w" by (rule rd_same) simp
  then have "l = 0" using core_ask [OF a] locks by simp
  then show ?thesis
    using run a False find_shm_buffer_spec [of _ _ w1] w1 rd_same [OF w1]
    by (fastforce simp: CheckSharedBufferExist_def shm_known_def)
qed (use run in \<open>simp add: CheckSharedBufferExist_def shm_known_def\<close>)

lemma ret_codes_distinct [simp]:
  "TEEC_ERROR_BAD_PARAMETERS \<noteq> TEEC_SUCCESS" "TEEC_ERROR_NOT_IMPLEMENTED \<noteq> TEEC_SUCCESS"
  "TEEC_SUCCESS \<noteq> TEEC_ERROR_BAD_PARAMETERS" "TEEC_SUCCESS \<noteq> TEEC_ERROR_NOT_IMPLEMENTED"
  by (simp_all add: TEEC_ERROR_BAD_PARAMETERS_def TEEC_ERROR_NOT_IMPLEMENTED_def TEEC_SUCCESS_def)

lemma TEEC_CheckMemRef_spec:
  assumes run: "TEEC_CheckMemRef context p t w = (r, w')" and locks: "\<forall>n. answers w n = 0"
    and t: "IS_PARTIAL_MEM t"
  shows "core w' = core w \<and> (r = TEEC_SUCCESS \<longleftrightarrow> memref_legal context w p t)"
proof -
  define w1 where "w1 = use_app_shm (memref_parent p) w"
  have w1: "core w1 = core w" by (simp add: w1_def)
  obtain f w2 where f: "CheckSharedBufferExist context p w1 = (f, w2)" by (cases "CheckSharedBufferExist context p w1")
  have f_spec: "core w2 = core w" "f \<longleftrightarrow> shm_known context w (as_buffer (rd_app_shm w (memref_parent p)))"
    using CheckSharedBufferExist_spec [OF f] locks w1 rd_same [OF w1] by (auto simp: shm_known_def)
  have t4: "t = TEEC_MEMREF_WHOLE \<or> t = TEEC_MEMREF_PARTIAL_INPUT \<or> t = TEEC_MEMREF_PARTIAL_OUTPUT \<or>
            t = TEEC_MEMREF_PARTIAL_INOUT"
    using t by (simp add: IS_PARTIAL_MEM_def)
  have ne: "TEEC_MEMREF_WHOLE \<noteq> TEEC_MEMREF_PARTIAL_INPUT" "TEEC_MEMREF_WHOLE \<noteq> TEEC_MEMREF_PARTIAL_OUTPUT"
    "TEEC_MEMREF_WHOLE \<noteq> TEEC_MEMREF_PARTIAL_INOUT" "TEEC_MEMREF_PARTIAL_INPUT \<noteq> TEEC_MEMREF_PARTIAL_OUTPUT"
    "TEEC_MEMREF_PARTIAL_INPUT \<noteq> TEEC_MEMREF_PARTIAL_INOUT" "TEEC_MEMREF_PARTIAL_OUTPUT \<noteq> TEEC_MEMREF_PARTIAL_INOUT"
    by (simp_all add: param_type_defs)
  note ne = ne ne [symmetric]
  show ?thesis
    using run f f_spec w1 t4
    by (elim disjE; simp add: TEEC_CheckMemRef_def memref_legal_def flags_allow_def Let_def ne
        w1_def [symmetric] rd_same [OF w1] not_less split: if_splits) auto
qed

lemma check_one_spec:
  assumes run: "check_one context op i w = (r, w')" and locks: "\<forall>n. answers w n = 0"
  shows "core w' = core w \<and> (r = TEEC_SUCCESS \<longleftrightarrow> param_legal context w (params (rd_op w op) i) (op_type w op i))"
proof -
  define t p where "t = op_type w op i" and "p = params (rd_op w op) i"
  have "check_one context op i w =
     (if IS_TEMP_MEM t then (TEEC_CheckTmpRef p, w)
      else if IS_PARTIAL_MEM t then TEEC_CheckMemRef context p t w
      else if IS_VALUE_MEM t then (TEEC_SUCCESS, w)
      else if IS_ION t then
        (if ion_share_fd p < 0 \<or> ion_size p = 0 then (TEEC_ERROR_BAD_PARAMETERS, w) else (TEEC_SUCCESS, w))
      else if t = TEEC_NONE \<or> IS_SHARED_MEM t then (TEEC_SUCCESS, w)
      else (TEEC_ERROR_BAD_PARAMETERS, w))"
    unfolding check_one_def Let_def t_def p_def op_type_def ..
  note run = run [unfolded this]
  note defs = param_legal_def
  have "core w' = core w \<and> (r = TEEC_SUCCESS \<longleftrightarrow> param_legal context w p t)"
  proof (cases "IS_TEMP_MEM t")
    case True
    then show ?thesis using run by (auto simp: defs TEEC_CheckTmpRef_def split: if_splits)
  next
    case temp: False
    show ?thesis
    proof (cases "IS_PARTIAL_MEM t")
      case True
      then have "TEEC_CheckMemRef context p t w = (r, w')" using run temp by (simp add: defs)
      from TEEC_CheckMemRef_spec [OF this locks True] show ?thesis using True temp by (simp add: defs)
    next
      case False
      have "IS_ION t \<Longrightarrow> \<not> IS_VALUE_MEM t" by (auto simp: param_class_defs param_type_defs)
      then show ?thesis using run temp False by (auto simp: defs split: if_splits)
    qed
  qed
  then show ?thesis by (simp add: p_def t_def)
qed

lemma check_loop_spec:
  assumes "check_loop context op is w = (r, w')" "\<forall>n. answers w n = 0"
  shows "core w' = core w \<and>
    (r = TEEC_SUCCESS \<longleftrightarrow> (\<forall>i \<in> set is. param_legal context w (params (rd_op w op) i) (op_type w op i)))"
  using assms
proof (induction "is" arbitrary: w)
  case (Cons i "is")
  obtain r1 w1 where one: "check_one context op i w = (r1, w1)" by (cases "check_one context op i w")
  note s1 = check_one_spec [OF one Cons.prems(2)]
  have w1: "core w1 = core w" using s1 by blast
  have same: "param_legal context w1 p t = param_legal context w p t" "op_type w1 op j = op_type w op j" for p t j
    by (simp_all add: param_legal_def memref_legal_def shm_known_def op_type_def Let_def rd_same [OF w1])
  show ?case
  proof (cases "r1 = TEEC_SUCCESS")
    case True
    then have "check_loop context op is w1 = (r, w')" using Cons.prems(1) one by simp
    from Cons.IH [OF this] show ?thesis
      using Cons.prems(2) s1 True w1 by (simp add: same rd_same [OF w1])
  next
    case False
    then show ?thesis using Cons.prems(1) one s1 by auto
  qed
qed simp

section \<open>A concrete operation\<close>

text \<open>A registered block of 64 bytes at \<open>0x5000\<close>, described at \<open>0x2000\<close>, and operations on it at \<open>0x1000\<close>.\<close>

definition ex_par :: TEEC_SharedMemory where
  "ex_par = \<lparr>as_buffer = 0x5000, as_size = 64, as_flags = TEEC_MEM_INOUT, as_ops_cnt = 1,
     as_is_allocated = False, as_context = 0x3000\<rparr>"

definition ex_ref :: "u32 \<Rightarrow> u32 \<Rightarrow> TEEC_Parameter" where
  "ex_ref off sz = \<lparr>word0 = 0x2000, word1 = sz, word2 = off\<rparr>"

definition ex_op :: "u32 \<Rightarrow> TEEC_Parameter \<Rightarrow> TEEC_Operation" where
  "ex_op t p = \<lparr>started = 1, paramTypes = t, params = (\<lambda>_. p), op_session = 0, cancel_flag = False\<rparr>"

definition ex_world :: "TEEC_Operation \<Rightarrow> world" where
  "ex_world opn = \<lparr>w_ctxs = Map.empty, g_teecContextList = [], w_sessions = Map.empty, w_shms = Map.empty,
     app_ctxs = Map.empty, app_shms = [0x2000 \<mapsto> ex_par], app_ops = [0x1000 \<mapsto> opn], w_blocks = Map.empty, open_fds = (\<lambda>_. False),
     answers = (\<lambda>_. 0), tick = 0, calls = [], fault = False, app_fault = False\<rparr>"

lemma ex_world_simps [simp]:
  "answers (ex_world opn) = (\<lambda>_. 0)" "rd_op (ex_world opn) 0x1000 = opn" "rd_app_shm (ex_world opn) 0x2000 = ex_par"
  "app_ops (ex_world opn) 0x1000 = Some opn" "app_shms (ex_world opn) 0 = None" "app_fault (ex_world opn) = False"
  by (simp_all add: ex_world_def rd_op_def rd_app_shm_def)

section \<open>Properties\<close>

text \<open>
  C7. \<^verbatim>\<open>TEEC_CheckOperation\<close> accepts exactly the legal operations: started, and with four legal parameters
  (both or neither of a temporary buffer's address and size; references to a live parent that allow the
  access and, for allocated memory, that belong to the context; valid ion buffers; known types). It changes
  nothing.
\<close>

theorem TEEC_CheckOperation_exact:
  assumes run: "TEEC_CheckOperation context op w = (ret, w')" and locks: "\<forall>n. answers w n = 0"
    and op: "op \<noteq> NULL_ptr"
  shows "core w' = core w \<and>
    (ret = TEEC_SUCCESS \<longleftrightarrow>
       started (rd_op w op) \<noteq> 0 \<and> (\<forall>i < 4. param_legal context w (params (rd_op w op) i) (op_type w op i)))"
proof -
  define w1 where "w1 = use_op op w"
  have w1: "core w1 = core w" by (simp add: w1_def)
  have same: "param_legal context w1 p t = param_legal context w p t" "op_type w1 op j = op_type w op j" for p t j
    by (simp_all add: param_legal_def memref_legal_def shm_known_def op_type_def Let_def rd_same [OF w1])
  have i4: "(\<forall>i < 4. P i) = (\<forall>i \<in> set [0, 1, 2, 3]. P i)" for P :: "nat \<Rightarrow> bool"
    by (auto simp: less_Suc_eq numeral_eq_Suc)
  show ?thesis
  proof (cases "started (rd_op w op) = 0")
    case True
    then show ?thesis using run op w1
      by (auto simp: TEEC_CheckOperation_def Let_def w1_def [symmetric] rd_same [OF w1])
  next
    case False
    then have loop: "check_loop context op [0, 1, 2, 3] w1 = (ret, w')"
      using run op by (simp add: TEEC_CheckOperation_def Let_def w1_def [symmetric] rd_same [OF w1])
    have "\<forall>n. answers w1 n = 0" using locks rd_same(7) [OF w1] by simp
    from check_loop_spec [OF loop this] show ?thesis
      unfolding i4 using False by (simp add: same rd_same [OF w1] w1)
  qed
qed


text \<open>
  C38. A zero-copy parameter whose parent is registered, not allocated, reaches the driver as a value: the
  subtraction that turns partial references into temporary ones turns \<^verbatim>\<open>TEEC_MEMREF_SHARED_INOUT\<close> into
  \<^verbatim>\<open>TEEC_VALUE_OUTPUT\<close> and \<^verbatim>\<open>TEEC_MEMREF_REGISTER_INOUT\<close> into \<^verbatim>\<open>TEEC_VALUE_INOUT\<close>.
\<close>

theorem TEEC_Encode_registered_shared_becomes_value:
  assumes run: "TEEC_Encode cli u sid cmd login op w = (TEEC_SUCCESS, cli', w')"
    and op: "op \<noteq> NULL_ptr" "paramTypes (rd_op w op) \<noteq> 0" and i: "i < 4"
    and par: "\<not> as_is_allocated (op_parent w op i)"
  shows "(op_type w op i = TEEC_MEMREF_SHARED_INOUT \<longrightarrow> TEEC_PARAM_TYPE_GET (cc_paramTypes cli') i = TEEC_VALUE_OUTPUT) \<and>
         (op_type w op i = TEEC_MEMREF_REGISTER_INOUT \<longrightarrow> TEEC_PARAM_TYPE_GET (cc_paramTypes cli') i = TEEC_VALUE_INOUT)"
  using TEEC_Encode_param_types [OF run op i] par
  by (auto simp: driver_type_def param_class_defs param_type_defs)

text \<open>
  C36. The bound check of a partial reference wraps: offset and size are added in 32 bits, so a reference
  whose window ends beyond $2^{32}$ and wraps into the block is accepted although it lies outside.
\<close>

theorem TEEC_CheckMemRef_wraps:
  assumes ptr: "memref_parent p \<noteq> NULL_ptr" "rd_app_shm w (memref_parent p) = par" "as_buffer par \<noteq> NULL_ptr"
    and reg: "\<not> as_is_allocated par" and t: "IS_PARTIAL_MEM t" "flags_allow t (as_flags par)"
    and wrap: "unat (memref_offset p) + unat (memref_size p) = 2 ^ 32 + k" "0 < k" "k \<le> unat (as_size par)"
  shows "fst (TEEC_CheckMemRef context p t w) = TEEC_SUCCESS \<and>
         unat (as_size par) < unat (memref_offset p) + unat (memref_size p)"
proof -
  have small: "unat (as_size par) < 4294967296" by (rule unat_u32_less)
  have "unat (memref_offset p + memref_size p) = (unat (memref_offset p) + unat (memref_size p)) mod 4294967296"
    by (simp add: unat_word_ariths)
  also have "\<dots> = k" unfolding wrap(1) using wrap(3) small by simp
  finally have le: "memref_offset p + memref_size p \<le> as_size par"
    using wrap(3) by (simp add: word_le_nat_alt)
  have "as_size par \<noteq> 0" using wrap(2,3) by auto
  then have "fst (TEEC_CheckMemRef context p t w) = TEEC_SUCCESS"
    using ptr reg t(2) le
    by (auto simp: TEEC_CheckMemRef_def Let_def flags_allow_def not_less)
  then show ?thesis using wrap small by simp
qed

text \<open>
  C37. Zero-copy parameters are not checked: an operation with a \<^verbatim>\<open>TEEC_MEMREF_SHARED_INOUT\<close> parameter
  whose parent is null passes \<^verbatim>\<open>TEEC_CheckOperation\<close>, and \<^verbatim>\<open>TEEC_Encode\<close> then reads through the null
  pointer.
\<close>

theorem null_shared_parent_is_dereferenced:
  assumes op: "op \<noteq> NULL_ptr" "app_ops w op = Some opn" "started opn \<noteq> 0"
    and types: "paramTypes opn = TEEC_PARAM_TYPES TEEC_MEMREF_SHARED_INOUT TEEC_NONE TEEC_NONE TEEC_NONE"
    and null: "memref_parent (params opn 0) = NULL_ptr" "app_shms w NULL_ptr = None"
    and env: "\<not> app_fault w" "\<forall>n. answers w n = 0"
  shows "\<exists>w1. TEEC_CheckOperation context op w = (TEEC_SUCCESS, w1) \<and> \<not> app_fault w1 \<and>
     app_fault (snd (snd (TEEC_Encode cli u sid cmd login op w1)))"
proof -
  have rd: "rd_op w op = opn" using op by (simp add: rd_op_def)
  have ty: "op_type w op 0 = TEEC_MEMREF_SHARED_INOUT" "op_type w op (Suc 0) = TEEC_NONE"
    "op_type w op 2 = TEEC_NONE" "op_type w op 3 = TEEC_NONE" "paramTypes opn = 10"
    by (simp_all add: op_type_def rd types TEEC_PARAM_TYPES_def TEEC_PARAM_TYPE_GET_def param_type_defs)
  have use: "use_op op w = w" using op by (simp add: use_op_def)
  have "check_one context op i w = (TEEC_SUCCESS, w)" if "i \<in> {0, 1, 2, 3}" for i
    using that ty unfolding check_one_def Let_def op_type_def [symmetric]
    by (auto simp: param_class_defs param_type_defs)
  then have chk: "TEEC_CheckOperation context op w = (TEEC_SUCCESS, w)"
    using op by (simp add: TEEC_CheckOperation_def Let_def use rd)
  define w2 where "w2 = w\<lparr>tick := Suc (Suc (tick w))\<rparr>"
  have w2: "use_op op w2 = w2" "rd_op w2 op = opn" "app_fault (use_app_shm NULL_ptr w2)"
    using op null by (simp_all add: w2_def use_op_def rd_op_def use_app_shm_def app_faulty_def)
  have enc: "TEEC_Encode cli u sid cmd login op w = (TEEC_SUCCESS, TEEC_EncodeParam c op w2)"
    if "c = zero_cli\<lparr>cc_session_id := sid, cc_cmd_id := cmd, returns_code := 0,
             returns_origin := TEEC_ORIGIN_API, cc_login := login, cc_uuid := uuid_bytes u,
             cc_started := cancel_flag opn\<rparr>" for c
    using that op env w2 by (simp add: TEEC_Encode_def ask_def Let_def w2_def [symmetric] ty(5) split: prod.splits)
  have part: "app_fault (snd (TEEC_EncodePartialParam TEEC_MEMREF_SHARED_INOUT op 0 q w2))" for q
    using w2 null by (simp add: TEEC_EncodePartialParam_def Let_def param_type_defs)
  have none: "snd (snd (encode_one op i c w')) = w'" if "op_type w' op i = TEEC_NONE" for i c w'
    using that unfolding encode_one_def Let_def op_type_def [symmetric]
    by (simp add: param_class_defs param_type_defs)
  have ty2: "op_type w2 op i = op_type w op i" for i using rd w2(2) by (simp add: op_type_def)
  have "app_fault (snd (TEEC_EncodeParam c op w2))" for c
  proof -
    obtain t0 cli0 v0 where e0: "encode_one op 0 c w2 = (t0, cli0, v0)" by (cases "encode_one op 0 c w2")
    have v0: "v0 = snd (TEEC_EncodePartialParam TEEC_MEMREF_SHARED_INOUT op 0 (cc_params c 0) w2)"
      using e0 ty(1) ty2 [of 0] unfolding encode_one_def Let_def op_type_def [symmetric]
      by (auto simp: param_class_defs param_type_defs split: prod.splits)
    then have f: "app_fault v0" using part by simp
    have view: "op_type v0 op = op_type w2 op" using op_agree_view [OF encode_one_type(2) [OF e0]] by blast
    obtain t1 cli1 v1 where e1: "encode_one op 1 cli0 v0 = (t1, cli1, v1)" by (cases "encode_one op 1 cli0 v0")
    have "v1 = v0" using none [of v0 1 cli0] e1 view ty ty2 by simp
    moreover obtain t2 cli2 v2 where e2: "encode_one op 2 cli1 v1 = (t2, cli2, v2)" by (cases "encode_one op 2 cli1 v1")
    moreover have "v2 = v1" using none [of v1 2 cli1] e2 view ty ty2 calculation(1) by simp
    moreover obtain t3 cli3 v3 where e3: "encode_one op 3 cli2 v2 = (t3, cli3, v3)" by (cases "encode_one op 3 cli2 v2")
    moreover have "v3 = v2" using none [of v2 3 cli2] e3 view ty ty2 calculation by simp
    ultimately show ?thesis using e0 e1 f by (simp add: TEEC_EncodeParam_def)
  qed
  then show ?thesis using chk env(1) enc by auto
qed

section \<open>Witnesses\<close>

theorem TEEC_CheckOperation_exact_witness:
  "core (snd (TEEC_CheckOperation 0 0x1000 (ex_world (ex_op TEEC_MEMREF_WHOLE (ex_ref 0 0))))) =
     core (ex_world (ex_op TEEC_MEMREF_WHOLE (ex_ref 0 0))) \<and>
   fst (TEEC_CheckOperation 0 0x1000 (ex_world (ex_op TEEC_MEMREF_WHOLE (ex_ref 0 0)))) = TEEC_SUCCESS"
proof -
  define w where "w = ex_world (ex_op TEEC_MEMREF_WHOLE (ex_ref 0 0))"
  have type_0: "op_type w 0x1000 i = (if i = 0 then TEEC_MEMREF_WHOLE else TEEC_NONE)" if "i < 4" for i
  proof -
    have "i = 0 \<or> i = 1 \<or> i = 2 \<or> i = 3" using that by auto
    then show ?thesis
      by (elim disjE) (simp_all add: w_def op_type_def ex_op_def TEEC_PARAM_TYPE_GET_def param_type_defs)
  qed
  have "param_legal 0 w (params (rd_op w 0x1000) i) (op_type w 0x1000 i)" if "i < 4" for i
    using type_0 [OF that]
    by (simp add: w_def param_legal_def memref_legal_def flags_allow_def Let_def ex_op_def ex_ref_def
        memref_parent_def ex_par_def param_class_defs param_type_defs)
  moreover have "\<forall>n. answers w n = 0" "started (rd_op w 0x1000) \<noteq> 0" by (simp_all add: w_def ex_op_def)
  ultimately show ?thesis
    using TEEC_CheckOperation_exact [of 0 "0x1000" w "fst (TEEC_CheckOperation 0 0x1000 w)"
        "snd (TEEC_CheckOperation 0 0x1000 w)"]
    by (simp add: w_def [symmetric])
qed

lemma ex_op_type:
  "t < 16 \<Longrightarrow> op_type (ex_world (ex_op t p)) 0x1000 0 = t"
proof -
  assume "t < 16"
  then have "TEEC_PARAM_TYPE_GET (TEEC_PARAM_TYPES t 0 0 0) 0 = t"
    using TEEC_PARAM_TYPE_GET_TYPES [of "\<lambda>i. if i = 0 then t else 0" 0] by simp
  then show "op_type (ex_world (ex_op t p)) 0x1000 0 = t"
    by (simp add: op_type_def ex_op_def TEEC_PARAM_TYPES_def)
qed

lemma ex_encode: "\<exists>cli' w'. TEEC_Encode zero_cli zero_uuid 1 2 login 0x1000 (ex_world (ex_op t p)) = (TEEC_SUCCESS, cli', w')"
  by (auto simp: TEEC_Encode_def ask_def Let_def split: prod.splits)


theorem TEEC_Encode_registered_shared_becomes_value_witness:
  "\<exists>cli' w'. TEEC_Encode zero_cli zero_uuid 1 2 \<lparr>lg_method = 0, lg_mdata = 0\<rparr> 0x1000
       (ex_world (ex_op TEEC_MEMREF_SHARED_INOUT (ex_ref 0 16))) = (TEEC_SUCCESS, cli', w') \<and>
     TEEC_PARAM_TYPE_GET (cc_paramTypes cli') 0 = TEEC_VALUE_OUTPUT"
proof -
  define w where "w = ex_world (ex_op TEEC_MEMREF_SHARED_INOUT (ex_ref 0 16))"
  obtain cli' w' where run: "TEEC_Encode zero_cli zero_uuid 1 2 \<lparr>lg_method = 0, lg_mdata = 0\<rparr> 0x1000 w
      = (TEEC_SUCCESS, cli', w')" unfolding w_def using ex_encode by blast
  have ty: "op_type w 0x1000 0 = TEEC_MEMREF_SHARED_INOUT"
    unfolding w_def by (rule ex_op_type) (simp add: param_type_defs)
  have par: "\<not> as_is_allocated (op_parent w 0x1000 0)"
    by (simp add: w_def op_parent_def ex_op_def ex_ref_def memref_parent_def ex_par_def)
  have nz: "paramTypes (rd_op w 0x1000) \<noteq> 0" by (simp add: w_def ex_op_def param_type_defs)
  have "TEEC_PARAM_TYPE_GET (cc_paramTypes cli') 0 = TEEC_VALUE_OUTPUT"
    using TEEC_Encode_registered_shared_becomes_value [OF run _ nz _ par] by (simp add: ty)
  then show ?thesis using run by (auto simp: w_def)
qed

theorem TEEC_CheckMemRef_wraps_witness:
  "fst (TEEC_CheckMemRef 0 (ex_ref 0xFFFFFFF0 32) TEEC_MEMREF_PARTIAL_INPUT
         (ex_world (ex_op TEEC_MEMREF_PARTIAL_INPUT (ex_ref 0xFFFFFFF0 32)))) = TEEC_SUCCESS"
  using TEEC_CheckMemRef_wraps [of "ex_ref 0xFFFFFFF0 32"
      "ex_world (ex_op TEEC_MEMREF_PARTIAL_INPUT (ex_ref 0xFFFFFFF0 32))" ex_par
      TEEC_MEMREF_PARTIAL_INPUT 16 0]
  by (simp add: ex_ref_def ex_par_def memref_parent_def memref_offset_def memref_size_def flags_allow_def
      param_class_defs) (simp add: param_type_defs TEEC_MEM_INOUT_def TEEC_MEM_INPUT_def)

theorem null_shared_parent_is_dereferenced_witness:
  "\<exists>w1. TEEC_CheckOperation 0 0x1000
      (ex_world (ex_op TEEC_MEMREF_SHARED_INOUT \<lparr>word0 = 0, word1 = 8, word2 = 0\<rparr>)) = (TEEC_SUCCESS, w1) \<and> \<not> app_fault w1 \<and>
     app_fault (snd (snd (TEEC_Encode zero_cli zero_uuid 1 2 \<lparr>lg_method = 0, lg_mdata = 0\<rparr> 0x1000 w1)))"
  by (rule null_shared_parent_is_dereferenced
        [where opn = "ex_op TEEC_MEMREF_SHARED_INOUT \<lparr>word0 = 0, word1 = 8, word2 = 0\<rparr>"])
     (simp_all add: ex_op_def memref_parent_def TEEC_PARAM_TYPES_def TEEC_NONE_def)

end
