(* ===== verification/C_Strings.thy ===== *)
theory C_Strings
  imports Prelude
begin

text \<open>
  The C string functions of the standard library that the code calls. A string is the characters before its
  terminating NUL. \<open>c_str\<close> reads a string from a buffer of bytes.
\<close>

definition strnlen :: "string \<Rightarrow> nat \<Rightarrow> nat" where "strnlen s n = min (length s) n"

definition strstr :: "string \<Rightarrow> string \<Rightarrow> bool" where
  "strstr hay needle \<longleftrightarrow> list_ex (\<lambda>n. take (length needle) (drop n hay) = needle) [0..<Suc (length hay)]"

text \<open>\<open>s == strstr(s, p)\<close>: the first occurrence is at the start.\<close>

definition starts_with :: "string \<Rightarrow> string \<Rightarrow> bool" where
  "starts_with s p \<longleftrightarrow> take (length p) s = p"

definition strrchr :: "string \<Rightarrow> char \<Rightarrow> string option" where
  "strrchr s c = (if c \<in> set s then Some (c # rev (takeWhile (\<lambda>x. x \<noteq> c) (rev s))) else None)"

text \<open>The first call of \<^verbatim>\<open>strtok_r\<close> with one delimiter: the token and what is left.\<close>

definition strtok_r :: "string \<Rightarrow> char \<Rightarrow> (string \<times> string) option" where
  "strtok_r s c =
     (let s' = dropWhile (\<lambda>x. x = c) s in
      if s' = [] then None else Some (takeWhile (\<lambda>x. x \<noteq> c) s', drop 1 (dropWhile (\<lambda>x. x \<noteq> c) s')))"

text \<open>The decimal digits of \<^verbatim>\<open>%u\<close>.\<close>

fun dec_str :: "nat \<Rightarrow> string" where
  "dec_str n = (if n < 10 then [] else dec_str (n div 10)) @ [''0123456789'' ! (n mod 10)]"

declare dec_str.simps [simp del]

text \<open>The string at an offset of a buffer, and whether it is terminated within the buffer.\<close>

definition c_str :: "nat \<Rightarrow> u8 list \<Rightarrow> string \<times> bool" where
  "c_str off buf = (map (\<lambda>b. char_of (unat b)) (takeWhile (\<lambda>b. b \<noteq> 0) (drop off buf)), 0 \<in> set (drop off buf))"

section \<open>Lemmas\<close>

lemma strstr_iff: "strstr s p \<longleftrightarrow> (\<exists>as bs. s = as @ p @ bs)"
proof
  assume "strstr s p"
  then obtain n where n: "take (length p) (drop n s) = p" unfolding strstr_def list_ex_iff by blast
  have "s = take n s @ take (length p) (drop n s) @ drop (length p) (drop n s)"
    by (simp only: append_take_drop_id)
  then show "\<exists>as bs. s = as @ p @ bs" unfolding n by blast
next
  assume "\<exists>as bs. s = as @ p @ bs"
  then obtain as bs where "s = as @ p @ bs" by blast
  then show "strstr s p" by (auto simp: strstr_def list_ex_iff intro!: bexI [of _ "length as"])
qed

lemma starts_with_iff: "starts_with s p \<longleftrightarrow> (\<exists>bs. s = p @ bs)"
  by (metis append_eq_conv_conj append_take_drop_id starts_with_def)

end
