(* ===== verification/App_Load.thy ===== *)
theory App_Load
  imports Client_World C_Strings
begin

text \<open>
  Loading of trusted applications and secure files: \<^verbatim>\<open>src/libteec_vendor/tee_client_app_load.c\<close> and
  \<^verbatim>\<open>tee_load_sec_file.c\<close>. A \<^verbatim>\<open>FILE\<close> is its bytes and a position; the file system (\<^verbatim>\<open>realpath\<close>,
  \<^verbatim>\<open>fopen\<close>) and \<^verbatim>\<open>snprintf_s\<close> of libboundscheck are parameters, reads and seeks may fail. The result of
  a load is a heap block whose address and size are stored in the request for the driver.
\<close>

section \<open>Files and the environment\<close>

record CFILE =
  f_bytes :: "u8 list"
  f_pos :: nat

record load_env =
  env_realpath :: "string \<Rightarrow> string option"
  env_fopen :: "string \<Rightarrow> u8 list option"
  env_snprintf_s :: "nat \<Rightarrow> nat \<Rightarrow> string \<Rightarrow> int"

text \<open>
  \<open>env_snprintf_s destMax count text\<close> is the result of printing \<open>text\<close>. Documented behaviour: the length
  of the text when it fits in \<open>count\<close> and \<open>count\<close> is below the size of the destination, negative when
  the text is longer than \<open>count\<close>.
\<close>

definition snprintf_s_ok :: "(nat \<Rightarrow> nat \<Rightarrow> string \<Rightarrow> int) \<Rightarrow> bool" where
  "snprintf_s_ok f \<longleftrightarrow>
     (\<forall>destMax count s. count < destMax \<longrightarrow> length s \<le> count \<longrightarrow> f destMax count s = int (length s)) \<and>
     (\<forall>destMax count s. count < length s \<longrightarrow> f destMax count s < 0)"

text \<open>\<open>fread_bytes n\<close>: one item of \<open>n\<close> bytes, or \<^const>\<open>None\<close> at the end of the file or after an error.\<close>

definition fread_bytes :: "nat \<Rightarrow> CFILE \<Rightarrow> world \<Rightarrow> u8 list option \<times> CFILE \<times> world" where
  "fread_bytes n fp w =
     (case ask w of (e, w1) \<Rightarrow>
        if e \<noteq> 0 \<or> length (f_bytes fp) < f_pos fp + n
        then (None, fp\<lparr>f_pos := max (f_pos fp) (length (f_bytes fp))\<rparr>, w1)
        else (Some (take n (drop (f_pos fp) (f_bytes fp))), fp\<lparr>f_pos := f_pos fp + n\<rparr>, w1))"

definition fseek_to :: "nat \<Rightarrow> CFILE \<Rightarrow> world \<Rightarrow> int \<times> CFILE \<times> world" where
  "fseek_to n fp w = (case ask w of (r, w1) \<Rightarrow> (r, if r = 0 then fp\<lparr>f_pos := n\<rparr> else fp, w1))"

section \<open>The image of a trusted application\<close>

definition MAX_IMAGE_LEN :: u32 where "MAX_IMAGE_LEN = 0x800000"
definition TA_HEAD_MAGIC1 :: u32 where "TA_HEAD_MAGIC1 = 0xA5A55A5A"
definition TA_HEAD_MAGIC2 :: u16 where "TA_HEAD_MAGIC2 = 0x55AA"
definition CIPHER_LAYER_VERSION :: u32 where "CIPHER_LAYER_VERSION = 3"

definition sizeof_TeecImageIdentity :: nat where "sizeof_TeecImageIdentity = 8"
definition sizeof_TaImageHdrV3 :: nat where "sizeof_TaImageHdrV3 = 16"
definition sizeof_TeecImageHead :: nat where "sizeof_TeecImageHead = 24"
definition sizeof_TeecTaHead :: nat where "sizeof_TeecTaHead = 48"

definition u16_at :: "u8 list \<Rightarrow> nat \<Rightarrow> u16" where
  "u16_at buf off = le_word (take 2 (drop off buf))"

text \<open>The four outputs are threaded through; \<open>totalImgLen\<close> is not initialised by the caller.\<close>

definition GetTaVersion ::
  "CFILE option \<Rightarrow> u32 \<Rightarrow> u32 \<Rightarrow> u32 \<Rightarrow> u32 \<Rightarrow> world \<Rightarrow> int \<times> (u32 \<times> u32 \<times> u32 \<times> u32) \<times> CFILE option \<times> world" where
  "GetTaVersion file taHeadLen version contextLen totalImgLen w =
     (case file of
        None \<Rightarrow> (- 1, (taHeadLen, version, contextLen, totalImgLen), None, w)
      | Some fp \<Rightarrow>
        (case fread_bytes sizeof_TaImageHdrV3 fp w of
           (None, fp1, w1) \<Rightarrow> (- 1, (taHeadLen, version, contextLen, totalImgLen), Some fp1, w1)
         | (Some hdr, fp1, w1) \<Rightarrow>
             if u32_at hdr 0 = TA_HEAD_MAGIC1 \<and> u16_at hdr 4 = TA_HEAD_MAGIC2 \<and> u16_at hdr 6 > 1
             then
               let taHeadLen1 = of_nat sizeof_TeecTaHead; version1 = ucast (u16_at hdr 6) in
               if version1 \<ge> CIPHER_LAYER_VERSION
               then (0, (taHeadLen1, version1, u32_at hdr 8, u32_at hdr 8 + of_nat sizeof_TaImageHdrV3), Some fp1, w1)
               else (case fseek_to sizeof_TeecImageIdentity fp1 w1 of (r, fp2, w2) \<Rightarrow>
                       (if r \<noteq> 0 then - 1 else 0, (taHeadLen1, version1, contextLen, totalImgLen), Some fp2, w2))
             else (case fseek_to 0 fp1 w1 of (r, fp2, w2) \<Rightarrow>
                     (if r \<noteq> 0 then - 1 else 0,
                      (of_nat sizeof_TeecImageHead, version, contextLen, totalImgLen), Some fp2, w2))))"

definition TEEC_GetImageLenth :: "CFILE option \<Rightarrow> u32 \<Rightarrow> world \<Rightarrow> int \<times> u32 option \<times> CFILE option \<times> world" where
  "TEEC_GetImageLenth file garbage w =
     (case GetTaVersion file 0 0 0 garbage w of (ret, (taHeadLen, version, contextLen, totalImgLen), file1, w1) \<Rightarrow>
        if ret \<noteq> 0 then (ret, None, file1, w1)
        else
          let check = (\<lambda>contextLen totalImgLen fp w.
                if contextLen > MAX_IMAGE_LEN \<or> totalImgLen > MAX_IMAGE_LEN then (- 1, None, Some fp, w)
                else case fseek_to 0 fp w of (r, fp', w') \<Rightarrow>
                  if r \<noteq> 0 then (- 1, None, Some fp', w') else (0, Some totalImgLen, Some fp', w'))
          in case file1 of
            None \<Rightarrow> (- 1, None, None, w1)
          | Some fp \<Rightarrow>
              if version \<ge> CIPHER_LAYER_VERSION then check contextLen totalImgLen fp w1
              else (case fread_bytes sizeof_TeecImageHead fp w1 of
                  (None, fp2, w2) \<Rightarrow> (- 1, None, Some fp2, w2)
                | (Some head, fp2, w2) \<Rightarrow> check (u32_at head 0) (u32_at head 0 + taHeadLen) fp2 w2))"

definition write_block :: "ptr \<Rightarrow> u8 list \<Rightarrow> world \<Rightarrow> world" where
  "write_block p bs w =
     (case w_blocks w p of
        Some (Heap _) \<Rightarrow> w\<lparr>w_blocks := (w_blocks w)(p \<mapsto> Heap bs)\<rparr>
      | _ \<Rightarrow> faulty w)"

definition TEEC_DoReadApp ::
  "CFILE option \<Rightarrow> u32 \<Rightarrow> TC_NS_ClientContext \<Rightarrow> world \<Rightarrow> int \<times> TC_NS_ClientContext \<times> world" where
  "TEEC_DoReadApp file garbage cli w =
     (case TEEC_GetImageLenth file garbage w of
        (ret, Some totalImgLen, Some fp, w1) \<Rightarrow>
          if ret \<noteq> 0 then (- 1, cli, w1)
          else (case malloc_block w1 of (fileBuffer, w2) \<Rightarrow>
            if fileBuffer = NULL_ptr then (- 1, cli, w2)
            else case fread_bytes (unat totalImgLen) fp w2 of
              (None, _, w3) \<Rightarrow> (- 1, cli, free_block fileBuffer w3)
            | (Some bs, _, w3) \<Rightarrow>
                (0, cli\<lparr>file_size := totalImgLen, file_addr := ucast fileBuffer,
                        file_h_addr := ucast (drop_bit 32 fileBuffer)\<rparr>, write_block fileBuffer bs w3))
      | (ret, _, _, w1) \<Rightarrow> (- 1, cli, w1))"

section \<open>Names\<close>

definition DYNAMIC_TA_PATH :: string where "DYNAMIC_TA_PATH = ''/var/itrustee/ta/''"
definition MAX_FILE_PATH_LEN :: nat where "MAX_FILE_PATH_LEN = 20"
definition MAX_FILE_NAME_LEN :: nat where "MAX_FILE_NAME_LEN = 40"
definition MAX_FILE_EXT_LEN :: nat where "MAX_FILE_EXT_LEN = 6"
definition MAX_PATH_LEN :: nat where "MAX_PATH_LEN = 256"

text \<open>\<^verbatim>\<open>%0kx\<close>: \<open>k\<close> lower-case hexadecimal digits.\<close>

definition hex_str :: "nat \<Rightarrow> nat \<Rightarrow> string" where
  "hex_str k n = map (\<lambda>i. ''0123456789abcdef'' ! (n div 16 ^ (k - 1 - i) mod 16)) [0..<k]"

definition uuid_text :: "TEEC_UUID \<Rightarrow> string" where
  "uuid_text u =
     hex_str 8 (unat (timeLow u)) @ ''-'' @ hex_str 4 (unat (timeMid u)) @ ''-'' @
     hex_str 4 (unat (timeHiAndVersion u)) @ ''-'' @
     concat (map (\<lambda>i. hex_str 2 (unat (clockSeqAndNode u ! i))) [0, 1]) @ ''-'' @
     concat (map (\<lambda>i. hex_str 2 (unat (clockSeqAndNode u ! i))) [2, 3, 4, 5, 6, 7])"

definition TEEC_CheckRealPathSuffix :: "string \<Rightarrow> bool" where
  "TEEC_CheckRealPathSuffix realPath =
     (case strrchr realPath (CHR ''.'') of None \<Rightarrow> False | Some s \<Rightarrow> length s = 4 \<and> take 4 s = ''.sec'')"

section \<open>Loading\<close>

record TaFileInfo =
  taPath :: "string option"
  taFp :: "CFILE option"

definition open_file :: "u8 list \<Rightarrow> CFILE" where "open_file bs = \<lparr>f_bytes = bs, f_pos = 0\<rparr>"

definition TEEC_ReadApp ::
  "load_env \<Rightarrow> u32 \<Rightarrow> TaFileInfo \<Rightarrow> string \<Rightarrow> bool \<Rightarrow> TC_NS_ClientContext \<Rightarrow> world
   \<Rightarrow> int \<times> TC_NS_ClientContext \<times> world" where
  "TEEC_ReadApp env garbage taFile loadFile defaultPath cli w =
     (case taFp taFile of
        Some fp \<Rightarrow> TEEC_DoReadApp (Some fp) garbage cli w
      | None \<Rightarrow>
          (case env_realpath env loadFile of
             None \<Rightarrow> (if \<not> defaultPath then (- 1, cli, w) else (0, cli, w))
           | Some realLoadFile \<Rightarrow>
               if \<not> TEEC_CheckRealPathSuffix realLoadFile then (- 1, cli, w)
               else (case env_fopen env realLoadFile of
                   None \<Rightarrow> (- 1, cli, w)
                 | Some bs \<Rightarrow> TEEC_DoReadApp (Some (open_file bs)) garbage cli w)))"

text \<open>The file name of a trusted application that gives no path of its own.\<close>

definition default_ta_path :: "TEEC_UUID \<Rightarrow> string" where
  "default_ta_path u = DYNAMIC_TA_PATH @ ''/'' @ uuid_text u @ ''.sec''"

text \<open>The path of the application's own is used when it is short enough and mentions \<^verbatim>\<open>.sec\<close>.\<close>

definition own_path :: "TaFileInfo \<Rightarrow> string option" where
  "own_path ta =
     (case taPath ta of
        Some path \<Rightarrow> if length path < MAX_PATH_LEN \<and> strstr path ''.sec'' then Some path else None
      | None \<Rightarrow> None)"

definition TEEC_GetApp ::
  "load_env \<Rightarrow> u32 \<Rightarrow> TaFileInfo option \<Rightarrow> TEEC_UUID option \<Rightarrow> TC_NS_ClientContext \<Rightarrow> world
   \<Rightarrow> int \<times> TC_NS_ClientContext \<times> world" where
  "TEEC_GetApp env garbage taFile srvUuid cli w =
     (case (taFile, srvUuid) of
        (Some ta, Some uuid) \<Rightarrow>
          (case own_path ta of
             Some path \<Rightarrow> TEEC_ReadApp env garbage ta path False cli w
           | None \<Rightarrow>
               if env_snprintf_s env MAX_FILE_NAME_LEN (MAX_FILE_NAME_LEN - 1) (uuid_text uuid) < 0
               then (- 1, cli, w)
               else
                 let filePathLen = strnlen DYNAMIC_TA_PATH MAX_FILE_PATH_LEN +
                       strnlen (uuid_text uuid) MAX_FILE_NAME_LEN + MAX_FILE_EXT_LEN in
                 if env_snprintf_s env (MAX_FILE_PATH_LEN + MAX_FILE_NAME_LEN + MAX_FILE_EXT_LEN) filePathLen
                      (default_ta_path uuid) < 0
                 then (- 1, cli, w)
                 else TEEC_ReadApp env garbage ta (default_ta_path uuid) True cli w)
      | _ \<Rightarrow> (- 1, cli, w))"

section \<open>Secure files\<close>

definition MAX_BUFFER_LEN :: nat where "MAX_BUFFER_LEN = 8 * 1024 * 1024"
definition LOAD_LIB :: nat where "LOAD_LIB = 2"

definition GetImgLen :: "CFILE \<Rightarrow> world \<Rightarrow> int \<times> nat \<times> CFILE \<times> world" where
  "GetImgLen fp w =
     (case fseek_to (length (f_bytes fp)) fp w of (r, fp1, w1) \<Rightarrow>
        if r \<noteq> 0 then (- 1, 0, fp1, w1)
        else let totalLen = f_pos fp1 in
          if totalLen = 0 \<or> totalLen > MAX_BUFFER_LEN then (- 1, totalLen, fp1, w1)
          else case fseek_to 0 fp1 w1 of (r2, fp2, w2) \<Rightarrow>
            if r2 \<noteq> 0 then (- 1, totalLen, fp2, w2) else (r2, totalLen, fp2, w2))"

text \<open>
  The result, what is stored through \<^verbatim>\<open>errCode\<close>, and the world. \<open>uuid_given\<close> says whether a UUID is
  copied into the request, which may fail.
\<close>

definition LoadSecFile ::
  "int \<Rightarrow> CFILE option \<Rightarrow> nat \<Rightarrow> bool \<Rightarrow> world \<Rightarrow> int \<times> int option \<times> world" where
  "LoadSecFile tzFd file fileType uuid_given w =
     (case file of
        None \<Rightarrow> (- 1, None, w)
      | Some fp \<Rightarrow>
        if tzFd < 0 then (- 1, None, w)
        else case GetImgLen fp w of (ret, totalLen, fp1, w1) \<Rightarrow>
          if ret \<noteq> 0 then (ret, Some 0, w1)
          else if totalLen = 0 then (- 1, Some 0, w1)
          else case malloc_block w1 of (fileBuffer, w2) \<Rightarrow>
            if fileBuffer = NULL_ptr then (- 1, Some 0, w2)
            else case fread_bytes totalLen fp1 w2 of
              (None, _, w3) \<Rightarrow> (- 1, Some 0, free_block fileBuffer w3)
            | (Some bs, _, w3) \<Rightarrow>
                let w4 = write_block fileBuffer bs w3 in
                case (if uuid_given then ask w4 else (0, w4)) of (rc, w5) \<Rightarrow>
                if rc \<noteq> 0 then (- 1, Some 0, free_block fileBuffer w5)
                else case ask (log_call (IoctlLoad tzFd fileType totalLen fileBuffer) w5) of (r, w6) \<Rightarrow>
                  case ask w6 of (secLoadErr, w7) \<Rightarrow> (r, Some secLoadErr, free_block fileBuffer w7))"

definition TEEC_LoadSecfile :: "load_env \<Rightarrow> string option \<Rightarrow> int \<Rightarrow> CFILE option \<Rightarrow> world \<Rightarrow> int \<times> world" where
  "TEEC_LoadSecfile env filePath tzFd file w =
     (case filePath of
        None \<Rightarrow> (- 1, w)
      | Some path \<Rightarrow>
        if tzFd < 0 then (- 1, w)
        else
          let usable = (case file of
                Some fp \<Rightarrow> Some fp
              | None \<Rightarrow> (case env_realpath env path of
                    None \<Rightarrow> None
                  | Some realPath \<Rightarrow>
                      if TEEC_CheckRealPathSuffix realPath then map_option open_file (env_fopen env realPath)
                      else None))
          in case usable of
            None \<Rightarrow> (- 1, w)
          | Some fp \<Rightarrow> (case LoadSecFile tzFd (Some fp) LOAD_LIB False w of (ret, _, w1) \<Rightarrow> (ret, w1)))"

section \<open>Blocks\<close>

text \<open>Reading answers, files and the log do not touch the memory.\<close>

lemma blocks_log [simp]: "w_blocks (log_call c w) = w_blocks w" "fault (log_call c w) = fault w"
  by (simp_all add: log_call_def)

lemma fread_bytes_blocks: "fread_bytes n fp w = (r, fp', w') \<Longrightarrow> w_blocks w' = w_blocks w \<and> fault w' = fault w \<and> calls w' = calls w"
  by (auto simp: fread_bytes_def ask_def split: if_splits)

lemma fseek_to_blocks:
  "fseek_to n fp w = (r, fp', w') \<Longrightarrow> w_blocks w' = w_blocks w \<and> fault w' = fault w \<and> calls w' = calls w"
  by (auto simp: fseek_to_def ask_def)

lemma malloc_block_fresh:
  assumes "malloc_block w = (p, w')"
  shows "fault w' = fault w" "p = NULL_ptr \<Longrightarrow> w_blocks w' = w_blocks w" "calls w' = calls w"
    "p \<noteq> NULL_ptr \<Longrightarrow> w_blocks w p = None \<and> w_blocks w' = (w_blocks w)(p \<mapsto> Heap [])"
  using assms by (auto simp: malloc_block_def malloc_addr_def ask_def in_use_def split: if_splits)

lemma free_block_heap:
  "w_blocks w p = Some (Heap bs) \<Longrightarrow>
     w_blocks (free_block p w) = (w_blocks w)(p := None) \<or> p = NULL_ptr \<and> free_block p w = w"
  by (auto simp: free_block_def)

lemma free_block_fault: "w_blocks w p = Some (Heap bs) \<Longrightarrow> fault (free_block p w) = fault w"
  by (auto simp: free_block_def)

lemma GetTaVersion_blocks:
  "GetTaVersion file a b c d w = (r, outs, file', w') \<Longrightarrow> w_blocks w' = w_blocks w \<and> fault w' = fault w"
  by (auto simp: GetTaVersion_def Let_def split: option.splits prod.splits if_splits
      dest!: fread_bytes_blocks fseek_to_blocks)

section \<open>What is loaded\<close>

text \<open>The reference: the length an image announces, by the format of its header, and where it comes from.\<close>

definition image_len :: "u8 list \<Rightarrow> u32" where
  "image_len bs =
     (if u32_at bs 0 = TA_HEAD_MAGIC1 \<and> u16_at bs 4 = TA_HEAD_MAGIC2 \<and> u16_at bs 6 > 1
      then if u16_at bs 6 \<ge> 3 then u32_at bs 8 + 16 else u32_at bs 8 + 48
      else u32_at bs 0 + 24)"

definition ta_source :: "load_env \<Rightarrow> TaFileInfo \<Rightarrow> TEEC_UUID \<Rightarrow> u8 list option" where
  "ta_source env ta uuid =
     (case taFp ta of
        Some fp \<Rightarrow> Some (f_bytes fp)
      | None \<Rightarrow> Option.bind (env_realpath env (case own_path ta of Some p \<Rightarrow> p | None \<Rightarrow> default_ta_path uuid))
                  (env_fopen env))"

lemma fread_bytes_Some:
  "fread_bytes n fp w = (Some bs, fp', w') \<Longrightarrow>
     f_pos fp + n \<le> length (f_bytes fp) \<and> bs = take n (drop (f_pos fp) (f_bytes fp)) \<and>
     fp' = fp\<lparr>f_pos := f_pos fp + n\<rparr> \<and> w_blocks w' = w_blocks w \<and> fault w' = fault w"
  by (auto simp: fread_bytes_def ask_def split: if_splits)

lemma fseek_to_ok: "fseek_to n fp w = (0, fp', w') \<Longrightarrow> fp' = fp\<lparr>f_pos := n\<rparr> \<and> w_blocks w' = w_blocks w \<and> fault w' = fault w"
  by (auto simp: fseek_to_def ask_def)

lemma u32_at_take: "off + 4 \<le> n \<Longrightarrow> u32_at (take n bs) off = u32_at bs off"
  unfolding u32_at_def by (simp add: drop_take min_def)

lemma u16_at_take: "off + 2 \<le> n \<Longrightarrow> u16_at (take n bs) off = u16_at bs off"
  unfolding u16_at_def by (simp add: drop_take min_def)

lemma u32_at_drop: "u32_at (drop k bs) off = u32_at bs (k + off)"
  by (simp add: u32_at_def add.commute)

lemma version_cast: "(3 :: u32) \<le> ucast (v :: u16) \<longleftrightarrow> 3 \<le> v"
proof -
  have "unat v < 2 ^ 16" using unsigned_less [of v, where ?'a = nat] by simp
  then have "unat (ucast v :: u32) = unat v"
    by (simp add: unsigned_ucast_eq take_bit_nat_eq_self_iff)
  then show ?thesis by (simp add: word_le_nat_alt)
qed

lemmas sizeof_defs = sizeof_TeecImageIdentity_def sizeof_TaImageHdrV3_def sizeof_TeecImageHead_def sizeof_TeecTaHead_def

text \<open>What \<^verbatim>\<open>GetTaVersion\<close> finds in a file read from its start.\<close>

lemma GetTaVersion_spec:
  assumes "GetTaVersion (Some fp) 0 0 0 g w = (0, (hlen, v, clen, tlen), file', w')" "f_pos fp = 0"
  defines "bs \<equiv> f_bytes fp"
  shows "\<exists>fp'. file' = Some fp' \<and> f_bytes fp' = bs \<and> w_blocks w' = w_blocks w \<and> fault w' = fault w \<and>
    (if u32_at bs 0 = TA_HEAD_MAGIC1 \<and> u16_at bs 4 = TA_HEAD_MAGIC2 \<and> u16_at bs 6 > 1
     then if u16_at bs 6 \<ge> 3 then v \<ge> 3 \<and> clen = u32_at bs 8 \<and> tlen = u32_at bs 8 + 16
          else v < 3 \<and> hlen = 48 \<and> f_pos fp' = 8
     else v < 3 \<and> hlen = 24 \<and> f_pos fp' = 0)"
proof -
  obtain hdr fp1 w1 where r: "fread_bytes 16 fp w = (Some hdr, fp1, w1)"
    using assms(1) by (cases "fread_bytes 16 fp w") (auto simp: GetTaVersion_def sizeof_defs split: option.splits)
  note r_spec = fread_bytes_Some [OF r]
  have hdr: "u32_at hdr 0 = u32_at bs 0" "u16_at hdr 4 = u16_at bs 4" "u16_at hdr 6 = u16_at bs 6" "u32_at hdr 8 = u32_at bs 8"
    using r_spec assms(2) by (simp_all add: bs_def u32_at_take u16_at_take)
  note run = assms(1) [unfolded GetTaVersion_def sizeof_defs, simplified, unfolded r, simplified, unfolded hdr]
  show ?thesis
    using run r_spec
    by (auto simp: Let_def CIPHER_LAYER_VERSION_def version_cast bs_def [symmetric] word_less_nat_alt [symmetric] not_le [symmetric]
        split: if_splits prod.splits dest!: fseek_to_ok)
qed

lemma TEEC_GetImageLenth_frame:
  assumes "TEEC_GetImageLenth file g w = (r, n, file', w')"
  shows "w_blocks w' = w_blocks w \<and> fault w' = fault w"
proof -
  obtain ret hlen v clen tlen file1 w1 where v: "GetTaVersion file 0 0 0 g w = (ret, (hlen, v, clen, tlen), file1, w1)"
    by (cases "GetTaVersion file 0 0 0 g w") auto
  show ?thesis using assms GetTaVersion_blocks [OF v]
    by (auto simp: TEEC_GetImageLenth_def v Let_def split: option.splits prod.splits if_splits
        dest!: fread_bytes_blocks fseek_to_blocks)
qed

lemma TEEC_GetImageLenth_spec:
  assumes run: "TEEC_GetImageLenth (Some fp) g w = (0, Some n, file', w')" and pos: "f_pos fp = 0"
  shows "n = image_len (f_bytes fp) \<and> n \<le> MAX_IMAGE_LEN \<and> (\<exists>fp'. file' = Some fp' \<and> f_bytes fp' = f_bytes fp \<and> f_pos fp' = 0)"
proof -
  obtain ret hlen v clen tlen file1 w1 where
    v: "GetTaVersion (Some fp) 0 0 0 g w = (ret, (hlen, v, clen, tlen), file1, w1)"
    by (cases "GetTaVersion (Some fp) 0 0 0 g w") auto
  have "ret = 0" using run by (auto simp: TEEC_GetImageLenth_def v split: if_splits)
  note spec = GetTaVersion_spec [OF v [unfolded this] pos]
  then obtain fp1 where fp1: "file1 = Some fp1" "f_bytes fp1 = f_bytes fp" by blast
  show ?thesis
  proof (cases "v \<ge> 3")
    case True
    then show ?thesis
      using run spec fp1 \<open>ret = 0\<close>
      by (auto simp: TEEC_GetImageLenth_def v Let_def CIPHER_LAYER_VERSION_def image_len_def
          split: if_splits prod.splits dest!: fseek_to_ok)
  next
    case False
    then obtain head fp2 w2 where hd: "fread_bytes 24 fp1 w1 = (Some head, fp2, w2)"
      using run fp1 \<open>ret = 0\<close>
      by (cases "fread_bytes 24 fp1 w1")
         (auto simp: TEEC_GetImageLenth_def v Let_def CIPHER_LAYER_VERSION_def sizeof_defs split: option.splits)
    have head: "u32_at head 0 = u32_at (f_bytes fp) (f_pos fp1)"
      using fread_bytes_Some [OF hd] fp1 by (simp add: u32_at_take u32_at_drop)
    have "n = u32_at head 0 + hlen \<and> n \<le> MAX_IMAGE_LEN \<and>
      (\<exists>fp'. file' = Some fp' \<and> f_bytes fp' = f_bytes fp \<and> f_pos fp' = 0)"
      using run fp1 \<open>ret = 0\<close> False fread_bytes_Some [OF hd]
      by (auto simp: TEEC_GetImageLenth_def v Let_def CIPHER_LAYER_VERSION_def sizeof_defs hd
          split: if_splits prod.splits dest!: fseek_to_ok)
    then show ?thesis using spec fp1 False head by (auto simp: image_len_def split: if_splits)
  qed
qed

lemma join_hi_lo: "(ucast (ucast (p :: u64) :: u32) :: u64) OR push_bit 32 (ucast (ucast (drop_bit 32 p) :: u32)) = p"
  by (rule bit_word_eqI) (auto simp: bit_simps)

text \<open>The block a request points to, and what a load must leave behind.\<close>

definition file_ptr :: "TC_NS_ClientContext \<Rightarrow> ptr" where
  "file_ptr cli = ucast (file_addr cli) OR push_bit 32 (ucast (file_h_addr cli))"

definition loaded :: "u8 list \<Rightarrow> TC_NS_ClientContext \<Rightarrow> world \<Rightarrow> world \<Rightarrow> bool" where
  "loaded src cli w w' \<longleftrightarrow>
     file_size cli = image_len src \<and> image_len src \<le> MAX_IMAGE_LEN \<and> unat (image_len src) \<le> length src \<and>
     file_ptr cli \<noteq> NULL_ptr \<and> w_blocks w (file_ptr cli) = None \<and>
     w_blocks w' = (w_blocks w)(file_ptr cli \<mapsto> Heap (take (unat (image_len src)) src))"

lemma write_block_heap:
  "w_blocks w p = Some (Heap bs) \<Longrightarrow> w_blocks (write_block p bs' w) = (w_blocks w)(p \<mapsto> Heap bs') \<and> fault (write_block p bs' w) = fault w"
  by (auto simp: write_block_def)

lemma TEEC_DoReadApp_outcome:
  assumes run: "TEEC_DoReadApp (Some fp) g cli w = (r, cli', w')" and pos: "f_pos fp = 0"
  shows "fault w' = fault w \<and>
    (if r = 0 then loaded (f_bytes fp) cli' w w' else cli' = cli \<and> w_blocks w' = w_blocks w)"
proof -
  obtain ret n file1 w1 where len: "TEEC_GetImageLenth (Some fp) g w = (ret, n, file1, w1)"
    by (cases "TEEC_GetImageLenth (Some fp) g w") auto
  note f1 = TEEC_GetImageLenth_frame [OF len]
  show ?thesis
  proof (cases "ret = 0 \<and> n \<noteq> None \<and> file1 \<noteq> None")
    case False
    then show ?thesis using run f1 by (auto simp: TEEC_DoReadApp_def len split: option.splits)
  next
    case True
    then obtain m fp1 where m: "n = Some m" "file1 = Some fp1" "ret = 0" by auto
    note spec = TEEC_GetImageLenth_spec [OF len [unfolded m(1,3)] pos]
    obtain p w2 where al: "malloc_block w1 = (p, w2)" by (cases "malloc_block w1")
    note fresh = malloc_block_fresh [OF al]
    obtain bs fp3 w3 where rd: "fread_bytes (unat m) fp1 w2 = (bs, fp3, w3)" by (cases "fread_bytes (unat m) fp1 w2")
    note f3 = fread_bytes_blocks [OF rd]
    show ?thesis
    proof (cases "p = NULL_ptr")
      case True
      then show ?thesis using run f1 fresh by (auto simp: TEEC_DoReadApp_def len m al)
    next
      case p: False
      have blk: "w_blocks w3 p = Some (Heap [])" "w_blocks w p = None" "w_blocks w3 = (w_blocks w)(p \<mapsto> Heap [])"
        "fault w3 = fault w"
        using fresh(1,4) p f3 f1 by auto
      show ?thesis
      proof (cases bs)
        case None
        then have "r = - 1" "cli' = cli" "w' = free_block p w3" using run p by (simp_all add: TEEC_DoReadApp_def len m al rd)
        then show ?thesis using free_block_heap [OF blk(1)] free_block_fault [OF blk(1)] p blk by auto
      next
        case (Some b)
        then have out: "r = 0" "w' = write_block p b w3"
          "cli' = cli\<lparr>file_size := m, file_addr := ucast p, file_h_addr := ucast (drop_bit 32 p)\<rparr>"
          using run p by (simp_all add: TEEC_DoReadApp_def len m al rd)
        have "file_ptr cli' = p" by (simp add: out file_ptr_def join_hi_lo)
        moreover have "b = take (unat m) (f_bytes fp)" "unat m \<le> length (f_bytes fp)"
          using fread_bytes_Some [OF rd [unfolded Some]] spec m(2) by auto
        moreover have "file_size cli' = m" by (simp add: out)
        ultimately show ?thesis
          using write_block_heap [OF blk(1), of b] p blk out(1,2) spec by (auto simp: loaded_def)
      qed
    qed
  qed
qed

lemma TEEC_ReadApp_outcome:
  assumes run: "TEEC_ReadApp env g ta file dflt cli w = (r, cli', w')" and pos: "\<forall>fp. taFp ta = Some fp \<longrightarrow> f_pos fp = 0"
  shows "fault w' = fault w \<and>
    (if r = 0 then cli' = cli \<and> w' = w \<and> dflt \<and> taFp ta = None \<and> env_realpath env file = None \<or>
        (\<exists>src. (case taFp ta of Some fp \<Rightarrow> Some (f_bytes fp)
                | None \<Rightarrow> Option.bind (env_realpath env file) (env_fopen env)) = Some src \<and> loaded src cli' w w')
     else cli' = cli \<and> w_blocks w' = w_blocks w)"
proof (cases "taFp ta")
  case (Some fp)
  then have "TEEC_DoReadApp (Some fp) g cli w = (r, cli', w')" using run by (simp add: TEEC_ReadApp_def)
  from TEEC_DoReadApp_outcome [OF this] show ?thesis using Some pos by auto
next
  case None
  show ?thesis
  proof (cases "env_realpath env file")
    case None
    then show ?thesis using run \<open>taFp ta = None\<close> by (auto simp: TEEC_ReadApp_def split: if_splits)
  next
    case (Some real)
    show ?thesis
    proof (cases "TEEC_CheckRealPathSuffix real \<and> env_fopen env real \<noteq> None")
      case True
      then obtain bs where bs: "env_fopen env real = Some bs" by auto
      then have "TEEC_DoReadApp (Some (open_file bs)) g cli w = (r, cli', w')"
        using run None Some True by (simp add: TEEC_ReadApp_def)
      from TEEC_DoReadApp_outcome [OF this] show ?thesis using None Some bs by (auto simp: open_file_def)
    next
      case False
      then show ?thesis using run None Some by (auto simp: TEEC_ReadApp_def split: option.splits if_splits)
    qed
  qed
qed

lemma hex_str_length [simp]: "length (hex_str k n) = k"
  by (simp add: hex_str_def)

lemma uuid_text_length [simp]: "length (uuid_text u) = 36"
  by (simp add: uuid_text_def)

lemma default_name_fits:
  assumes "snprintf_s_ok (env_snprintf_s env)"
  shows "\<not> env_snprintf_s env MAX_FILE_NAME_LEN (MAX_FILE_NAME_LEN - 1) (uuid_text uuid) < 0"
    "\<not> env_snprintf_s env (MAX_FILE_PATH_LEN + MAX_FILE_NAME_LEN + MAX_FILE_EXT_LEN)
        (strnlen DYNAMIC_TA_PATH MAX_FILE_PATH_LEN + strnlen (uuid_text uuid) MAX_FILE_NAME_LEN + MAX_FILE_EXT_LEN)
        (default_ta_path uuid) < 0"
proof -
  have fits: "env_snprintf_s env d c s = int (length s)" if "c < d" "length s \<le> c" for d c s
    using assms that unfolding snprintf_s_ok_def by blast
  show "\<not> env_snprintf_s env MAX_FILE_NAME_LEN (MAX_FILE_NAME_LEN - 1) (uuid_text uuid) < 0"
    by (simp add: fits MAX_FILE_NAME_LEN_def)
  show "\<not> env_snprintf_s env (MAX_FILE_PATH_LEN + MAX_FILE_NAME_LEN + MAX_FILE_EXT_LEN)
        (strnlen DYNAMIC_TA_PATH MAX_FILE_PATH_LEN + strnlen (uuid_text uuid) MAX_FILE_NAME_LEN + MAX_FILE_EXT_LEN)
        (default_ta_path uuid) < 0"
    by (simp add: fits MAX_FILE_NAME_LEN_def MAX_FILE_PATH_LEN_def MAX_FILE_EXT_LEN_def strnlen_def
        DYNAMIC_TA_PATH_def default_ta_path_def)
qed

lemma GetImgLen_frame:
  "GetImgLen fp w = (r, n, fp', w') \<Longrightarrow> w_blocks w' = w_blocks w \<and> fault w' = fault w \<and> calls w' = calls w"
  by (auto simp: GetImgLen_def Let_def split: prod.splits if_splits dest!: fseek_to_blocks)

lemma GetImgLen_len:
  "GetImgLen fp w = (0, n, fp', w') \<Longrightarrow> n = length (f_bytes fp) \<and> 0 < n \<and> n \<le> MAX_BUFFER_LEN"
  by (auto simp: GetImgLen_def Let_def split: prod.splits if_splits dest!: fseek_to_ok)

lemma ask_frame: "ask w = (r, w') \<Longrightarrow> w_blocks w' = w_blocks w \<and> fault w' = fault w \<and> calls w' = calls w"
  by (auto simp: ask_def)

section \<open>A concrete image\<close>

text \<open>An image of version 3 with a context of four bytes, behind a path of its own.\<close>

definition ex_image :: "u8 list" where
  "ex_image = [0x5A, 0x5A, 0xA5, 0xA5, 0xAA, 0x55, 3, 0, 4, 0, 0, 0, 0, 0, 0, 0, 1, 2, 3, 4]"

definition ex_load_env :: load_env where
  "ex_load_env = \<lparr>env_realpath = (\<lambda>p. Some p), env_fopen = (\<lambda>p. if p = ''/a.sec'' then Some ex_image else None),
     env_snprintf_s = (\<lambda>d c s. if length s \<le> c \<and> c < d then int (length s) else - 1)\<rparr>"

definition ex_ta :: TaFileInfo where
  "ex_ta = \<lparr>taPath = Some ''/a.sec'', taFp = None\<rparr>"

definition ex_load_world :: world where
  "ex_load_world = \<lparr>w_ctxs = Map.empty, g_teecContextList = [], w_sessions = Map.empty, w_shms = Map.empty,
     app_ctxs = Map.empty, app_shms = Map.empty, app_ops = Map.empty, w_blocks = Map.empty, open_fds = (\<lambda>_. False),
     answers = (\<lambda>n. if n = 2 then 0x700000008000 else 0), tick = 0, calls = [], fault = False, app_fault = False\<rparr>"

section \<open>Properties\<close>

text \<open>
  C14. What \<^verbatim>\<open>TEEC_GetApp\<close> leaves behind. When it fails, the request and the memory are as before (nothing
  leaks). When it succeeds, either there was no file and the application is built in, or exactly one new
  heap block holds the first bytes of the file, as many as the header announces and at most 8 MB, and the
  request carries its address and size. No freed or foreign memory is touched.
\<close>

theorem TEEC_GetApp_outcome:
  assumes run: "TEEC_GetApp env g (Some ta) (Some uuid) cli w = (r, cli', w')"
    and pos: "\<forall>fp. taFp ta = Some fp \<longrightarrow> f_pos fp = 0"
  shows "fault w' = fault w \<and>
    (if r = 0 then cli' = cli \<and> w' = w \<and> taFp ta = None \<and> own_path ta = None \<and>
                   env_realpath env (default_ta_path uuid) = None \<or>
                   (\<exists>src. ta_source env ta uuid = Some src \<and> loaded src cli' w w')
     else cli' = cli \<and> w_blocks w' = w_blocks w)"
proof (cases "own_path ta")
  case None
  show ?thesis
  proof (cases "TEEC_ReadApp env g ta (default_ta_path uuid) True cli w = (r, cli', w')")
    case True
    from TEEC_ReadApp_outcome [OF this pos] show ?thesis
      using None by (auto simp: ta_source_def split: option.splits if_splits)
  next
    case False
    then have "r = - 1" "cli' = cli" "w' = w"
      using run None by (auto simp: TEEC_GetApp_def Let_def split: if_splits)
    then show ?thesis by simp
  qed
next
  case (Some path)
  then have "TEEC_ReadApp env g ta path False cli w = (r, cli', w')" using run by (simp add: TEEC_GetApp_def)
  from TEEC_ReadApp_outcome [OF this pos] show ?thesis
    using Some by (auto simp: ta_source_def split: option.splits if_splits)
qed

text \<open>
  C28. A built-in application. The name built from the UUID always fits the two buffers, so an application
  without a path and without a file under the default directory is accepted with nothing loaded.
\<close>

theorem TEEC_GetApp_builtin:
  assumes env: "snprintf_s_ok (env_snprintf_s env)" "env_realpath env (default_ta_path uuid) = None"
    and ta: "own_path ta = None" "taFp ta = None"
  shows "TEEC_GetApp env g (Some ta) (Some uuid) cli w = (0, cli, w)"
  using default_name_fits [OF env(1), of uuid] env(2) ta by (simp add: TEEC_GetApp_def TEEC_ReadApp_def Let_def)

lemma LoadSecFile_frees:
  assumes run: "LoadSecFile tzFd (Some fp) fileType uu w = (r, err, w')"
  shows "w_blocks w' = w_blocks w \<and> fault w' = fault w \<and>
    (r = 0 \<longrightarrow> 0 < length (f_bytes fp) \<and> length (f_bytes fp) \<le> MAX_BUFFER_LEN \<and>
       (\<exists>p. calls w' = calls w @ [IoctlLoad tzFd fileType (length (f_bytes fp)) p, Free p]))"
proof -
  obtain ret n fp1 w1 where len: "GetImgLen fp w = (ret, n, fp1, w1)" by (cases "GetImgLen fp w") auto
  note f1 = GetImgLen_frame [OF len]
  obtain p w2 where al: "malloc_block w1 = (p, w2)" by (cases "malloc_block w1")
  note fresh = malloc_block_fresh [OF al]
  obtain bs fp3 w3 where rd: "fread_bytes n fp1 w2 = (bs, fp3, w3)" by (cases "fread_bytes n fp1 w2")
  note f3 = fread_bytes_blocks [OF rd]
  show ?thesis
  proof (cases "tzFd < 0 \<or> ret \<noteq> 0 \<or> n = 0 \<or> p = NULL_ptr")
    case True
    then show ?thesis using run f1 fresh(1,2) by (auto simp: LoadSecFile_def len al split: if_splits)
  next
    case False
    then have n: "n = length (f_bytes fp)" "0 < n" "n \<le> MAX_BUFFER_LEN" using GetImgLen_len len by auto
    have blk: "w_blocks w3 p = Some (Heap [])" "w_blocks w p = None" "w_blocks w3 = (w_blocks w)(p \<mapsto> Heap [])"
      "fault w3 = fault w" "calls w3 = calls w"
      using False fresh(1,3,4) f3 f1 by auto
    have freed: "w_blocks (free_block p v) = w_blocks w \<and> fault (free_block p v) = fault w \<and>
        calls (free_block p v) = calls v @ [Free p]"
      if "w_blocks v = (w_blocks w)(p \<mapsto> Heap b)" "fault v = fault w" for v b
      using that blk(2) False by (auto simp: free_block_def log_call_def)
    show ?thesis
    proof (cases bs)
      case None
      then show ?thesis using run False freed [OF blk(3,4)] by (auto simp: LoadSecFile_def len al rd)
    next
      case (Some b)
      define w4 where "w4 = write_block p b w3"
      have w4: "w_blocks w4 = (w_blocks w)(p \<mapsto> Heap b)" "fault w4 = fault w" "calls w4 = calls w"
        using write_block_heap [OF blk(1), of b] blk by (auto simp: w4_def write_block_def)
      obtain rc w5 where u: "(if uu then ask w4 else (0, w4)) = (rc, w5)" by (cases "if uu then ask w4 else (0, w4)")
      have w5: "w_blocks w5 = (w_blocks w)(p \<mapsto> Heap b)" "fault w5 = fault w" "calls w5 = calls w"
        using u w4 by (auto split: if_splits dest!: ask_frame)
      obtain r1 w6 where a6: "ask (log_call (IoctlLoad tzFd fileType n p) w5) = (r1, w6)"
        by (cases "ask (log_call (IoctlLoad tzFd fileType n p) w5)")
      obtain e w7 where a7: "ask w6 = (e, w7)" by (cases "ask w6")
      have w7: "w_blocks w7 = (w_blocks w)(p \<mapsto> Heap b)" "fault w7 = fault w"
          "calls w7 = calls w @ [IoctlLoad tzFd fileType n p]"
        using ask_frame [OF a6] ask_frame [OF a7] w5 by (simp_all add: log_call_def)
      have "w' = free_block p w5 \<and> r = - 1 \<or> w' = free_block p w7"
        using run False Some u a6 a7
        by (auto simp: LoadSecFile_def len al rd Let_def w4_def [symmetric] split: if_splits)
      then show ?thesis using freed [OF w5(1,2)] freed [OF w7(1,2)] w7(3) n by auto
    qed
  qed
qed

text \<open>
  C15. \<^verbatim>\<open>LoadSecFile\<close> releases its buffer on every path: the memory is as before whatever fails. When it
  succeeds it has called the driver once, with the size of the whole file, which is neither zero nor
  larger than 8 MB, and the buffer it then frees.
\<close>

theorem LoadSecFile_releases_buffer:
  assumes run: "LoadSecFile tzFd (Some fp) fileType uu w = (r, err, w')"
  shows "w_blocks w' = w_blocks w \<and> fault w' = fault w \<and>
    (r = 0 \<longrightarrow> 0 < length (f_bytes fp) \<and> length (f_bytes fp) \<le> MAX_BUFFER_LEN \<and>
       (\<exists>p. calls w' = calls w @ [IoctlLoad tzFd fileType (length (f_bytes fp)) p, Free p]))"
  by (rule LoadSecFile_frees [OF run])

section \<open>Witnesses\<close>

lemma ex_load_succeeds: "fst (TEEC_GetApp ex_load_env 0 (Some ex_ta) (Some zero_uuid) zero_cli ex_load_world) = 0"
  by code_simp

theorem TEEC_GetApp_outcome_witness:
  "\<exists>cli' w' src. TEEC_GetApp ex_load_env 0 (Some ex_ta) (Some zero_uuid) zero_cli ex_load_world = (0, cli', w') \<and>
     \<not> fault w' \<and> ta_source ex_load_env ex_ta zero_uuid = Some src \<and> loaded src cli' ex_load_world w'"
proof -
  have own: "own_path ex_ta = Some ''/a.sec''"
    by (simp add: own_path_def ex_ta_def MAX_PATH_LEN_def strstr_def upt_rec)
  obtain cli' w' where run: "TEEC_GetApp ex_load_env 0 (Some ex_ta) (Some zero_uuid) zero_cli ex_load_world = (0, cli', w')"
    using ex_load_succeeds by (metis prod.collapse)
  have "\<not> fault ex_load_world" by (simp add: ex_load_world_def)
  then show ?thesis using TEEC_GetApp_outcome [OF run] run own by (auto simp: ex_ta_def split: if_splits)
qed

theorem TEEC_GetApp_builtin_witness:
  "TEEC_GetApp (ex_load_env\<lparr>env_realpath := (\<lambda>_. None)\<rparr>) 0 (Some \<lparr>taPath = None, taFp = None\<rparr>) (Some zero_uuid)
     zero_cli ex_load_world = (0, zero_cli, ex_load_world)"
  by (rule TEEC_GetApp_builtin) (simp_all add: ex_load_env_def snprintf_s_ok_def own_path_def)

theorem LoadSecFile_releases_buffer_witness:
  "w_blocks (snd (snd (LoadSecFile 3 (Some (open_file [1, 2])) LOAD_LIB False ex_load_world))) = Map.empty"
  using LoadSecFile_releases_buffer [of 3 "open_file [1, 2]" LOAD_LIB False ex_load_world
      "fst (LoadSecFile 3 (Some (open_file [1, 2])) LOAD_LIB False ex_load_world)"
      "fst (snd (LoadSecFile 3 (Some (open_file [1, 2])) LOAD_LIB False ex_load_world))"
      "snd (snd (LoadSecFile 3 (Some (open_file [1, 2])) LOAD_LIB False ex_load_world))"]
  by (simp add: ex_load_world_def)

end
