(* ===== verification/Client_State.thy ===== *)
theory Client_State
  imports Teec_Operation App_Load
begin

text \<open>
  The client library proper, \<^verbatim>\<open>src/libteec_vendor/tee_client_api.c\<close>: contexts, sessions, shared memory,
  commands, agents and secure files. Each function of the file is a definition over the world of
  \<open>Client_World\<close>, its guards and early returns in the order of the code, its lock results, allocations
  and driver calls answered by the world. Out-parameters are results; \<^verbatim>\<open>returnOrigin\<close> is one of them.
\<close>

section \<open>Driver calls\<close>

text \<open>The driver answers a result and may write the return code, the origin and the session of the request.\<close>

definition ioctl_cli :: "int \<Rightarrow> ioctl_req \<Rightarrow> TC_NS_ClientContext \<Rightarrow> world \<Rightarrow> int \<times> TC_NS_ClientContext \<times> world" where
  "ioctl_cli fd req cli w =
     (case ask (log_call (Ioctl fd req cli) w) of (ret, w1) \<Rightarrow>
      case ask w1 of (code, w2) \<Rightarrow> case ask w2 of (origin, w3) \<Rightarrow> case ask w3 of (sid, w4) \<Rightarrow>
        (ret, cli\<lparr>returns_code := word_of_int code, returns_origin := word_of_int origin,
                  cc_session_id := (if req = SES_OPEN_REQ then word_of_int sid else cc_session_id cli)\<rparr>, w4))"

section \<open>Shared memory objects\<close>

definition clear_shm_bit :: "ptr \<Rightarrow> u32 \<Rightarrow> world \<Rightarrow> world" where
  "clear_shm_bit context offset w =
     (case ask w of (lockRet, w1) \<Rightarrow>
        upd_ctx context (\<lambda>c. c\<lparr>shm_bitmap :=
          the (ClearBitWithLock lockRet offset NUM_OF_SHAREMEM_BITMAP (Some (shm_bitmap c)))\<rparr>) w1)"

definition ReleaseSharedMemory :: "ptr \<Rightarrow> world \<Rightarrow> world" where
  "ReleaseSharedMemory sharedMem w =
     (let w0 = use_shm sharedMem w; m = rd_shm w0 sharedMem in
      if \<not> sm_is_allocated m \<or> sm_buffer m = NULL_ptr then free_shm sharedMem w0
      else
        let w1 = (if sm_flags m = TEEC_MEM_SHARED_INOUT \<or> sm_flags m = TEEC_MEM_REGISTER_INOUT
                  then free_block (sm_buffer m) w0
                  else if sm_buffer m \<noteq> ZERO_SIZE_PTR \<and> sm_size m \<noteq> 0
                  then snd (munmap_block (sm_buffer m) (sm_size m) w0)
                  else w0)
        in free_shm sharedMem (clear_shm_bit (sm_context m) (sm_offset m) w1))"

definition PutBnShrMem :: "ptr \<Rightarrow> world \<Rightarrow> world" where
  "PutBnShrMem shrMem w =
     (if shrMem = NULL_ptr then w
      else let (zero, cnt) = AtomDecAndCompareWithZero (sm_ops_cnt (rd_shm w shrMem));
               w1 = upd_shm shrMem (\<lambda>m. m\<lparr>sm_ops_cnt := cnt\<rparr>) w
           in if zero then ReleaseSharedMemory shrMem w1 else w1)"

text \<open>The first node that satisfies the test, null when there is none.\<close>

fun find_shm :: "ptr list \<Rightarrow> (TEEC_SharedMemoryHidl \<Rightarrow> bool) \<Rightarrow> world \<Rightarrow> ptr \<times> world" where
  "find_shm [] P w = (NULL_ptr, w)"
| "find_shm (a # as) P w = (let w1 = use_shm a w in if P (rd_shm w1 a) then (a, w1) else find_shm as P w1)"

definition GetBnShmByOffset :: "u32 \<Rightarrow> ptr \<Rightarrow> world \<Rightarrow> ptr \<times> world" where
  "GetBnShmByOffset shmOffset context w =
     (if context = NULL_ptr then (NULL_ptr, w)
      else case ask (use_ctx context w) of (lockRet, w1) \<Rightarrow>
        if lockRet \<noteq> 0 then (NULL_ptr, w1)
        else case find_shm (shrd_mem_list (rd_ctx w1 context)) (\<lambda>m. sm_offset m = shmOffset) w1 of (a, w2) \<Rightarrow>
          if a = NULL_ptr then (NULL_ptr, w2)
          else (a, upd_shm a (\<lambda>m. m\<lparr>sm_ops_cnt := AtomInc (sm_ops_cnt m)\<rparr>) w2))"

definition MallocShrMemHidl :: "world \<Rightarrow> TEEC_Result \<times> ptr \<times> world" where
  "MallocShrMemHidl w =
     (case malloc_addr w of (p, w1) \<Rightarrow>
        if p = NULL_ptr then (TEEC_FAIL, NULL_ptr, w1)
        else let w2 = w1\<lparr>w_shms := (w_shms w1)(p \<mapsto> nil_shm)\<rparr> in
          case ask w2 of (nRet, w3) \<Rightarrow>
            if nRet \<noteq> 0 then (TEEC_FAIL, NULL_ptr, free_shm p w3) else (TEEC_SUCCESS, p, w3))"

section \<open>Sessions and contexts\<close>

definition MutexLockContext :: "world \<Rightarrow> int \<times> world" where
  "MutexLockContext w = ask w"

definition AddSessionList :: "u32 \<Rightarrow> TEEC_UUID \<Rightarrow> ptr \<Rightarrow> ptr \<Rightarrow> world \<Rightarrow> TEEC_Result \<times> world" where
  "AddSessionList sessionId destination context session w =
     (let w1 = upd_sess session (\<lambda>s. s\<lparr>session_id := sessionId, service_id := destination, ss_ops_cnt := 1\<rparr>) w in
      case ask (use_ctx context w1) of (lockRet, w2) \<Rightarrow>
        if lockRet \<noteq> 0 then (TEEC_ERROR_GENERIC, w2)
        else
          let w3 = upd_ctx context (\<lambda>c. c\<lparr>session_list := filter (\<lambda>s. s \<noteq> session) (session_list c)\<rparr>) w2;
              w4 = upd_ctx context (\<lambda>c. c\<lparr>session_list := session_list c @ [session]\<rparr>) w3
          in (TEEC_SUCCESS, upd_sess session (\<lambda>s. s\<lparr>ss_ops_cnt := AtomInc (ss_ops_cnt s)\<rparr>) w4))"

text \<open>The connection to the daemon itself (\<^verbatim>\<open>CaDaemonConnectWithCaInfo\<close>) is \<^const>\<open>connect_fd\<close>.\<close>

definition CaDaemonConnectWithoutCaInfo :: "world \<Rightarrow> int \<times> world" where
  "CaDaemonConnectWithoutCaInfo w =
     (case ask w of (rc, w1) \<Rightarrow> if rc \<noteq> 0 then (- 1, w1) else connect_fd w1)"

fun find_ctx :: "ptr list \<Rightarrow> int \<Rightarrow> world \<Rightarrow> ptr \<times> world" where
  "find_ctx [] fd w = (NULL_ptr, w)"
| "find_ctx (a # as) fd w =
     (let w1 = use_ctx a w in if cx_fd (rd_ctx w1 a) = fd then (a, w1) else find_ctx as fd w1)"

definition FindBnContext :: "ptr \<Rightarrow> world \<Rightarrow> ptr \<times> world" where
  "FindBnContext context w =
     (if context = NULL_ptr then (NULL_ptr, w)
      else if g_teecContextList w = [] then (NULL_ptr, w)
      else let w1 = use_app_ctx context w in find_ctx (g_teecContextList w1) (ac_fd (rd_app_ctx w1 context)) w1)"

definition GetBnContext :: "ptr \<Rightarrow> world \<Rightarrow> ptr \<times> world" where
  "GetBnContext context w =
     (case MutexLockContext w of (ret, w1) \<Rightarrow>
        if ret \<noteq> 0 then (NULL_ptr, w1)
        else case FindBnContext context w1 of (sContext, w2) \<Rightarrow>
          if sContext \<noteq> NULL_ptr
          then (sContext, upd_ctx sContext (\<lambda>c. c\<lparr>cx_ops_cnt := AtomInc (cx_ops_cnt c)\<rparr>) w2)
          else (sContext, w2))"

definition FindAndRemoveBnContext :: "ptr \<Rightarrow> world \<Rightarrow> ptr \<times> world" where
  "FindAndRemoveBnContext context w =
     (case MutexLockContext w of (ret, w1) \<Rightarrow>
        if ret \<noteq> 0 then (NULL_ptr, w1)
        else case FindBnContext context w1 of (sContext, w2) \<Rightarrow>
          if sContext \<noteq> NULL_ptr
          then (sContext, w2\<lparr>g_teecContextList := remove1 sContext (g_teecContextList w2)\<rparr>)
          else (sContext, w2))"

fun find_sess :: "ptr list \<Rightarrow> u32 \<Rightarrow> world \<Rightarrow> ptr \<times> world" where
  "find_sess [] sid w = (NULL_ptr, w)"
| "find_sess (a # as) sid w =
     (let w1 = use_sess a w in if session_id (rd_sess w1 a) = sid then (a, w1) else find_sess as sid w1)"

definition FindBnSession :: "ptr \<Rightarrow> ptr \<Rightarrow> world \<Rightarrow> ptr \<times> world" where
  "FindBnSession session context w =
     (if session_list (rd_ctx w context) = [] then (NULL_ptr, w)
      else let w1 = use_sess session w in
        find_sess (session_list (rd_ctx w1 context)) (session_id (rd_sess w1 session)) w1)"

definition GetBnSession :: "ptr \<Rightarrow> ptr \<Rightarrow> world \<Rightarrow> ptr \<times> world" where
  "GetBnSession session context w =
     (if session = NULL_ptr \<or> context = NULL_ptr then (NULL_ptr, w)
      else case ask (use_ctx context w) of (lockRet, w1) \<Rightarrow>
        if lockRet \<noteq> 0 then (NULL_ptr, w1)
        else case FindBnSession session context w1 of (s, w2) \<Rightarrow>
          if s \<noteq> NULL_ptr then (s, upd_sess s (\<lambda>x. x\<lparr>ss_ops_cnt := AtomInc (ss_ops_cnt x)\<rparr>) w2) else (s, w2))"

definition PutBnSession :: "ptr \<Rightarrow> world \<Rightarrow> world" where
  "PutBnSession session w =
     (if session = NULL_ptr then w
      else let (zero, cnt) = AtomDecAndCompareWithZero (ss_ops_cnt (rd_sess w session));
               w1 = upd_sess session (\<lambda>s. s\<lparr>ss_ops_cnt := cnt\<rparr>) w
           in if zero then free_sess session w1 else w1)"

definition FindAndRemoveSession :: "ptr \<Rightarrow> ptr \<Rightarrow> world \<Rightarrow> ptr \<times> world" where
  "FindAndRemoveSession session context w =
     (if session = NULL_ptr \<or> context = NULL_ptr then (NULL_ptr, w)
      else case ask (use_ctx context w) of (lockRet, w1) \<Rightarrow>
        if lockRet \<noteq> 0 then (NULL_ptr, w1)
        else case FindBnSession session context w1 of (s, w2) \<Rightarrow>
          if s \<noteq> NULL_ptr
          then (s, upd_ctx context (\<lambda>c. c\<lparr>session_list := remove1 s (session_list c)\<rparr>) w2) else (s, w2))"

definition TEEC_CloseSessionHidl :: "ptr \<Rightarrow> ptr \<Rightarrow> world \<Rightarrow> world" where
  "TEEC_CloseSessionHidl session context w =
     (if session = NULL_ptr \<or> context = NULL_ptr then w
      else
        let w1 = use_sess session w; s = rd_sess w1 session in
        case TEEC_Encode zero_cli (service_id s) (session_id s) GLOBAL_CMD_ID_CLOSE_SESSION
               \<lparr>lg_method = 0, lg_mdata = 0\<rparr> NULL_ptr w1 of (teecRet, cli, w2) \<Rightarrow>
          if teecRet \<noteq> TEEC_SUCCESS then w2
          else
            let w3 = use_ctx context w2 in
            case ioctl_cli (cx_fd (rd_ctx w3 context)) SES_CLOSE_REQ cli w3 of (ret, cli', w4) \<Rightarrow>
              let w5 = upd_sess session (\<lambda>s. s\<lparr>session_id := 0, ss_context := NULL_ptr\<rparr>) w4 in
              case ask w5 of (rc, w6) \<Rightarrow>
                if rc \<noteq> 0 then w6 else upd_sess session (\<lambda>s. s\<lparr>service_id := zero_uuid\<rparr>) w6)"

text \<open>The two loops of \<^verbatim>\<open>TEEC_FinalizeContextHidl\<close> drain their lists; each turn unlinks its node first.\<close>

fun finalize_sessions :: "ptr list \<Rightarrow> ptr \<Rightarrow> world \<Rightarrow> world" where
  "finalize_sessions [] context w = w"
| "finalize_sessions (s # ss) context w =
     (let w1 = upd_ctx context (\<lambda>c. c\<lparr>session_list := remove1 s (session_list c)\<rparr>) w;
          w2 = TEEC_CloseSessionHidl s context w1;
          w3 = (if callFromHidl (rd_ctx w2 context) then PutBnSession s w2 else w2)
      in finalize_sessions ss context w3)"

fun finalize_shms :: "ptr list \<Rightarrow> ptr \<Rightarrow> world \<Rightarrow> world" where
  "finalize_shms [] context w = w"
| "finalize_shms (m # ms) context w =
     (let w1 = upd_ctx context (\<lambda>c. c\<lparr>shrd_mem_list := remove1 m (shrd_mem_list c)\<rparr>) w
      in finalize_shms ms context (PutBnShrMem m w1))"

definition TEEC_FinalizeContextHidl :: "ptr \<Rightarrow> world \<Rightarrow> world" where
  "TEEC_FinalizeContextHidl context w =
     (if context = NULL_ptr then w
      else case ask (use_ctx context w) of (lockRet, w1) \<Rightarrow>
        if lockRet \<noteq> 0 then w1
        else
          let w2 = finalize_sessions (session_list (rd_ctx w1 context)) context w1 in
          case ask w2 of (lockRet, w3) \<Rightarrow>
            if lockRet \<noteq> 0 then w3
            else
              let w4 = finalize_shms (shrd_mem_list (rd_ctx w3 context)) context w3;
                  w5 = close_fd (cx_fd (rd_ctx w4 context)) w4;
                  w6 = upd_ctx context (\<lambda>c. c\<lparr>cx_fd := - 1\<rparr>) w5
              in free_ctx context w6)"

definition PutBnContext :: "ptr \<Rightarrow> world \<Rightarrow> bool \<times> world" where
  "PutBnContext context w =
     (if context = NULL_ptr then (False, w)
      else let (zero, cnt) = AtomDecAndCompareWithZero (cx_ops_cnt (rd_ctx w context));
               w1 = upd_ctx context (\<lambda>c. c\<lparr>cx_ops_cnt := cnt\<rparr>) w
           in if zero then (True, TEEC_FinalizeContextHidl context w1) else (False, w1))"

section \<open>Initialising and finalising contexts\<close>

definition TryConnectCaDaemon :: "bool \<Rightarrow> world \<Rightarrow> int \<times> world" where
  "TryConnectCaDaemon fromHidl w = (if fromHidl then connect_fd w else CaDaemonConnectWithoutCaInfo w)"

definition TEEC_InitializeContextWithType :: "ptr \<Rightarrow> bool \<Rightarrow> world \<Rightarrow> TEEC_Result \<times> world" where
  "TEEC_InitializeContextWithType context fromHidl w =
     (if context = NULL_ptr then (TEEC_ERROR_BAD_PARAMETERS, w)
      else case TryConnectCaDaemon fromHidl w of (fd, w1) \<Rightarrow>
        if fd < 0 then (TEEC_ERROR_GENERIC, w1)
        else
          let w2 = upd_ctx context (\<lambda>c. c\<lparr>cx_fd := fd, cx_ops_cnt := 1, callFromHidl := fromHidl,
                     session_list := [], shrd_mem_list := []\<rparr>) w1 in
          case ask w2 of (nRet, w3) \<Rightarrow>
            if nRet \<noteq> 0 then (TEEC_FAIL, close_fd fd w3)
            else
              let w4 = upd_ctx context (\<lambda>c. c\<lparr>shm_bitmap := replicate 8 0\<rparr>) w3 in
              case MutexLockContext w4 of (ret, w5) \<Rightarrow>
                if ret \<noteq> 0 then (TEEC_FAIL, close_fd fd w5)
                else
                  let w6 = w5\<lparr>g_teecContextList := g_teecContextList w5 @ [context]\<rparr>
                  in (TEEC_SUCCESS, upd_ctx context (\<lambda>c. c\<lparr>cx_ops_cnt := AtomInc (cx_ops_cnt c)\<rparr>) w6))"

definition TEEC_InitializeContext :: "ptr \<Rightarrow> world \<Rightarrow> TEEC_Result \<times> world" where
  "TEEC_InitializeContext context w =
     (if context = NULL_ptr then (TEEC_ERROR_BAD_PARAMETERS, w)
      else case malloc_addr w of (contextHidl, w1) \<Rightarrow>
        if contextHidl = NULL_ptr then (TEEC_ERROR_GENERIC, w1)
        else
          let w2 = w1\<lparr>w_ctxs := (w_ctxs w1)(contextHidl \<mapsto> nil_ctx)\<rparr> in
          case ask w2 of (nRet, w3) \<Rightarrow>
            if nRet \<noteq> 0 then (TEEC_FAIL, free_ctx contextHidl w3)
            else case TEEC_InitializeContextWithType contextHidl False w3 of (ret, w4) \<Rightarrow>
              if ret = TEEC_SUCCESS
              then let w5 = upd_app_ctx context
                              (\<lambda>c. c\<lparr>ac_fd := cx_fd (rd_ctx w4 contextHidl), ta_path := None\<rparr>) w4
                   in (TEEC_SUCCESS, snd (PutBnContext contextHidl w5))
              else (ret, free_ctx contextHidl w4))"

definition TEEC_FinalizeContext :: "ptr \<Rightarrow> world \<Rightarrow> world" where
  "TEEC_FinalizeContext context w =
     (if context = NULL_ptr then w
      else case FindAndRemoveBnContext context w of (contextHidl, w1) \<Rightarrow>
        upd_app_ctx context (\<lambda>c. c\<lparr>ac_fd := - 1\<rparr>) (snd (PutBnContext contextHidl w1)))"

section \<open>Opening, closing and using sessions\<close>

definition CA_AUTH_RETRY_TIMES :: nat where "CA_AUTH_RETRY_TIMES = 30"

text \<open>The retry loop: the request is repeated while the return code asks for it and retries are left.\<close>

fun open_retry :: "nat \<Rightarrow> int \<Rightarrow> TC_NS_ClientContext \<Rightarrow> world \<Rightarrow> int \<times> TC_NS_ClientContext \<times> world" where
  "open_retry i fd cli w =
     (case ioctl_cli fd SES_OPEN_REQ (cli\<lparr>returns_code := 0, returns_origin := TEEC_ORIGIN_API\<rparr>) w of
        (ret, cli1, w1) \<Rightarrow>
          if returns_code cli1 = TEE_ERROR_CA_AUTH_FAIL
          then (case i of 0 \<Rightarrow> (ret, cli1, w1) | Suc i' \<Rightarrow> open_retry i' fd cli1 w1)
          else (ret, cli1, w1))"

definition TEEC_DoOpenSession ::
  "int \<Rightarrow> TC_NS_ClientContext \<Rightarrow> TEEC_UUID \<Rightarrow> ptr \<Rightarrow> ptr \<Rightarrow> world
   \<Rightarrow> TEEC_Result \<times> TC_NS_ClientContext \<times> world" where
  "TEEC_DoOpenSession fd cliContext destination context session w =
     (case open_retry CA_AUTH_RETRY_TIMES fd cliContext w of (ret, cli, w1) \<Rightarrow>
        if ret < 0 then (TranslateRetValue ret, cli\<lparr>returns_origin := TEEC_ORIGIN_COMMS\<rparr>, w1)
        else if ret > 0 then
          (if returns_code cli \<noteq> 0 then (returns_code cli, cli, w1) else (TEEC_ERROR_GENERIC, cli, w1))
        else case AddSessionList (cc_session_id cli) destination context session w1 of (r, w2) \<Rightarrow> (r, cli, w2))"

text \<open>The common exit: the origin is reported and the image of the application is freed.\<close>

definition open_session_exit ::
  "TEEC_Result \<times> TC_NS_ClientContext \<times> world \<Rightarrow> TEEC_Result \<times> u32 \<times> world" where
  "open_session_exit = (\<lambda>(res, cli, w).
     (res, returns_origin cli,
      if file_addr cli \<noteq> 0 \<or> file_h_addr cli \<noteq> 0 then free_block (file_ptr cli) w else w))"

definition TEEC_OpenSessionHidl ::
  "load_env \<Rightarrow> u32 \<Rightarrow> u32 \<Rightarrow> TaFileInfo option \<Rightarrow> ptr \<Rightarrow> ptr \<Rightarrow> TEEC_UUID option \<Rightarrow> u32 \<Rightarrow> ptr \<Rightarrow> ptr \<Rightarrow> world
   \<Rightarrow> TEEC_Result \<times> u32 \<times> world" where
  "TEEC_OpenSessionHidl env garbage pid taFile context session destination connectionMethod connectionData operation w =
     open_session_exit
     (let cli0 = zero_cli\<lparr>returns_origin := TEEC_ORIGIN_API, file_addr := 0, file_h_addr := 0\<rparr> in
      case destination of
        None \<Rightarrow> (TEEC_ERROR_BAD_PARAMETERS, cli0, w)
      | Some dest \<Rightarrow>
        if context = NULL_ptr \<or> taFile = None \<or> session = NULL_ptr then (TEEC_ERROR_BAD_PARAMETERS, cli0, w)
        else if connectionMethod \<noteq> TEEC_LOGIN_IDENTIFY \<or> connectionData \<noteq> NULL_ptr
        then (TEEC_ERROR_BAD_PARAMETERS, cli0, w)
        else
          let w1 = (if operation \<noteq> NULL_ptr
                    then upd_op operation (\<lambda>p. p\<lparr>paramTypes :=
                           TEEC_PARAM_TYPES (TEEC_PARAM_TYPE_GET (paramTypes p) 0)
                             (TEEC_PARAM_TYPE_GET (paramTypes p) 1) TEEC_NONE TEEC_NONE\<rparr>) w
                    else w)
          in case TEEC_CheckOperation context operation w1 of (res, w2) \<Rightarrow>
            if res \<noteq> TEEC_SUCCESS then (res, cli0, w2)
            else case TEEC_Encode cli0 dest 0 GLOBAL_CMD_ID_OPEN_SESSION
                   \<lparr>lg_method = connectionMethod, lg_mdata = 0\<rparr> operation w2 of (res, cli1, w3) \<Rightarrow>
              if res \<noteq> TEEC_SUCCESS then (res, cli1, w3)
              else case TEEC_GetApp env garbage taFile destination (cli1\<lparr>callingPid := pid\<rparr>) w3 of
                (r, cli2, w4) \<Rightarrow>
                  if r < 0 then (TEEC_ERROR_TRUSTED_APP_LOAD_ERROR, cli2, w4)
                  else TEEC_DoOpenSession (cx_fd (rd_ctx w4 context)) cli2 dest context session (use_ctx context w4))"

definition TEEC_OpenSession ::
  "load_env \<Rightarrow> u32 \<Rightarrow> ptr \<Rightarrow> ptr \<Rightarrow> TEEC_UUID option \<Rightarrow> u32 \<Rightarrow> ptr \<Rightarrow> ptr \<Rightarrow> world \<Rightarrow> TEEC_Result \<times> u32 \<times> world" where
  "TEEC_OpenSession env garbage context session destination connectionMethod connectionData operation w =
     (if context = NULL_ptr \<or> session = NULL_ptr \<or> destination = None
      then (TEEC_ERROR_BAD_PARAMETERS, TEEC_ORIGIN_API, w)
      else
        let w1 = use_app_ctx context (upd_sess session (\<lambda>s. s\<lparr>ss_context := context\<rparr>) w);
            taFile = \<lparr>taPath = ta_path (rd_app_ctx w1 context), taFp = None\<rparr>
        in case GetBnContext context w1 of (contextHidl, w2) \<Rightarrow>
          if contextHidl = NULL_ptr then (TEEC_ERROR_BAD_PARAMETERS, TEEC_ORIGIN_API, w2)
          else case TEEC_OpenSessionHidl env garbage 0 (Some taFile) contextHidl session destination
                      connectionMethod connectionData operation w2 of (ret, origin, w3) \<Rightarrow>
            (ret, origin, snd (PutBnContext contextHidl w3)))"

definition TEEC_CloseSession :: "ptr \<Rightarrow> world \<Rightarrow> world" where
  "TEEC_CloseSession session w =
     (if session = NULL_ptr then w
      else let w0 = use_sess session w in
        if ss_context (rd_sess w0 session) = NULL_ptr then w0
        else case GetBnContext (ss_context (rd_sess w0 session)) w0 of (contextHidl, w1) \<Rightarrow>
          if contextHidl = NULL_ptr then w1
          else case FindAndRemoveSession session contextHidl w1 of (inList, w2) \<Rightarrow>
            if inList = NULL_ptr then snd (PutBnContext contextHidl w2)
            else snd (PutBnContext contextHidl (TEEC_CloseSessionHidl session contextHidl w2)))"

definition ProcessInvokeCommand :: "ptr \<Rightarrow> TC_NS_ClientContext \<Rightarrow> world \<Rightarrow> TEEC_Result \<times> TC_NS_ClientContext \<times> world" where
  "ProcessInvokeCommand context cliContext w =
     (let w0 = use_ctx context w in
      case ioctl_cli (cx_fd (rd_ctx w0 context)) SEND_CMD_REQ cliContext w0 of (ret, cli, w1) \<Rightarrow>
        if ret = 0 then (TEEC_SUCCESS, cli, w1)
        else if ret < 0 then
          (case ask w1 of (err, w2) \<Rightarrow> (TranslateRetValue (- err), cli\<lparr>returns_origin := TEEC_ORIGIN_COMMS\<rparr>, w2))
        else if returns_code cli \<noteq> 0 then (returns_code cli, cli, w1) else (TEEC_ERROR_GENERIC, cli, w1))"

definition TEEC_InvokeCommandHidl :: "ptr \<Rightarrow> ptr \<Rightarrow> u32 \<Rightarrow> ptr \<Rightarrow> world \<Rightarrow> TEEC_Result \<times> u32 \<times> world" where
  "TEEC_InvokeCommandHidl context session commandID operation w =
     (if session = NULL_ptr \<or> context = NULL_ptr then (TEEC_ERROR_BAD_PARAMETERS, TEEC_ORIGIN_API, w)
      else case TEEC_CheckOperation context operation w of (res, w1) \<Rightarrow>
        if res \<noteq> TEEC_SUCCESS then (res, TEEC_ORIGIN_API, w1)
        else case CheckRegisterShm operation w1 of (res, w2) \<Rightarrow>
          if res \<noteq> TEEC_SUCCESS then (res, TEEC_ORIGIN_API, w2)
          else
            let w3 = use_sess session w2; s = rd_sess w3 session in
            case TEEC_Encode (zero_cli\<lparr>returns_origin := TEEC_ORIGIN_API\<rparr>) (service_id s) (session_id s) commandID
                   \<lparr>lg_method = 0, lg_mdata = 0\<rparr> operation w3 of (res, cli, w4) \<Rightarrow>
              if res \<noteq> TEEC_SUCCESS then (res, returns_origin cli, w4)
              else case ProcessInvokeCommand context cli w4 of (res, cli1, w5) \<Rightarrow> (res, returns_origin cli1, w5))"

definition TEEC_InvokeCommand :: "ptr \<Rightarrow> u32 \<Rightarrow> ptr \<Rightarrow> world \<Rightarrow> TEEC_Result \<times> u32 \<times> world" where
  "TEEC_InvokeCommand session commandID operation w =
     (if session = NULL_ptr then (TEEC_ERROR_BAD_PARAMETERS, TEEC_ORIGIN_API, w)
      else let w0 = use_sess session w; contextTemp = ss_context (rd_sess w0 session) in
        if contextTemp = NULL_ptr then (TEEC_ERROR_BAD_PARAMETERS, TEEC_ORIGIN_API, w0)
        else case GetBnContext contextTemp w0 of (contextHidl, w1) \<Rightarrow>
          case TEEC_InvokeCommandHidl contextHidl session commandID operation w1 of (ret, origin, w2) \<Rightarrow>
            let w3 = (if ret = TEEC_SUCCESS then upd_sess session (\<lambda>s. s\<lparr>ss_context := contextTemp\<rparr>) w2 else w2)
            in (ret, origin, snd (PutBnContext contextHidl w3)))"

definition TEEC_RequestCancellation :: "ptr \<Rightarrow> u32 \<Rightarrow> world \<Rightarrow> world" where
  "TEEC_RequestCancellation operation cancelCmd w =
     (if operation = NULL_ptr then w
      else let w0 = use_op operation w; session = op_session (rd_op w0 operation) in
        if session = NULL_ptr then w0
        else let w1 = use_sess session w0; context = ss_context (rd_sess w1 session) in
          if context = NULL_ptr then w1
          else case GetBnContext context w1 of (contextInner, w2) \<Rightarrow>
            case TEEC_CheckOperation contextInner operation w2 of (res, w3) \<Rightarrow>
              let w4 = snd (PutBnContext contextInner w3) in
              if res \<noteq> TEEC_SUCCESS then w4
              else let s = rd_sess w4 session in
                case TEEC_Encode zero_cli (service_id s) (session_id s) cancelCmd \<lparr>lg_method = 0, lg_mdata = 0\<rparr>
                       operation w4 of (res, cli, w5) \<Rightarrow>
                  if res \<noteq> TEEC_SUCCESS then w5
                  else let w6 = use_app_ctx context w5 in
                    snd (snd (ioctl_cli (ac_fd (rd_app_ctx w6 context)) CANCEL_CMD_REQ cli w6)))"

section \<open>Shared memory\<close>

definition PAGE_SIZE :: u32 where "PAGE_SIZE = 4096"

datatype shm_kind = ALLOCATE | REGISTER

definition CheckSharedMemoryParam :: "ptr \<Rightarrow> ptr \<Rightarrow> shm_kind \<Rightarrow> world \<Rightarrow> TEEC_Result \<times> world" where
  "CheckSharedMemoryParam context sharedMem shrMemType w =
     (if context = NULL_ptr \<or> sharedMem = NULL_ptr then (TEEC_ERROR_BAD_PARAMETERS, w)
      else
        let w1 = use_shm sharedMem w; m = rd_shm w1 sharedMem;
            wrong = sm_flags m \<noteq> TEEC_MEM_INPUT \<and> sm_flags m \<noteq> TEEC_MEM_OUTPUT \<and>
                    sm_flags m \<noteq> TEEC_MEM_INOUT \<and> sm_flags m \<noteq> TEEC_MEM_SHARED_INOUT;
            condition = (case shrMemType of
                ALLOCATE \<Rightarrow> wrong \<and> sm_flags m \<noteq> TEEC_MEM_REGISTER_INOUT
              | REGISTER \<Rightarrow> wrong \<or> sm_buffer m = NULL_ptr)
        in if condition then (TEEC_ERROR_BAD_PARAMETERS, w1) else (TEEC_SUCCESS, w1))"

definition TEEC_RegisterSharedMemoryHidl :: "ptr \<Rightarrow> ptr \<Rightarrow> world \<Rightarrow> TEEC_Result \<times> world" where
  "TEEC_RegisterSharedMemoryHidl context sharedMem w =
     (case CheckSharedMemoryParam context sharedMem REGISTER w of (ret, w1) \<Rightarrow>
        if ret \<noteq> TEEC_SUCCESS then (ret, w1)
        else
          let w2 = upd_shm sharedMem (\<lambda>m. m\<lparr>sm_ops_cnt := 1, sm_is_allocated := False,
                     sm_offset := - 1, sm_context := context\<rparr>) w1 in
          case ask (use_ctx context w2) of (lockRet, w3) \<Rightarrow>
            if lockRet \<noteq> 0 then (TEEC_ERROR_GENERIC, w3)
            else
              let w4 = upd_ctx context (\<lambda>c. c\<lparr>shrd_mem_list := shrd_mem_list c @ [sharedMem]\<rparr>) w3
              in (TEEC_SUCCESS, upd_shm sharedMem (\<lambda>m. m\<lparr>sm_ops_cnt := AtomInc (sm_ops_cnt m)\<rparr>) w4))"

definition TEEC_RegisterSharedMemory :: "ptr \<Rightarrow> ptr \<Rightarrow> world \<Rightarrow> TEEC_Result \<times> world" where
  "TEEC_RegisterSharedMemory context sharedMem w =
     (if context = NULL_ptr \<or> sharedMem = NULL_ptr then (TEEC_ERROR_BAD_PARAMETERS, w)
      else
        let w1 = upd_app_shm sharedMem (\<lambda>m. m\<lparr>as_context := context\<rparr>) w in
        case MallocShrMemHidl w1 of (ret, shmHidl, w2) \<Rightarrow>
          if ret \<noteq> TEEC_SUCCESS then (ret, w2)
          else
            let a = rd_app_shm w2 sharedMem;
                w3 = upd_shm shmHidl (\<lambda>m. m\<lparr>sm_buffer := as_buffer a, sm_size := as_size a, sm_flags := as_flags a\<rparr>) w2
            in case GetBnContext context w3 of (contextHidl, w4) \<Rightarrow>
               case TEEC_RegisterSharedMemoryHidl contextHidl shmHidl w4 of (ret, w5) \<Rightarrow>
                 if ret = TEEC_SUCCESS
                 then let h = rd_shm w5 shmHidl;
                          w6 = upd_app_shm sharedMem
                                 (\<lambda>m. m\<lparr>as_ops_cnt := sm_ops_cnt h, as_is_allocated := sm_is_allocated h\<rparr>) w5
                      in (ret, snd (PutBnContext contextHidl (PutBnShrMem shmHidl w6)))
                 else (ret, free_shm shmHidl (snd (PutBnContext contextHidl w5))))"

definition RelaseBufferAndClearBit :: "ptr \<Rightarrow> ptr \<Rightarrow> world \<Rightarrow> world" where
  "RelaseBufferAndClearBit context sharedMem w =
     (let w0 = use_shm sharedMem w; m = rd_shm w0 sharedMem;
          w1 = (if sm_buffer m \<noteq> MAP_FAILED \<and> sm_size m \<noteq> 0
                then snd (munmap_block (sm_buffer m) (sm_size m) w0) else w0);
          w2 = clear_shm_bit context (sm_offset m) w1
      in upd_shm sharedMem (\<lambda>m. m\<lparr>sm_buffer := NULL_ptr, sm_offset := 0\<rparr>) w2)"

definition AllocateSharedMem :: "ptr \<Rightarrow> world \<Rightarrow> TEEC_Result \<times> world" where
  "AllocateSharedMem sharedMem w =
     (if sharedMem = NULL_ptr then (TEEC_ERROR_BAD_PARAMETERS, w)
      else let w0 = use_shm sharedMem w; m = rd_shm w0 sharedMem in
        if sm_size m = 0 \<or> sm_size m > MAX_SHAREDMEM_LEN then (TEEC_ERROR_BAD_PARAMETERS, w0)
        else case malloc_block w0 of (p, w1) \<Rightarrow>
          let w2 = upd_shm sharedMem (\<lambda>m. m\<lparr>sm_buffer := p\<rparr>) w1 in
          if p = NULL_ptr then (TEEC_ERROR_OUT_OF_MEMORY, w2)
          else case ask w2 of (rc, w3) \<Rightarrow>
            if rc \<noteq> 0 then (TEEC_ERROR_SECURITY, w3) else (TEEC_SUCCESS, w3))"

definition is_zero_copy :: "u32 \<Rightarrow> bool" where
  "is_zero_copy flags \<longleftrightarrow> flags = TEEC_MEM_SHARED_INOUT \<or> flags = TEEC_MEM_REGISTER_INOUT"

text \<open>The offset is taken from the bitmap unless the memory is zero-copy; negative when all are in use.\<close>

definition get_shm_bit :: "ptr \<Rightarrow> world \<Rightarrow> int \<times> world" where
  "get_shm_bit context w =
     (let w0 = use_ctx context w in
      case ask w0 of (lockRet, w1) \<Rightarrow>
      case GetAndSetBitWithLock lockRet (Some (shm_bitmap (rd_ctx w1 context))) NUM_OF_SHAREMEM_BITMAP of (b, bm) \<Rightarrow>
        (b, upd_ctx context (\<lambda>c. c\<lparr>shm_bitmap := the bm\<rparr>) w1))"

text \<open>The buffer: heap memory, a mapping of the driver at the block's own offset, or a marker for size 0.\<close>

definition get_shm_buffer :: "ptr \<Rightarrow> ptr \<Rightarrow> world \<Rightarrow> TEEC_Result \<times> world" where
  "get_shm_buffer context sharedMem w =
     (let m = rd_shm w sharedMem in
      if is_zero_copy (sm_flags m) then AllocateSharedMem sharedMem w
      else if sm_size m \<noteq> 0
      then (case mmap_block (cx_fd (rd_ctx w context)) (sm_size m) (sm_offset m * PAGE_SIZE) w of
              (p, w1) \<Rightarrow> (TEEC_SUCCESS, upd_shm sharedMem (\<lambda>m. m\<lparr>sm_buffer := p\<rparr>) w1))
      else (TEEC_SUCCESS, upd_shm sharedMem (\<lambda>m. m\<lparr>sm_buffer := ZERO_SIZE_PTR\<rparr>) w))"

definition TEEC_AllocateSharedMemoryHidl :: "ptr \<Rightarrow> ptr \<Rightarrow> world \<Rightarrow> TEEC_Result \<times> world" where
  "TEEC_AllocateSharedMemoryHidl context sharedMem w =
     (case CheckSharedMemoryParam context sharedMem ALLOCATE w of (ret, w1) \<Rightarrow>
        if ret \<noteq> TEEC_SUCCESS then (ret, w1)
        else
          let w2 = upd_shm sharedMem (\<lambda>m. m\<lparr>sm_buffer := NULL_ptr\<rparr>) w1;
              zc = is_zero_copy (sm_flags (rd_shm w2 sharedMem)) in
          case (if zc then (0, w2) else get_shm_bit context w2) of (validBit, w3) \<Rightarrow>
            if validBit < 0 then (TEEC_ERROR_BAD_PARAMETERS, w3)
            else
              let w4 = (if zc then w3
                        else upd_shm sharedMem (\<lambda>m. m\<lparr>sm_offset := word_of_int validBit\<rparr>) w3) in
              case get_shm_buffer context sharedMem w4 of (ret, w5) \<Rightarrow>
                if ret \<noteq> TEEC_SUCCESS then (ret, w5)
                else if sm_buffer (rd_shm w5 sharedMem) = MAP_FAILED
                then (TEEC_ERROR_OUT_OF_MEMORY, RelaseBufferAndClearBit context sharedMem w5)
                else
                  let w6 = upd_shm sharedMem (\<lambda>m. m\<lparr>sm_ops_cnt := 1, sm_is_allocated := True,
                             sm_context := context\<rparr>) w5 in
                  case ask (use_ctx context w6) of (lockRet, w7) \<Rightarrow>
                    if lockRet \<noteq> 0 then (TEEC_ERROR_GENERIC, RelaseBufferAndClearBit context sharedMem w7)
                    else
                      let w8 = upd_ctx context (\<lambda>c. c\<lparr>shrd_mem_list := shrd_mem_list c @ [sharedMem]\<rparr>) w7
                      in (TEEC_SUCCESS, upd_shm sharedMem (\<lambda>m. m\<lparr>sm_ops_cnt := AtomInc (sm_ops_cnt m)\<rparr>) w8))"

definition TEEC_AllocateSharedMemory :: "ptr \<Rightarrow> ptr \<Rightarrow> world \<Rightarrow> TEEC_Result \<times> world" where
  "TEEC_AllocateSharedMemory context sharedMem w =
     (if context = NULL_ptr \<or> sharedMem = NULL_ptr then (TEEC_ERROR_BAD_PARAMETERS, w)
      else
        let w1 = upd_app_shm sharedMem (\<lambda>m. m\<lparr>as_context := context\<rparr>) w in
        case MallocShrMemHidl w1 of (ret, shmHidl, w2) \<Rightarrow>
          if ret \<noteq> TEEC_SUCCESS then (ret, w2)
          else
            let a = rd_app_shm w2 sharedMem;
                w3 = upd_shm shmHidl (\<lambda>m. m\<lparr>sm_size := as_size a, sm_flags := as_flags a\<rparr>) w2
            in case GetBnContext context w3 of (contextHidl, w4) \<Rightarrow>
               case TEEC_AllocateSharedMemoryHidl contextHidl shmHidl w4 of (ret, w5) \<Rightarrow>
                 if ret = TEEC_SUCCESS
                 then let h = rd_shm w5 shmHidl;
                          w6 = upd_app_shm sharedMem (\<lambda>m. m\<lparr>as_buffer := sm_buffer h,
                                 as_ops_cnt := sm_ops_cnt h, as_is_allocated := sm_is_allocated h\<rparr>) w5
                      in (TEEC_SUCCESS, snd (PutBnContext contextHidl (PutBnShrMem shmHidl w6)))
                 else (ret, free_shm shmHidl (snd (PutBnContext contextHidl w5))))"

text \<open>
  Releasing. The library is given a description \<open>shm\<close> of the memory; for allocated memory of a context
  that serves a remote caller the offset identifies the object, else its buffer does.
\<close>

definition shm_matches :: "bool \<Rightarrow> TEEC_SharedMemoryHidl \<Rightarrow> TEEC_SharedMemoryHidl \<Rightarrow> bool" where
  "shm_matches hidl shm m \<longleftrightarrow>
     (if hidl \<and> sm_is_allocated shm then sm_offset m = sm_offset shm else sm_buffer m = sm_buffer shm) \<and>
     sm_context m = sm_context shm"

definition TEEC_FindAndRemoveShrMemHidl :: "TEEC_SharedMemoryHidl \<Rightarrow> ptr \<Rightarrow> world \<Rightarrow> bool \<times> ptr \<times> world" where
  "TEEC_FindAndRemoveShrMemHidl shm contextHidl w =
     (case ask (use_ctx contextHidl w) of (lockRet, w1) \<Rightarrow>
        if lockRet \<noteq> 0 then (False, NULL_ptr, w1)
        else case find_shm (shrd_mem_list (rd_ctx w1 contextHidl))
               (shm_matches (callFromHidl (rd_ctx w1 contextHidl)) shm) w1 of (a, w2) \<Rightarrow>
          if a = NULL_ptr then (False, NULL_ptr, w2)
          else (True, a, upd_ctx contextHidl (\<lambda>c. c\<lparr>shrd_mem_list := remove1 a (shrd_mem_list c)\<rparr>) w2))"

definition TEEC_ReleaseSharedMemoryHidl :: "TEEC_SharedMemoryHidl option \<Rightarrow> world \<Rightarrow> world" where
  "TEEC_ReleaseSharedMemoryHidl sharedMem w =
     (case sharedMem of
        None \<Rightarrow> w
      | Some shm \<Rightarrow>
          if sm_context shm = NULL_ptr then w
          else case TEEC_FindAndRemoveShrMemHidl shm (sm_context shm) w of (found, a, w1) \<Rightarrow>
            if \<not> found then w1 else PutBnShrMem a w1)"

definition TEEC_ReleaseSharedMemory :: "ptr \<Rightarrow> world \<Rightarrow> world" where
  "TEEC_ReleaseSharedMemory sharedMem w =
     (if sharedMem = NULL_ptr then w
      else let w0 = use_app_shm sharedMem w; a = rd_app_shm w0 sharedMem in
        if as_context a = NULL_ptr then w0
        else case GetBnContext (as_context a) w0 of (contextHidl, w1) \<Rightarrow>
          let shm = \<lparr>sm_buffer = as_buffer a, sm_size = as_size a, sm_flags = as_flags a,
                sm_ops_cnt = as_ops_cnt a, sm_is_allocated = as_is_allocated a, sm_context = contextHidl,
                sm_offset = 0\<rparr>;
              w2 = TEEC_ReleaseSharedMemoryHidl (Some shm) w1
          in upd_app_shm sharedMem (\<lambda>m. m\<lparr>as_buffer := NULL_ptr, as_size := 0, as_flags := 0, as_ops_cnt := 0,
               as_context := NULL_ptr\<rparr>) (snd (PutBnContext contextHidl w2)))"

section \<open>Agents and secure files\<close>

text \<open>The request of the agent calls carries the agent's number; the driver answers the shared buffer.\<close>

definition ioctl_agent :: "int \<Rightarrow> ioctl_req \<Rightarrow> u32 \<Rightarrow> world \<Rightarrow> int \<times> world" where
  "ioctl_agent fd req agentId w = ask (log_call (IoctlAgent fd req agentId) w)"

definition TEEC_EXT_RegisterAgent :: "u32 \<Rightarrow> bool \<Rightarrow> bool \<Rightarrow> world \<Rightarrow> TEEC_Result \<times> (int \<times> ptr) option \<times> world" where
  "TEEC_EXT_RegisterAgent agentId devFd_null buffer_null w =
     (if devFd_null \<or> buffer_null then (TEEC_ERROR_GENERIC, None, w)
      else case CaDaemonConnectWithoutCaInfo w of (fd, w1) \<Rightarrow>
        if fd < 0 then (TEEC_ERROR_GENERIC, None, w1)
        else case ioctl_agent fd REGISTER_AGENT agentId w1 of (ret, w2) \<Rightarrow>
          if ret \<noteq> 0 then (TEEC_ERROR_GENERIC, None, close_fd fd w2)
          else case ask w2 of (buf, w3) \<Rightarrow> (TEEC_SUCCESS, Some (fd, word_of_int buf), w3))"

definition TEEC_EXT_WaitEvent :: "u32 \<Rightarrow> int \<Rightarrow> world \<Rightarrow> TEEC_Result \<times> world" where
  "TEEC_EXT_WaitEvent agentId devFd w =
     (case ioctl_agent devFd WAIT_EVENT agentId w of (ret, w1) \<Rightarrow>
        (if ret \<noteq> 0 then TEEC_ERROR_GENERIC else TEEC_SUCCESS, w1))"

definition TEEC_EXT_SendEventResponse :: "u32 \<Rightarrow> int \<Rightarrow> world \<Rightarrow> TEEC_Result \<times> world" where
  "TEEC_EXT_SendEventResponse agentId devFd w =
     (case ioctl_agent devFd SEND_EVENT_RESPONSE agentId w of (ret, w1) \<Rightarrow>
        (if ret \<noteq> 0 then TEEC_ERROR_GENERIC else TEEC_SUCCESS, w1))"

text \<open>\<open>buffer\<close> is \<^const>\<open>None\<close> for a null argument, else what it points to; its new contents are returned.\<close>

definition TEEC_EXT_UnregisterAgent :: "u32 \<Rightarrow> int \<Rightarrow> ptr option \<Rightarrow> world \<Rightarrow> TEEC_Result \<times> ptr option \<times> world" where
  "TEEC_EXT_UnregisterAgent agentId devFd buffer w =
     (if buffer = None \<or> buffer = Some NULL_ptr then (TEEC_ERROR_BAD_PARAMETERS, buffer, w)
      else if devFd < 0 then (TEEC_ERROR_BAD_PARAMETERS, buffer, w)
      else case ioctl_agent devFd UNREGISTER_AGENT agentId w of (ret, w1) \<Rightarrow>
        (if ret \<noteq> 0 then TEEC_ERROR_GENERIC else TEEC_SUCCESS, Some NULL_ptr, close_fd devFd w1))"

definition TEEC_SendSecfileHidl :: "load_env \<Rightarrow> string option \<Rightarrow> int \<Rightarrow> CFILE option \<Rightarrow> world \<Rightarrow> TEEC_Result \<times> world" where
  "TEEC_SendSecfileHidl env path tzFd fp w =
     (if path = None then (TEEC_ERROR_BAD_PARAMETERS, w)
      else case TEEC_LoadSecfile env path tzFd fp w of (ret, w1) \<Rightarrow>
        (if ret < 0 then TEEC_ERROR_TRUSTED_APP_LOAD_ERROR else TEEC_SUCCESS, w1))"

definition TEEC_SendSecfile :: "load_env \<Rightarrow> string option \<Rightarrow> ptr \<Rightarrow> world \<Rightarrow> TEEC_Result \<times> world" where
  "TEEC_SendSecfile env path session w =
     (if path = None \<or> session = NULL_ptr then (TEEC_ERROR_BAD_PARAMETERS, w)
      else let w0 = use_sess session w in
        if ss_context (rd_sess w0 session) = NULL_ptr then (TEEC_ERROR_BAD_PARAMETERS, w0)
        else case GetBnContext (ss_context (rd_sess w0 session)) w0 of (contextHidl, w1) \<Rightarrow>
          if contextHidl = NULL_ptr then (TEEC_ERROR_BAD_PARAMETERS, w1)
          else case TEEC_SendSecfileHidl env path (cx_fd (rd_ctx w1 contextHidl)) None w1 of (ret, w2) \<Rightarrow>
            (ret, snd (PutBnContext contextHidl w2)))"

end
