(* ===== verification/Client_Inv.thy ===== *)
theory Client_Inv
  imports Client_State
begin

text \<open>
  The invariant of the client library and its preservation. \<open>held a\<close> is the number of references to
  context \<open>a\<close> that running calls hold; \<open>X\<close> is the set of shared-memory objects still being set up. Between
  two calls of one thread both are empty; in the middle of overlapping calls they are not.
\<close>

section \<open>The invariant\<close>

definition real_buf :: "TEEC_SharedMemoryHidl \<Rightarrow> bool" where
  "real_buf h \<longleftrightarrow> sm_is_allocated h \<and> sm_buffer h \<noteq> NULL_ptr \<and>
     (is_zero_copy (sm_flags h) \<or> sm_buffer h \<noteq> ZERO_SIZE_PTR \<and> sm_size h \<noteq> 0)"

definition owns :: "(ptr \<Rightarrow> block option) \<Rightarrow> TEEC_SharedMemoryHidl \<Rightarrow> bool" where
  "owns blocks h \<longleftrightarrow>
     (if is_zero_copy (sm_flags h) then \<exists>bs. blocks (sm_buffer h) = Some (Heap bs)
      else \<exists>fd off. blocks (sm_buffer h) = Some (Mapped fd (sm_size h) off))"

text \<open>A context: its counter is the number of references, its descriptor is open, its list is well formed.\<close>

definition ctx_ok :: "world \<Rightarrow> (ptr \<Rightarrow> nat) \<Rightarrow> ptr set \<Rightarrow> ptr \<Rightarrow> TEEC_ContextHidl \<Rightarrow> bool" where
  "ctx_ok w held X a c \<longleftrightarrow>
     unat (cx_ops_cnt c) = of_bool (a \<in> set (g_teecContextList w)) + held a \<and>
     0 \<le> cx_fd c \<and> open_fds w (cx_fd c) \<and> length (shm_bitmap c) = 8 \<and> distinct (shrd_mem_list c) \<and>
     (\<forall>m \<in> set (shrd_mem_list c). m \<notin> X \<and> (\<exists>h. w_shms w m = Some h \<and> sm_context h = a))"

text \<open>A shared memory: counted once, in the list of its live context, and the owner of its buffer.\<close>

definition shm_ok :: "world \<Rightarrow> ptr \<Rightarrow> TEEC_SharedMemoryHidl \<Rightarrow> bool" where
  "shm_ok w m h \<longleftrightarrow>
     sm_ops_cnt h = 1 \<and> (\<exists>c. w_ctxs w (sm_context h) = Some c \<and> m \<in> set (shrd_mem_list c)) \<and>
     (real_buf h \<longrightarrow> owns (w_blocks w) h)"

definition inv_ctxs :: "world \<Rightarrow> (ptr \<Rightarrow> nat) \<Rightarrow> ptr set \<Rightarrow> bool" where
  "inv_ctxs w held X \<longleftrightarrow>
     distinct (g_teecContextList w) \<and> (\<forall>a \<in> set (g_teecContextList w). w_ctxs w a \<noteq> None) \<and>
     w_ctxs w NULL_ptr = None \<and> (\<forall>a. w_ctxs w a = None \<longrightarrow> held a = 0) \<and>
     (\<forall>a c. w_ctxs w a = Some c \<longrightarrow> ctx_ok w held X a c)"

definition inv_fds :: "world \<Rightarrow> bool" where
  "inv_fds w \<longleftrightarrow> (\<forall>a b c d. w_ctxs w a = Some c \<longrightarrow> w_ctxs w b = Some d \<longrightarrow> cx_fd c = cx_fd d \<longrightarrow> a = b)"

definition inv_shms :: "world \<Rightarrow> ptr set \<Rightarrow> bool" where
  "inv_shms w X \<longleftrightarrow> w_shms w NULL_ptr = None \<and> (\<forall>m \<in> X. w_shms w m \<noteq> None) \<and> (\<forall>m h. w_shms w m = Some h \<longrightarrow> m \<notin> X \<longrightarrow> shm_ok w m h)"

definition inv_bufs :: "world \<Rightarrow> ptr set \<Rightarrow> bool" where
  "inv_bufs w X \<longleftrightarrow>
     (\<forall>m n h k. w_shms w m = Some h \<longrightarrow> w_shms w n = Some k \<longrightarrow> m \<notin> X \<longrightarrow> n \<notin> X \<longrightarrow>
        real_buf h \<longrightarrow> real_buf k \<longrightarrow> sm_buffer h = sm_buffer k \<longrightarrow> m = n)"

definition client_inv :: "world \<Rightarrow> (ptr \<Rightarrow> nat) \<Rightarrow> ptr set \<Rightarrow> bool" where
  "client_inv w held X \<longleftrightarrow> inv_ctxs w held X \<and> inv_fds w \<and> inv_shms w X \<and> inv_bufs w X"

lemmas client_inv_defs = client_inv_def inv_ctxs_def inv_fds_def inv_shms_def inv_bufs_def ctx_ok_def shm_ok_def

section \<open>Steps that leave the library's state alone\<close>

definition lib_same :: "world \<Rightarrow> world \<Rightarrow> bool" where
  "lib_same w w' \<longleftrightarrow> w_ctxs w' = w_ctxs w \<and> g_teecContextList w' = g_teecContextList w \<and>
     w_shms w' = w_shms w \<and> w_blocks w' = w_blocks w \<and> open_fds w' = open_fds w \<and> fault w' = fault w"

lemma lib_same_refl [simp]: "lib_same w w"
  by (simp add: lib_same_def)

lemma lib_same_trans: "lib_same w w1 \<Longrightarrow> lib_same w1 w2 \<Longrightarrow> lib_same w w2"
  by (simp add: lib_same_def)

lemma lib_same_inv: "lib_same w w' \<Longrightarrow> client_inv w' held X \<longleftrightarrow> client_inv w held X"
  by (simp add: lib_same_def client_inv_defs)

lemma lib_same_rd: "lib_same w w' \<Longrightarrow> rd_ctx w' a = rd_ctx w a \<and> rd_shm w' a = rd_shm w a"
  by (simp add: lib_same_def rd_ctx_def rd_shm_def)

lemma lib_same_ask: "ask w = (r, w') \<Longrightarrow> lib_same w w'"
  by (auto simp: ask_def lib_same_def)

lemma lib_same_marks [simp]:
  "lib_same w (use_sess a w)" "lib_same w (use_app_ctx a w)" "lib_same w (use_app_shm a w)" "lib_same w (use_op a w)"
  "lib_same w (upd_sess a f w)" "lib_same w (upd_app_ctx a g w)" "lib_same w (upd_app_shm a k w)"
  "lib_same w (upd_op a l w)" "lib_same w (log_call c w)" "lib_same w (free_sess a w)"
  by (auto simp: lib_same_def use_sess_def use_app_ctx_def use_app_shm_def use_op_def upd_sess_def
      upd_app_ctx_def upd_app_shm_def upd_op_def log_call_def free_sess_def app_faulty_def split: option.splits)

lemma lib_same_use_ctx: "w_ctxs w a \<noteq> None \<Longrightarrow> use_ctx a w = w"
  by (auto simp: use_ctx_def)

lemma lib_same_use_shm: "w_shms w a \<noteq> None \<Longrightarrow> use_shm a w = w"
  by (auto simp: use_shm_def)

text \<open>Trailing versions, for chains of steps.\<close>

lemma lib_same_step [intro]:
  "lib_same v w \<Longrightarrow> lib_same v (use_sess a w)" "lib_same v w \<Longrightarrow> lib_same v (use_app_ctx a w)"
  "lib_same v w \<Longrightarrow> lib_same v (use_app_shm a w)" "lib_same v w \<Longrightarrow> lib_same v (use_op a w)"
  "lib_same v w \<Longrightarrow> lib_same v (upd_sess a f w)" "lib_same v w \<Longrightarrow> lib_same v (upd_app_ctx a g w)"
  "lib_same v w \<Longrightarrow> lib_same v (upd_app_shm a k w)" "lib_same v w \<Longrightarrow> lib_same v (upd_op a l w)"
  "lib_same v w \<Longrightarrow> lib_same v (log_call c w)" "lib_same v w \<Longrightarrow> lib_same v (free_sess a w)"
  by (rule lib_same_trans, assumption, rule lib_same_marks)+

lemma lib_same_ask_step: "ask w = (r, w') \<Longrightarrow> lib_same v w \<Longrightarrow> lib_same v w'"
  using lib_same_trans lib_same_ask by blast

lemma lib_same_ioctl: "ioctl_cli fd req cli w = (r, cli', w') \<Longrightarrow> lib_same w w'"
  by (auto simp: ioctl_cli_def lib_same_def ask_def log_call_def split: prod.splits)

lemma lib_same_alive: "lib_same w w' \<Longrightarrow> w_ctxs w a \<noteq> None \<Longrightarrow> w_ctxs w' a \<noteq> None"
  by (simp add: lib_same_def)

lemma lib_same_encode_one: "encode_one op i cli w = (t, cli', w') \<Longrightarrow> lib_same w w'"
  by (auto simp: encode_one_def TEEC_EncodePartialParam_def Let_def split: if_splits prod.splits)

lemma lib_same_EncodeParam: "TEEC_EncodeParam cli op w = (cli', w') \<Longrightarrow> lib_same w w'"
  by (auto simp: TEEC_EncodeParam_def split: prod.splits dest!: lib_same_encode_one)
     (blast intro: lib_same_trans)

lemma lib_same_Encode: "TEEC_Encode cli u s c l op w = (r, cli', w') \<Longrightarrow> lib_same w w'"
  by (auto simp: TEEC_Encode_def Let_def split: if_splits prod.splits dest!: lib_same_ask lib_same_EncodeParam)
     (blast intro: lib_same_trans lib_same_step)+

lemma lib_same_CloseSessionHidl:
  assumes "w_ctxs w context \<noteq> None"
  shows "lib_same w (TEEC_CloseSessionHidl session context w)"
proof (cases "session = NULL_ptr \<or> context = NULL_ptr")
  case False
  define w1 where "w1 = use_sess session w"
  obtain r cli w2 where enc: "TEEC_Encode zero_cli (service_id (rd_sess w1 session)) (session_id (rd_sess w1 session))
      GLOBAL_CMD_ID_CLOSE_SESSION \<lparr>lg_method = 0, lg_mdata = 0\<rparr> NULL_ptr w1 = (r, cli, w2)"
    by (cases "TEEC_Encode zero_cli (service_id (rd_sess w1 session)) (session_id (rd_sess w1 session))
      GLOBAL_CMD_ID_CLOSE_SESSION \<lparr>lg_method = 0, lg_mdata = 0\<rparr> NULL_ptr w1") auto
  have 2: "lib_same w w2" using lib_same_trans [OF _ lib_same_Encode [OF enc], of w] by (simp add: w1_def)
  then have use: "use_ctx context w2 = w2" using assms by (simp add: lib_same_use_ctx lib_same_def)
  obtain i cli' w4 where io: "ioctl_cli (cx_fd (rd_ctx w2 context)) SES_CLOSE_REQ cli w2 = (i, cli', w4)"
    by (cases "ioctl_cli (cx_fd (rd_ctx w2 context)) SES_CLOSE_REQ cli w2") auto
  have 4: "lib_same w w4" using lib_same_trans [OF 2 lib_same_ioctl [OF io]] .
  show ?thesis
    using False 2 4 enc io
    by (auto simp: TEEC_CloseSessionHidl_def Let_def w1_def [symmetric] use split: prod.splits
        intro!: lib_same_step intro: lib_same_ask_step)
qed (auto simp: TEEC_CloseSessionHidl_def)

lemma lib_same_find_shm_buffer:
  "\<forall>m \<in> set ms. w_shms w m \<noteq> None \<Longrightarrow> find_shm_buffer ms b w = (r, w') \<Longrightarrow> w' = w"
  by (induction ms b w rule: find_shm_buffer.induct) (auto simp: Let_def use_shm_def split: if_splits)

lemma listed_shms_alive:
  "client_inv w held X \<Longrightarrow> w_ctxs w a = Some c \<Longrightarrow> m \<in> set (shrd_mem_list c) \<Longrightarrow>
     \<exists>h. w_shms w m = Some h \<and> sm_context h = a \<and> m \<notin> X"
  by (auto simp: client_inv_defs)

lemma lib_same_CheckSharedBufferExist:
  assumes inv: "client_inv w held X" and ctx: "context = NULL_ptr \<or> w_ctxs w context \<noteq> None"
    and run: "CheckSharedBufferExist context p w = (r, w')"
  shows "lib_same w w'"
proof (cases "context = NULL_ptr")
  case False
  then obtain c where c: "w_ctxs w context = Some c" using ctx by auto
  obtain l w1 where a: "ask (use_ctx context w) = (l, w1)" by (cases "ask (use_ctx context w)")
  have s1: "lib_same w w1" using a c by (auto simp: use_ctx_def dest: lib_same_ask)
  have "\<forall>m \<in> set (shrd_mem_list (rd_ctx w1 context)). w_shms w1 m \<noteq> None"
    using listed_shms_alive [OF inv c] s1 c by (auto simp: lib_same_def rd_ctx_def)
  then have "l = 0 \<Longrightarrow> w' = w1" using run False a lib_same_find_shm_buffer by (simp add: CheckSharedBufferExist_def)
  then show ?thesis using run False a s1 by (cases "l = 0") (auto simp: CheckSharedBufferExist_def)
qed (use run in \<open>auto simp: CheckSharedBufferExist_def\<close>)

lemma lib_same_CheckMemRef:
  assumes inv: "client_inv w held X" and ctx: "context = NULL_ptr \<or> w_ctxs w context \<noteq> None"
    and run: "TEEC_CheckMemRef context p t w = (r, w')"
  shows "lib_same w w'"
proof -
  define w1 where "w1 = use_app_shm (memref_parent p) w"
  have s1: "lib_same w w1" by (simp add: w1_def)
  have inv1: "client_inv w1 held X" "context = NULL_ptr \<or> w_ctxs w1 context \<noteq> None"
    using inv ctx s1 lib_same_inv [OF s1] by (auto simp: lib_same_def)
  obtain f w2 where f: "CheckSharedBufferExist context p w1 = (f, w2)" by (cases "CheckSharedBufferExist context p w1")
  have "lib_same w w2" using lib_same_trans [OF s1 lib_same_CheckSharedBufferExist [OF inv1 f]] .
  then show ?thesis
    using run s1 f by (auto simp: TEEC_CheckMemRef_def Let_def w1_def [symmetric] split: if_splits)
qed

lemma lib_same_check_one:
  assumes "client_inv w held X" "context = NULL_ptr \<or> w_ctxs w context \<noteq> None" "check_one context op i w = (r, w')"
  shows "lib_same w w'"
  using assms(3) lib_same_CheckMemRef [OF assms(1,2)]
  by (auto simp: check_one_def Let_def split: if_splits)

lemma lib_same_check_loop:
  assumes "client_inv w held X" "context = NULL_ptr \<or> w_ctxs w context \<noteq> None" "check_loop context op is w = (r, w')"
  shows "lib_same w w'"
  using assms
proof (induction "is" arbitrary: w)
  case (Cons i "is")
  obtain r1 w1 where one: "check_one context op i w = (r1, w1)" by (cases "check_one context op i w")
  have s1: "lib_same w w1" using lib_same_check_one [OF Cons.prems(1,2) one] .
  have "client_inv w1 held X" "context = NULL_ptr \<or> w_ctxs w1 context \<noteq> None"
    using Cons.prems s1 lib_same_inv [OF s1] by (auto simp: lib_same_def)
  then show ?case using Cons.IH [of w1] Cons.prems(3) one s1 by (auto split: if_splits intro: lib_same_trans)
qed simp

lemma lib_same_CheckOperation:
  assumes inv: "client_inv w held X" and ctx: "context = NULL_ptr \<or> w_ctxs w context \<noteq> None"
    and run: "TEEC_CheckOperation context op w = (r, w')"
  shows "lib_same w w'"
proof -
  define w1 where "w1 = use_op op w"
  have s1: "lib_same w w1" by (simp add: w1_def)
  have "client_inv w1 held X" "context = NULL_ptr \<or> w_ctxs w1 context \<noteq> None"
    using inv ctx s1 lib_same_inv [OF s1] by (auto simp: lib_same_def)
  note loop = lib_same_check_loop [OF this]
  show ?thesis
    using run s1 loop
    by (auto simp: TEEC_CheckOperation_def Let_def w1_def [symmetric] simp del: check_loop.simps
        split: if_splits intro: lib_same_trans)
qed

lemma lib_same_CheckRegisterShm: "CheckRegisterShm op w = (r, w') \<Longrightarrow> lib_same w w'"
  by (auto simp: CheckRegisterShm_def Let_def split: if_splits)

section \<open>Finding a context\<close>

lemma find_ctx_spec:
  assumes "find_ctx as fd w = (a, w')" "\<forall>x \<in> set as. w_ctxs w x \<noteq> None" "NULL_ptr \<notin> set as"
  shows "w' = w \<and> (a = NULL_ptr \<longrightarrow> (\<forall>x \<in> set as. cx_fd (rd_ctx w x) \<noteq> fd)) \<and>
    (a \<noteq> NULL_ptr \<longrightarrow> a \<in> set as \<and> cx_fd (rd_ctx w a) = fd)"
  using assms by (induction as fd w rule: find_ctx.induct) (auto simp: Let_def use_ctx_def split: if_splits)

lemma FindBnContext_spec:
  assumes inv: "client_inv w held X" and run: "FindBnContext context w = (a, w')"
  shows "lib_same w w' \<and> (a \<noteq> NULL_ptr \<longrightarrow> a \<in> set (g_teecContextList w) \<and>
     (\<exists>c. w_ctxs w a = Some c \<and> cx_fd c = ac_fd (rd_app_ctx w context)))"
proof (cases "context = NULL_ptr \<or> g_teecContextList w = []")
  case False
  define w1 where "w1 = use_app_ctx context w"
  have s1: "lib_same w w1" by (simp add: w1_def)
  have rd: "rd_app_ctx w1 context = rd_app_ctx w context" unfolding w1_def by (rule rd_same) simp
  have "find_ctx (g_teecContextList w1) (ac_fd (rd_app_ctx w1 context)) w1 = (a, w')"
    using run False by (simp add: FindBnContext_def Let_def w1_def [symmetric])
  moreover have "\<forall>x \<in> set (g_teecContextList w1). w_ctxs w1 x \<noteq> None" "NULL_ptr \<notin> set (g_teecContextList w1)"
    using inv s1 by (auto simp: lib_same_def client_inv_defs)
  ultimately have "w' = w1 \<and> (a \<noteq> NULL_ptr \<longrightarrow> a \<in> set (g_teecContextList w1) \<and> cx_fd (rd_ctx w1 a) = ac_fd (rd_app_ctx w1 context))"
    using find_ctx_spec by blast
  then show ?thesis
    using s1 inv rd by (auto simp: lib_same_def client_inv_defs rd_ctx_def)
qed (use run in \<open>auto simp: FindBnContext_def split: if_splits\<close>)

text \<open>Taking a reference.\<close>

lemma upd_ctx_Some: "w_ctxs w a = Some c \<Longrightarrow> upd_ctx a f w = w\<lparr>w_ctxs := (w_ctxs w)(a \<mapsto> f c)\<rparr>"
  by (simp add: upd_ctx_def)

lemma upd_shm_Some: "w_shms w a = Some m \<Longrightarrow> upd_shm a f w = w\<lparr>w_shms := (w_shms w)(a \<mapsto> f m)\<rparr>"
  by (simp add: upd_shm_def)

text \<open>Replacing a context by one with the same descriptor and list only needs its own counter.\<close>

lemma client_inv_ctx:
  assumes inv: "client_inv w held X" and c: "w_ctxs w a = Some c"
    and same: "cx_fd c' = cx_fd c" "shrd_mem_list c' = shrd_mem_list c" "length (shm_bitmap c') = 8"
    and cnt: "unat (cx_ops_cnt c') = of_bool (a \<in> set (g_teecContextList w)) + n"
  shows "client_inv (w\<lparr>w_ctxs := (w_ctxs w)(a \<mapsto> c')\<rparr>) (held(a := n)) X"
proof -
  let ?w = "w\<lparr>w_ctxs := (w_ctxs w)(a \<mapsto> c')\<rparr>"
  have 1: "inv_ctxs ?w (held(a := n)) X"
    using inv c same cnt by (auto simp: client_inv_def inv_ctxs_def ctx_ok_def)
  have 2: "inv_fds ?w"
  proof -
    have "w_ctxs ?w x = Some d \<Longrightarrow> \<exists>d'. w_ctxs w x = Some d' \<and> cx_fd d' = cx_fd d" for x d
      using c same by (cases "x = a") auto
    then show ?thesis using inv unfolding client_inv_def inv_fds_def by metis
  qed
  have 3: "inv_shms ?w X"
  proof -
    have "w_ctxs w x = Some d \<Longrightarrow> \<exists>d'. w_ctxs ?w x = Some d' \<and> shrd_mem_list d' = shrd_mem_list d" for x d
      using c same by (cases "x = a") auto
    then have "shm_ok w m h \<Longrightarrow> shm_ok ?w m h" for m h
      unfolding shm_ok_def by (simp del: fun_upd_apply) metis
    then show ?thesis using inv by (simp add: client_inv_def inv_shms_def)
  qed
  have 4: "inv_bufs ?w X" using inv by (simp add: client_inv_def inv_bufs_def)
  show ?thesis using 1 2 3 4 by (simp add: client_inv_def)
qed

definition room :: "(ptr \<Rightarrow> nat) \<Rightarrow> bool" where
  "room held \<longleftrightarrow> (\<forall>a. held a < 2 ^ 31)"

lemma AtomInc_room:
  assumes "unat (c :: u32) = b + n" "b \<le> 1" "n < 2 ^ 31"
  shows "unat (AtomInc c) = b + Suc n"
proof -
  have "Suc (unat c) < 2 ^ 32" using assms by simp
  then show ?thesis using assms AtomInc_unat by simp
qed

lemma GetBnContext_inv:
  assumes inv: "client_inv w held X" and room: "room held" and run: "GetBnContext context w = (a, w')"
  shows "fault w' = fault w \<and> w_shms w' = w_shms w \<and> w_blocks w' = w_blocks w \<and>
    (if a = NULL_ptr then lib_same w w'
     else client_inv w' (held(a := Suc (held a))) X \<and> w_ctxs w' a \<noteq> None \<and> a \<in> set (g_teecContextList w) \<and>
       g_teecContextList w' = g_teecContextList w \<and> (\<forall>b. w_ctxs w' b = None \<longleftrightarrow> w_ctxs w b = None))"
proof -
  obtain l w1 where l: "MutexLockContext w = (l, w1)" by (cases "MutexLockContext w")
  have s1: "lib_same w w1" using l by (simp add: MutexLockContext_def lib_same_ask)
  have inv1: "client_inv w1 held X" using inv lib_same_inv [OF s1] by simp
  obtain b w2 where f: "FindBnContext context w1 = (b, w2)" by (cases "FindBnContext context w1")
  note fs = FindBnContext_spec [OF inv1 f]
  have s2: "lib_same w w2" using lib_same_trans [OF s1] fs by blast
  show ?thesis
  proof (cases "l = 0 \<and> b \<noteq> NULL_ptr")
    case False
    then show ?thesis using run l f s1 s2 by (auto simp: GetBnContext_def lib_same_def split: if_splits)
  next
    case True
    then have a: "a = b" "w' = upd_ctx b (\<lambda>c. c\<lparr>cx_ops_cnt := AtomInc (cx_ops_cnt c)\<rparr>) w2"
      using run l f by (auto simp: GetBnContext_def)
    obtain c where c: "w_ctxs w2 b = Some c" "b \<in> set (g_teecContextList w2)"
      using fs True s2 s1 by (auto simp: lib_same_def)
    have inv2: "client_inv w2 held X" using inv lib_same_inv [OF s2] by simp
    have ok: "unat (cx_ops_cnt c) = of_bool (b \<in> set (g_teecContextList w2)) + held b" "length (shm_bitmap c) = 8"
      using inv2 c by (auto simp: client_inv_defs)
    have "unat (AtomInc (cx_ops_cnt c)) = of_bool (b \<in> set (g_teecContextList w2)) + Suc (held b)"
      using AtomInc_room [OF ok(1)] room by (auto simp: room_def)
    then have "client_inv w' (held(b := Suc (held b))) X"
      unfolding a(2) upd_ctx_Some [OF c(1)] by (intro client_inv_ctx [OF inv2 c(1)]) (use ok in simp_all)
    then show ?thesis using a c s2 True upd_ctx_Some [OF c(1)] by (auto simp: lib_same_def)
  qed
qed

section \<open>Dropping a shared memory\<close>

lemma ClearBitWithLock_length:
  "\<exists>bm'. ClearBitWithLock l off n (Some bm) = Some bm' \<and> length bm' = length bm"
  by (simp add: ClearBitWithLock_def ClearBit_def)

lemma clear_shm_bit_eff:
  assumes "w_ctxs w a = Some c" "length (shm_bitmap c) = 8"
  shows "\<exists>bm. length bm = 8 \<and> w_ctxs (clear_shm_bit a off w) = (w_ctxs w)(a \<mapsto> c\<lparr>shm_bitmap := bm\<rparr>) \<and>
     g_teecContextList (clear_shm_bit a off w) = g_teecContextList w \<and> w_shms (clear_shm_bit a off w) = w_shms w \<and>
     w_blocks (clear_shm_bit a off w) = w_blocks w \<and> open_fds (clear_shm_bit a off w) = open_fds w \<and>
     fault (clear_shm_bit a off w) = fault w"
proof -
  obtain l w1 where l: "ask w = (l, w1)" by (cases "ask w")
  obtain bm where bm: "ClearBitWithLock l off NUM_OF_SHAREMEM_BITMAP (Some (shm_bitmap c)) = Some bm" "length bm = 8"
    using ClearBitWithLock_length assms(2) by metis
  have "w_ctxs w1 a = Some c" using lib_same_ask [OF l] assms(1) by (simp add: lib_same_def)
  then show ?thesis using lib_same_ask [OF l] bm l by (auto simp: clear_shm_bit_def lib_same_def upd_ctx_def)
qed

lemma free_block_eff:
  "w_blocks w p = Some (Heap bs) \<Longrightarrow> p \<noteq> NULL_ptr \<Longrightarrow>
     w_blocks (free_block p w) = (w_blocks w)(p := None) \<and> w_ctxs (free_block p w) = w_ctxs w \<and>
     w_shms (free_block p w) = w_shms w \<and> g_teecContextList (free_block p w) = g_teecContextList w \<and>
     open_fds (free_block p w) = open_fds w \<and> fault (free_block p w) = fault w"
  by (simp add: free_block_def log_call_def)

lemma munmap_block_eff:
  "w_blocks w p = Some (Mapped fd sz off) \<Longrightarrow>
     (let w' = snd (munmap_block p sz w) in
      w_blocks w' = (w_blocks w)(p := None) \<and> w_ctxs w' = w_ctxs w \<and> w_shms w' = w_shms w \<and>
      g_teecContextList w' = g_teecContextList w \<and> open_fds w' = open_fds w \<and> fault w' = fault w)"
  by (simp add: munmap_block_def log_call_def ask_def)

lemma ReleaseSharedMemory_eff:
  assumes h: "w_shms w m = Some h" and c: "w_ctxs w (sm_context h) = Some c" "length (shm_bitmap c) = 8"
    and own: "real_buf h \<longrightarrow> owns (w_blocks w) h"
  shows "\<exists>bm. length bm = 8 \<and>
    (let w' = ReleaseSharedMemory m w in
     fault w' = fault w \<and> w_shms w' = (w_shms w)(m := None) \<and> g_teecContextList w' = g_teecContextList w \<and>
     open_fds w' = open_fds w \<and> w_ctxs w' = (w_ctxs w)(sm_context h \<mapsto> c\<lparr>shm_bitmap := bm\<rparr>) \<and>
     w_blocks w' = (if real_buf h then (w_blocks w)(sm_buffer h := None) else w_blocks w))"
proof -
  have use: "use_shm m w = w" "rd_shm w m = h" using h by (simp_all add: use_shm_def rd_shm_def)
  show ?thesis
  proof (cases "sm_is_allocated h \<and> sm_buffer h \<noteq> NULL_ptr")
    case False
    have "c\<lparr>shm_bitmap := shm_bitmap c\<rparr> = c" by simp
    then have "(w_ctxs w)(sm_context h \<mapsto> c\<lparr>shm_bitmap := shm_bitmap c\<rparr>) = w_ctxs w" using c(1) by auto
    moreover have "\<not> real_buf h" using False by (auto simp: real_buf_def)
    ultimately show ?thesis
      using False h c(2) use
      by (intro exI [of _ "shm_bitmap c"]) (auto simp: ReleaseSharedMemory_def Let_def free_shm_def log_call_def)
  next
    case True
    define w1 where "w1 = (if is_zero_copy (sm_flags h) then free_block (sm_buffer h) w
                  else if sm_buffer h \<noteq> ZERO_SIZE_PTR \<and> sm_size h \<noteq> 0
                  then snd (munmap_block (sm_buffer h) (sm_size h) w) else w)"
    have w1: "w_blocks w1 = (if real_buf h then (w_blocks w)(sm_buffer h := None) else w_blocks w) \<and>
      w_ctxs w1 = w_ctxs w \<and> w_shms w1 = w_shms w \<and> g_teecContextList w1 = g_teecContextList w \<and>
      open_fds w1 = open_fds w \<and> fault w1 = fault w"
    proof (cases "real_buf h")
      case r: True
      show ?thesis
      proof (cases "is_zero_copy (sm_flags h)")
        case True
        then obtain bs where "w_blocks w (sm_buffer h) = Some (Heap bs)" using own r by (auto simp: owns_def)
        then show ?thesis using True r free_block_eff by (auto simp: w1_def real_buf_def)
      next
        case False
        then obtain fd off where "w_blocks w (sm_buffer h) = Some (Mapped fd (sm_size h) off)"
          using own r by (auto simp: owns_def)
        then show ?thesis using False r munmap_block_eff by (auto simp: w1_def real_buf_def Let_def)
      qed
    next
      case False
      then show ?thesis using True by (auto simp: w1_def real_buf_def)
    qed
    have rel: "ReleaseSharedMemory m w = free_shm m (clear_shm_bit (sm_context h) (sm_offset h) w1)"
      using True use by (simp add: ReleaseSharedMemory_def Let_def is_zero_copy_def w1_def)
    obtain bm where "length bm = 8 \<and> w_ctxs (clear_shm_bit (sm_context h) (sm_offset h) w1)
         = (w_ctxs w1)(sm_context h \<mapsto> c\<lparr>shm_bitmap := bm\<rparr>) \<and>
       g_teecContextList (clear_shm_bit (sm_context h) (sm_offset h) w1) = g_teecContextList w1 \<and>
       w_shms (clear_shm_bit (sm_context h) (sm_offset h) w1) = w_shms w1 \<and>
       w_blocks (clear_shm_bit (sm_context h) (sm_offset h) w1) = w_blocks w1 \<and>
       open_fds (clear_shm_bit (sm_context h) (sm_offset h) w1) = open_fds w1 \<and>
       fault (clear_shm_bit (sm_context h) (sm_offset h) w1) = fault w1"
      using clear_shm_bit_eff [of w1 "sm_context h" c "sm_offset h"] c w1 by auto
    then show ?thesis using w1 h
      by (intro exI [of _ bm]) (simp add: rel Let_def free_shm_def log_call_def)
  qed
qed

text \<open>Unlinking a shared memory and dropping its only reference frees it and its buffer.\<close>

definition unlink_shm :: "ptr \<Rightarrow> ptr \<Rightarrow> world \<Rightarrow> world" where
  "unlink_shm a m w = PutBnShrMem m (upd_ctx a (\<lambda>c. c\<lparr>shrd_mem_list := remove1 m (shrd_mem_list c)\<rparr>) w)"

lemma unlink_shm_eff:
  assumes inv: "client_inv w held X" and c: "w_ctxs w a = Some c" and m: "m \<in> set (shrd_mem_list c)"
  obtains h bm where "w_shms w m = Some h" "sm_context h = a" "m \<notin> X" "length bm = 8"
    "w_shms (unlink_shm a m w) = (w_shms w)(m := None)"
    "w_ctxs (unlink_shm a m w) = (w_ctxs w)(a \<mapsto> c\<lparr>shrd_mem_list := remove1 m (shrd_mem_list c), shm_bitmap := bm\<rparr>)"
    "w_blocks (unlink_shm a m w) = (if real_buf h then (w_blocks w)(sm_buffer h := None) else w_blocks w)"
    "g_teecContextList (unlink_shm a m w) = g_teecContextList w" "open_fds (unlink_shm a m w) = open_fds w"
    "fault (unlink_shm a m w) = fault w"
proof -
  obtain h where h: "w_shms w m = Some h" "sm_context h = a" "m \<notin> X" using listed_shms_alive [OF inv c m] by auto
  have ok: "sm_ops_cnt h = 1" "real_buf h \<longrightarrow> owns (w_blocks w) h" "length (shm_bitmap c) = 8" "m \<noteq> NULL_ptr"
    using inv h c by (auto simp: client_inv_defs)
  define c1 where "c1 = c\<lparr>shrd_mem_list := remove1 m (shrd_mem_list c)\<rparr>"
  define w1 where "w1 = w\<lparr>w_ctxs := (w_ctxs w)(a \<mapsto> c1)\<rparr>"
  define h0 where "h0 = h\<lparr>sm_ops_cnt := 0\<rparr>"
  define w2 where "w2 = w1\<lparr>w_shms := (w_shms w1)(m \<mapsto> h0)\<rparr>"
  have put: "unlink_shm a m w = ReleaseSharedMemory m w2"
    using c h ok(1,4)
    by (simp add: unlink_shm_def PutBnShrMem_def upd_ctx_def upd_shm_def rd_shm_def AtomDecAndCompareWithZero_def
        Let_def w1_def [symmetric] c1_def [symmetric] h0_def w2_def) (simp add: w1_def)
  have real: "real_buf h0 = real_buf h" "sm_buffer h0 = sm_buffer h" "sm_context h0 = a" "owns bl h0 = owns bl h" for bl
    by (simp_all add: h0_def real_buf_def owns_def h)
  have "w_shms w2 m = Some h0" "w_ctxs w2 (sm_context h0) = Some c1" "length (shm_bitmap c1) = 8"
    "real_buf h0 \<longrightarrow> owns (w_blocks w2) h0"
    using ok real by (simp_all add: w2_def w1_def c1_def)
  from ReleaseSharedMemory_eff [OF this] obtain bm where "length bm = 8"
    "fault (unlink_shm a m w) = fault w" "w_shms (unlink_shm a m w) = (w_shms w)(m := None)"
    "g_teecContextList (unlink_shm a m w) = g_teecContextList w" "open_fds (unlink_shm a m w) = open_fds w"
    "w_ctxs (unlink_shm a m w) = (w_ctxs w)(a \<mapsto> c1\<lparr>shm_bitmap := bm\<rparr>)"
    "w_blocks (unlink_shm a m w) = (if real_buf h then (w_blocks w)(sm_buffer h := None) else w_blocks w)"
    unfolding put Let_def by (auto simp: real w2_def w1_def)
  then show thesis using that h by (simp add: c1_def)
qed

lemma unlink_shm_inv:
  assumes inv: "client_inv w held X" and c: "w_ctxs w a = Some c" and m: "m \<in> set (shrd_mem_list c)"
  shows "client_inv (unlink_shm a m w) held X"
proof -
  obtain h bm where e: "w_shms w m = Some h" "sm_context h = a" "m \<notin> X" "length bm = 8"
    "w_shms (unlink_shm a m w) = (w_shms w)(m := None)"
    "w_ctxs (unlink_shm a m w) = (w_ctxs w)(a \<mapsto> c\<lparr>shrd_mem_list := remove1 m (shrd_mem_list c), shm_bitmap := bm\<rparr>)"
    "w_blocks (unlink_shm a m w) = (if real_buf h then (w_blocks w)(sm_buffer h := None) else w_blocks w)"
    "g_teecContextList (unlink_shm a m w) = g_teecContextList w" "open_fds (unlink_shm a m w) = open_fds w"
    "fault (unlink_shm a m w) = fault w"
    by (rule unlink_shm_eff [OF inv c m])
  define c' where "c' = c\<lparr>shrd_mem_list := remove1 m (shrd_mem_list c), shm_bitmap := bm\<rparr>"
  have c': "cx_fd c' = cx_fd c" "cx_ops_cnt c' = cx_ops_cnt c" "set (shrd_mem_list c') = set (shrd_mem_list c) - {m}"
    "length (shm_bitmap c') = 8" "distinct (shrd_mem_list c')"
    using inv c e(4) by (auto simp: c'_def client_inv_defs set_remove1_eq)
  note e6 = e(6) [folded c'_def]
  have only: "m \<notin> set (shrd_mem_list d)" if "w_ctxs w b = Some d" "b \<noteq> a" for b d
    using listed_shms_alive [OF inv that(1), of m] e(1,2) that(2) by auto
  have 1: "inv_ctxs (unlink_shm a m w) held X"
    using inv c c' only unfolding client_inv_def inv_ctxs_def ctx_ok_def e(5) e6 e(8,9)
    by (auto split: if_splits)
  have 2: "inv_fds (unlink_shm a m w)"
  proof -
    have "w_ctxs (unlink_shm a m w) x = Some d \<Longrightarrow> \<exists>d'. w_ctxs w x = Some d' \<and> cx_fd d' = cx_fd d" for x d
      using c c' e6 by (cases "x = a") auto
    then show ?thesis using inv unfolding client_inv_def inv_fds_def by metis
  qed
  have 3: "inv_shms (unlink_shm a m w) X"
    unfolding inv_shms_def
  proof (intro conjI allI impI)
    show "w_shms (unlink_shm a m w) NULL_ptr = None" using inv e(5) by (simp add: client_inv_defs)
    show "\<forall>n \<in> X. w_shms (unlink_shm a m w) n \<noteq> None" using inv e(3,5) by (auto simp: client_inv_def inv_shms_def)
  next
    fix n k assume n: "w_shms (unlink_shm a m w) n = Some k" "n \<notin> X"
    then have nm: "n \<noteq> m" "w_shms w n = Some k" using e(5) by (auto split: if_splits)
    then have ok: "shm_ok w n k" using inv n by (simp add: client_inv_def inv_shms_def)
    then obtain d where d: "w_ctxs w (sm_context k) = Some d" "n \<in> set (shrd_mem_list d)" by (auto simp: shm_ok_def)
    have "\<exists>d. w_ctxs (unlink_shm a m w) (sm_context k) = Some d \<and> n \<in> set (shrd_mem_list d)"
      using d c c' nm e6 by (cases "sm_context k = a") auto
    moreover have "owns (w_blocks (unlink_shm a m w)) k" if "real_buf k"
    proof -
      have "owns (w_blocks w) k" using ok that by (simp add: shm_ok_def)
      moreover have "real_buf h \<longrightarrow> sm_buffer k \<noteq> sm_buffer h"
        using inv that nm n(2) e(1,3) unfolding client_inv_def inv_bufs_def by metis
      ultimately show ?thesis using e(7) by (auto simp: owns_def)
    qed
    ultimately show "shm_ok (unlink_shm a m w) n k" using ok by (auto simp: shm_ok_def)
  qed
  have 4: "inv_bufs (unlink_shm a m w) X"
    using inv e(5) unfolding client_inv_def inv_bufs_def by (metis fun_upd_apply option.distinct(1))
  show ?thesis using 1 2 3 4 by (simp add: client_inv_def)
qed

section \<open>Finalising a context\<close>

lemma lib_same_PutBnSession: "lib_same w (PutBnSession s w)"
  by (auto simp: PutBnSession_def Let_def split: prod.splits)

text \<open>The first loop empties the session list and leaves the rest of the library's state alone.\<close>

lemma finalize_sessions_eff:
  assumes "w_ctxs w a = Some c" "session_list c = ss"
  shows "lib_same (w\<lparr>w_ctxs := (w_ctxs w)(a \<mapsto> c\<lparr>session_list := []\<rparr>)\<rparr>) (finalize_sessions ss a w)"
  using assms
proof (induction ss arbitrary: w c)
  case Nil
  then have "c\<lparr>session_list := []\<rparr> = c" by simp
  then show ?case using Nil by (simp add: lib_same_def fun_upd_idem)
next
  case (Cons s ss)
  define c1 where "c1 = c\<lparr>session_list := ss\<rparr>"
  define w1 where "w1 = w\<lparr>w_ctxs := (w_ctxs w)(a \<mapsto> c1)\<rparr>"
  define w2 where "w2 = TEEC_CloseSessionHidl s a w1"
  define w3 where "w3 = (if callFromHidl (rd_ctx w2 a) then PutBnSession s w2 else w2)"
  have 1: "upd_ctx a (\<lambda>c. c\<lparr>session_list := remove1 s (session_list c)\<rparr>) w = w1"
    using Cons.prems by (simp add: upd_ctx_def w1_def c1_def)
  have "lib_same w1 w2" unfolding w2_def by (rule lib_same_CloseSessionHidl) (simp add: w1_def)
  then have 3: "lib_same w1 w3" using lib_same_trans lib_same_PutBnSession by (auto simp: w3_def)
  then have "w_ctxs w3 a = Some c1" by (simp add: lib_same_def w1_def)
  from Cons.IH [OF this] have "lib_same (w3\<lparr>w_ctxs := (w_ctxs w3)(a \<mapsto> c\<lparr>session_list := []\<rparr>)\<rparr>) (finalize_sessions ss a w3)"
    by (simp add: c1_def del: fun_upd_apply)
  moreover have "finalize_sessions (s # ss) a w = finalize_sessions ss a w3"
    by (simp add: Let_def 1 w2_def [symmetric] w3_def)
  ultimately show ?case using 3 by (simp add: lib_same_def w1_def del: fun_upd_apply)
qed

text \<open>The second loop is a sequence of unlinkings.\<close>

definition buffers :: "world \<Rightarrow> ptr list \<Rightarrow> ptr set" where
  "buffers w ms = {p. \<exists>m \<in> set ms. \<exists>h. w_shms w m = Some h \<and> real_buf h \<and> sm_buffer h = p}"

lemma finalize_shms_eff:
  assumes "client_inv w held X" "w_ctxs w a = Some c" "shrd_mem_list c = ms"
  shows "client_inv (finalize_shms ms a w) held X \<and>
    (\<exists>bm. length bm = 8 \<and>
       w_ctxs (finalize_shms ms a w) = (w_ctxs w)(a \<mapsto> c\<lparr>shrd_mem_list := [], shm_bitmap := bm\<rparr>)) \<and>
    w_shms (finalize_shms ms a w) = (\<lambda>m. if m \<in> set ms then None else w_shms w m) \<and>
    w_blocks (finalize_shms ms a w) = (\<lambda>p. if p \<in> buffers w ms then None else w_blocks w p) \<and>
    g_teecContextList (finalize_shms ms a w) = g_teecContextList w \<and>
    open_fds (finalize_shms ms a w) = open_fds w \<and> fault (finalize_shms ms a w) = fault w"
  using assms
proof (induction ms arbitrary: w c)
  case Nil
  then have "c\<lparr>shrd_mem_list := [], shm_bitmap := shm_bitmap c\<rparr> = c" by simp
  moreover have "length (shm_bitmap c) = 8" using Nil by (auto simp: client_inv_defs)
  ultimately show ?case using Nil by (auto intro!: exI [of _ "shm_bitmap c"] simp: fun_upd_idem buffers_def)
next
  case (Cons m ms)
  have mem: "m \<in> set (shrd_mem_list c)" using Cons.prems by simp
  obtain h bm where e: "length bm = 8"
    "w_shms (unlink_shm a m w) = (w_shms w)(m := None)"
    "w_ctxs (unlink_shm a m w) = (w_ctxs w)(a \<mapsto> c\<lparr>shrd_mem_list := remove1 m (shrd_mem_list c), shm_bitmap := bm\<rparr>)"
    "g_teecContextList (unlink_shm a m w) = g_teecContextList w" "open_fds (unlink_shm a m w) = open_fds w"
    "fault (unlink_shm a m w) = fault w" "w_shms w m = Some h"
    "w_blocks (unlink_shm a m w) = (if real_buf h then (w_blocks w)(sm_buffer h := None) else w_blocks w)"
    by (rule unlink_shm_eff [OF Cons.prems(1,2) mem]) blast
  have inv: "client_inv (unlink_shm a m w) held X" by (rule unlink_shm_inv [OF Cons.prems(1,2) mem])
  have fs: "finalize_shms (m # ms) a w = finalize_shms ms a (unlink_shm a m w)"
    by (simp add: Let_def unlink_shm_def)
  have c1: "w_ctxs (unlink_shm a m w) a = Some (c\<lparr>shrd_mem_list := ms, shm_bitmap := bm\<rparr>)"
    using e(3) Cons.prems(3) by simp
  have ms: "shrd_mem_list (c\<lparr>shrd_mem_list := ms, shm_bitmap := bm\<rparr>) = ms" by simp
  note ih = Cons.IH [OF inv c1 ms]
  obtain bm' where "length bm' = 8"
    "w_ctxs (finalize_shms ms a (unlink_shm a m w)) = (w_ctxs (unlink_shm a m w))(a \<mapsto> c\<lparr>shrd_mem_list := [], shm_bitmap := bm'\<rparr>)"
    using ih by (auto simp del: fun_upd_apply)
  then have "\<exists>bm'. length bm' = 8 \<and> w_ctxs (finalize_shms (m # ms) a w) = (w_ctxs w)(a \<mapsto> c\<lparr>shrd_mem_list := [], shm_bitmap := bm'\<rparr>)"
    unfolding fs using e(3) by (intro exI [of _ bm']) simp
  moreover have "w_shms (finalize_shms (m # ms) a w) = (\<lambda>x. if x \<in> set (m # ms) then None else w_shms w x)"
    unfolding fs using ih e(2) by (auto simp: fun_eq_iff)
  moreover have "w_blocks (finalize_shms (m # ms) a w) = (\<lambda>p. if p \<in> buffers w (m # ms) then None else w_blocks w p)"
  proof -
    have "ctx_ok w held X a c" using Cons.prems(1,2) unfolding client_inv_def inv_ctxs_def by blast
    then have "m \<notin> set ms" using Cons.prems(3) by (simp add: ctx_ok_def)
    then have "\<forall>n \<in> set ms. w_shms (unlink_shm a m w) n = w_shms w n" using e(2) by auto
    then have "buffers (unlink_shm a m w) ms = buffers w ms" unfolding buffers_def by (metis (lifting))
    moreover have "p \<in> buffers w (m # ms) \<longleftrightarrow> real_buf h \<and> p = sm_buffer h \<or> p \<in> buffers w ms" for p
      using e(7) by (auto simp: buffers_def)
    moreover have "w_blocks (finalize_shms ms a (unlink_shm a m w)) =
        (\<lambda>p. if p \<in> buffers (unlink_shm a m w) ms then None else w_blocks (unlink_shm a m w) p)" using ih by blast
    ultimately show ?thesis unfolding fs e(8) by (auto simp: fun_eq_iff)
  qed
  ultimately show ?case unfolding fs using ih e(4,5,6) by (simp del: fun_upd_apply)
qed

text \<open>Removing a context that nobody refers to and that has no memory left.\<close>

lemma remove_ctx_inv:
  assumes inv: "client_inv w held X" and c: "w_ctxs w a = Some c" "shrd_mem_list c = []"
    and free: "a \<notin> set (g_teecContextList w)" "held a = 0"
  shows "client_inv (w\<lparr>w_ctxs := (w_ctxs w)(a := None), open_fds := (open_fds w)(cx_fd c := False)\<rparr>) held X"
proof -
  let ?w = "w\<lparr>w_ctxs := (w_ctxs w)(a := None), open_fds := (open_fds w)(cx_fd c := False)\<rparr>"
  have other: "cx_fd d \<noteq> cx_fd c" if "w_ctxs w b = Some d" "b \<noteq> a" for b d
    using inv c(1) that unfolding client_inv_def inv_fds_def by metis
  have 1: "inv_ctxs ?w held X"
    using inv free other unfolding client_inv_def inv_ctxs_def ctx_ok_def by (auto split: if_splits)
  have 2: "inv_fds ?w" using inv unfolding client_inv_def inv_fds_def by (auto split: if_splits)
  have 3: "inv_shms ?w X"
  proof -
    have "shm_ok w m h \<Longrightarrow> shm_ok ?w m h" for m h
      using c unfolding shm_ok_def by (auto simp del: fun_upd_apply) (auto simp: fun_upd_apply)
    then show ?thesis using inv by (simp add: client_inv_def inv_shms_def)
  qed
  have 4: "inv_bufs ?w X" using inv by (simp add: client_inv_def inv_bufs_def)
  show ?thesis using 1 2 3 4 by (simp add: client_inv_def)
qed

lemma TEEC_FinalizeContextHidl_eff:
  assumes inv: "client_inv w held X" and c: "w_ctxs w a = Some c"
    and free: "a \<notin> set (g_teecContextList w)" "held a = 0"
  defines "w' \<equiv> TEEC_FinalizeContextHidl a w"
  shows "client_inv w' held X \<and> fault w' = fault w \<and> g_teecContextList w' = g_teecContextList w \<and>
    (\<forall>b. b \<noteq> a \<longrightarrow> w_ctxs w' b = w_ctxs w b) \<and>
    (w_ctxs w' a = None \<and> open_fds w' = (open_fds w)(cx_fd c := False) \<and>
       w_shms w' = (\<lambda>m. if m \<in> set (shrd_mem_list c) then None else w_shms w m) \<and>
       w_blocks w' = (\<lambda>p. if p \<in> buffers w (shrd_mem_list c) then None else w_blocks w p) \<or>
     w_ctxs w' a \<noteq> None \<and> w_shms w' = w_shms w)"
proof -
  have a0: "a \<noteq> NULL_ptr" using inv c by (auto simp: client_inv_defs)
  have use: "use_ctx a w = w" using c by (simp add: use_ctx_def)
  obtain l1 w1 where l1: "ask w = (l1, w1)" by (cases "ask w")
  have s1: "lib_same w w1" using lib_same_ask [OF l1] .
  have c1: "w_ctxs w1 a = Some c" "rd_ctx w1 a = c" using s1 c by (simp_all add: lib_same_def rd_ctx_def)
  have inv1: "client_inv w1 held X" using inv lib_same_inv [OF s1] by simp
  show ?thesis
  proof (cases "l1 = 0")
    case False
    then have "w' = w1" using l1 a0 use by (simp add: w'_def TEEC_FinalizeContextHidl_def)
    then show ?thesis using s1 inv1 c1 by (auto simp: lib_same_def)
  next
    case True
    define w2 where "w2 = finalize_sessions (session_list c) a w1"
    define v where "v = w1\<lparr>w_ctxs := (w_ctxs w1)(a \<mapsto> c\<lparr>session_list := []\<rparr>)\<rparr>"
    have s2: "lib_same v w2" unfolding v_def w2_def by (rule finalize_sessions_eff [OF c1(1)]) simp
    have "client_inv v held X"
    proof -
      have ok: "unat (cx_ops_cnt c) = of_bool (a \<in> set (g_teecContextList w1)) + held a" "length (shm_bitmap c) = 8"
        using inv1 c1 by (auto simp: client_inv_defs)
      have "client_inv v (held(a := held a)) X"
        unfolding v_def by (rule client_inv_ctx [OF inv1 c1(1)]) (use ok in simp_all)
      then show ?thesis by simp
    qed
    obtain l2 w3 where l2: "ask w2 = (l2, w3)" by (cases "ask w2")
    have s3: "lib_same v w3" using lib_same_trans [OF s2 lib_same_ask [OF l2]] .
    have inv3: "client_inv w3 held X" using \<open>client_inv v held X\<close> lib_same_inv [OF s3] by simp
    have c3: "w_ctxs w3 a = Some (c\<lparr>session_list := []\<rparr>)" "rd_ctx w3 a = c\<lparr>session_list := []\<rparr>"
      using s3 by (simp_all add: lib_same_def rd_ctx_def v_def)
    show ?thesis
    proof (cases "l2 = 0")
      case False
      then have "w' = w3"
        using True l1 l2 a0 use c1 by (simp add: w'_def TEEC_FinalizeContextHidl_def Let_def w2_def [symmetric])
      then show ?thesis using s1 s3 inv3 c3 by (auto simp: lib_same_def v_def)
    next
      case ok2: True
      define w4 where "w4 = finalize_shms (shrd_mem_list c) a w3"
      have "shrd_mem_list (c\<lparr>session_list := []\<rparr>) = shrd_mem_list c" by simp
      from finalize_shms_eff [OF inv3 c3(1) this, folded w4_def] obtain bm where
        4: "client_inv w4 held X" "length bm = 8"
          "w_ctxs w4 = (w_ctxs w3)(a \<mapsto> c\<lparr>session_list := [], shrd_mem_list := [], shm_bitmap := bm\<rparr>)"
          "w_shms w4 = (\<lambda>m. if m \<in> set (shrd_mem_list c) then None else w_shms w3 m)"
          "g_teecContextList w4 = g_teecContextList w3" "open_fds w4 = open_fds w3" "fault w4 = fault w3"
          "w_blocks w4 = (\<lambda>p. if p \<in> buffers w3 (shrd_mem_list c) then None else w_blocks w3 p)"
        by auto
      have buf: "buffers w3 = buffers w" using s3 s1 by (simp add: buffers_def lib_same_def v_def fun_eq_iff)
      define c4 where "c4 = c\<lparr>session_list := [], shrd_mem_list := [], shm_bitmap := bm\<rparr>"
      have c4: "w_ctxs w4 a = Some c4" "rd_ctx w4 a = c4" "cx_fd c4 = cx_fd c" "shrd_mem_list c4 = []"
        using 4(3) by (simp_all add: c4_def rd_ctx_def)
      have op: "open_fds w4 (cx_fd c)"
        using 4(1) c4(1,3) unfolding client_inv_def inv_ctxs_def ctx_ok_def by metis
      have w': "w' = free_ctx a (upd_ctx a (\<lambda>c. c\<lparr>cx_fd := - 1\<rparr>) (close_fd (cx_fd c4) w4))"
        using True ok2 l1 l2 a0 use c1 c3 c4(2)
        by (simp add: w'_def TEEC_FinalizeContextHidl_def Let_def w2_def [symmetric] w4_def [symmetric])
      have fields: "w_ctxs w' = (w_ctxs w4)(a := None)" "open_fds w' = (open_fds w4)(cx_fd c := False)"
        "w_shms w' = w_shms w4" "w_blocks w' = w_blocks w4" "g_teecContextList w' = g_teecContextList w4" "fault w' = fault w4"
        using op c4 unfolding w' by (simp_all add: close_fd_def upd_ctx_def free_ctx_def log_call_def)
      have same: "lib_same (w4\<lparr>w_ctxs := (w_ctxs w4)(a := None), open_fds := (open_fds w4)(cx_fd c4 := False)\<rparr>) w'"
        using fields c4(3) by (simp add: lib_same_def)
      have "g_teecContextList w4 = g_teecContextList w" using 4(5) s3 s1 by (simp add: lib_same_def v_def)
      then have "client_inv w' held X"
        using remove_ctx_inv [OF 4(1) c4(1,4)] free lib_same_inv [OF same] by simp
      moreover have "w_blocks w' = (\<lambda>p. if p \<in> buffers w (shrd_mem_list c) then None else w_blocks w p)"
      proof -
        have "w_blocks w3 = w_blocks w" using s3 s1 by (simp add: lib_same_def v_def)
        then show ?thesis unfolding fields(4) 4(8) buf by (auto simp: fun_eq_iff)
      qed
      ultimately show ?thesis using fields 4 s3 s1 by (auto simp: lib_same_def v_def)
    qed
  qed
qed

end
