(* ===== verification/Client_Safe.thy ===== *)
theory Client_Safe
  imports Client_Inv
begin

text \<open>
  Every call of the client library preserves the invariant and touches no freed object, whatever the
  operating system answers and whatever pointers the application passes. \<open>safe held X w w'\<close> is that
  statement for one step; a call takes a reference to its context, runs its body under it and drops it.
\<close>

section \<open>Safe steps\<close>

definition safe :: "(ptr \<Rightarrow> nat) \<Rightarrow> ptr set \<Rightarrow> world \<Rightarrow> world \<Rightarrow> bool" where
  "safe held X w w' \<longleftrightarrow> (client_inv w held X \<longrightarrow> client_inv w' held X \<and> fault w' = fault w)"

lemma safe_refl [simp]: "safe held X w w"
  by (simp add: safe_def)

lemma safe_trans: "safe held X w w1 \<Longrightarrow> safe held X w1 w2 \<Longrightarrow> safe held X w w2"
  by (simp add: safe_def)

lemma safe_same: "lib_same w w' \<Longrightarrow> safe held X w w'"
  using lib_same_inv [of w w' held X] by (simp add: safe_def lib_same_def)

lemma safe_then_same: "safe held X w w1 \<Longrightarrow> lib_same w1 w2 \<Longrightarrow> safe held X w w2"
  using safe_trans safe_same by blast

lemma held_alive: "client_inv w held X \<Longrightarrow> 0 < held a \<Longrightarrow> \<exists>c. w_ctxs w a = Some c"
  by (auto simp: client_inv_defs)

lemma held_not_null: "client_inv w held X \<Longrightarrow> 0 < held a \<Longrightarrow> a \<noteq> NULL_ptr"
  by (auto simp: client_inv_defs)

text \<open>Session lists may change freely.\<close>

lemma safe_session_list: "safe held X w (upd_ctx a (\<lambda>c. c\<lparr>session_list := f c\<rparr>) w)" if "w_ctxs w a = Some c"
proof -
  have "client_inv (w\<lparr>w_ctxs := (w_ctxs w)(a \<mapsto> c\<lparr>session_list := f c\<rparr>)\<rparr>) (held(a := held a)) X"
    if inv: "client_inv w held X"
  proof -
    have ok: "unat (cx_ops_cnt c) = of_bool (a \<in> set (g_teecContextList w)) + held a" "length (shm_bitmap c) = 8"
      using inv \<open>w_ctxs w a = Some c\<close> by (auto simp: client_inv_defs)
    show ?thesis by (rule client_inv_ctx [OF inv \<open>w_ctxs w a = Some c\<close>]) (use ok in simp_all)
  qed
  then show ?thesis using that by (simp add: safe_def upd_ctx_def)
qed

text \<open>Dropping a reference; the last one finalises the context.\<close>

lemma PutBnContext_eff:
  assumes inv: "client_inv w held X" and n: "held a = Suc n"
  defines "w' \<equiv> snd (PutBnContext a w)"
  shows "client_inv w' (held(a := n)) X \<and> fault w' = fault w \<and> g_teecContextList w' = g_teecContextList w \<and>
    (\<forall>b. b \<noteq> a \<longrightarrow> w_ctxs w' b = w_ctxs w b) \<and>
    (fst (PutBnContext a w) \<longleftrightarrow> n = 0 \<and> a \<notin> set (g_teecContextList w)) \<and>
    (\<not> fst (PutBnContext a w) \<longrightarrow> w_shms w' = w_shms w \<and> w_blocks w' = w_blocks w \<and> open_fds w' = open_fds w \<and>
       (\<exists>c. w_ctxs w a = Some c \<and> w_ctxs w' a = Some (c\<lparr>cx_ops_cnt := cx_ops_cnt c - 1\<rparr>)))"
proof -
  obtain c where c: "w_ctxs w a = Some c" using held_alive inv n by fastforce
  have a0: "a \<noteq> NULL_ptr" using held_not_null [OF inv] n by simp
  have ok: "unat (cx_ops_cnt c) = of_bool (a \<in> set (g_teecContextList w)) + Suc n" "length (shm_bitmap c) = 8"
    using inv c n by (auto simp: client_inv_defs)
  then have dec: "AtomDecAndCompareWithZero (cx_ops_cnt c) = (unat (cx_ops_cnt c) = 1, cx_ops_cnt c - 1)"
    "unat (cx_ops_cnt c - 1) = of_bool (a \<in> set (g_teecContextList w)) + n"
    using AtomDec_unat [of "cx_ops_cnt c"] by auto
  define c1 where "c1 = c\<lparr>cx_ops_cnt := cx_ops_cnt c - 1\<rparr>"
  define w1 where "w1 = w\<lparr>w_ctxs := (w_ctxs w)(a \<mapsto> c1)\<rparr>"
  have inv1: "client_inv w1 (held(a := n)) X"
    unfolding w1_def by (rule client_inv_ctx [OF inv c]) (use ok dec in \<open>simp_all add: c1_def\<close>)
  have put: "PutBnContext a w = (if unat (cx_ops_cnt c) = 1 then (True, TEEC_FinalizeContextHidl a w1) else (False, w1))"
    using a0 c by (simp add: PutBnContext_def Let_def rd_ctx_def dec(1) upd_ctx_def w1_def c1_def)
  have w1: "g_teecContextList w1 = g_teecContextList w" "fault w1 = fault w" "b \<noteq> a \<Longrightarrow> w_ctxs w1 b = w_ctxs w b" for b
    by (simp_all add: w1_def)
  have zero: "unat (cx_ops_cnt c) = 1 \<longleftrightarrow> n = 0 \<and> a \<notin> set (g_teecContextList w)" using ok by auto
  show ?thesis
  proof (cases "unat (cx_ops_cnt c) = 1")
    case True
    then have free: "a \<notin> set (g_teecContextList w1)" "(held(a := n)) a = 0" using zero by (simp_all add: w1_def)
    have "w_ctxs w1 a = Some c1" by (simp add: w1_def)
    from TEEC_FinalizeContextHidl_eff [OF inv1 this free] show ?thesis
      using True zero put w1 by (auto simp: w'_def simp del: fun_upd_apply)
  next
    case False
    then show ?thesis using put zero inv1 c by (simp add: w'_def w1_def c1_def fun_upd_same fun_upd_other del: fun_upd_apply)
  qed
qed

lemma PutBnContext_null: "PutBnContext NULL_ptr w = (False, w)"
  by (simp add: PutBnContext_def)

text \<open>A call: get, body, put.\<close>

lemma get_put_safe:
  assumes get: "GetBnContext context w = (a, w1)" and room: "room held" and a: "a \<noteq> NULL_ptr"
    and body: "safe (held(a := Suc (held a))) X w1 w2"
  shows "safe held X w (snd (PutBnContext a w2))"
  unfolding safe_def
proof
  assume inv: "client_inv w held X"
  have 1: "client_inv w1 (held(a := Suc (held a))) X" "fault w1 = fault w"
    using GetBnContext_inv [OF inv room get] a by simp_all
  then have 2: "client_inv w2 (held(a := Suc (held a))) X" "fault w2 = fault w" using body by (simp_all add: safe_def)
  have "(held(a := Suc (held a))) a = Suc (held a)" by simp
  from PutBnContext_eff [OF 2(1) this]
  show "client_inv (snd (PutBnContext a w2)) held X \<and> fault (snd (PutBnContext a w2)) = fault w"
    using 2(2) by (simp del: fun_upd_apply)
qed

lemma get_null_same:
  "client_inv w held X \<Longrightarrow> room held \<Longrightarrow> GetBnContext context w = (NULL_ptr, w1) \<Longrightarrow> lib_same w w1"
  using GetBnContext_inv by fastforce

section \<open>Sessions\<close>

lemma lib_same_find_sess: "find_sess as sid w = (s, w') \<Longrightarrow> lib_same w w'"
  by (induction as sid w rule: find_sess.induct) (auto simp: Let_def split: if_splits intro: lib_same_trans [OF lib_same_marks(1)])

lemma lib_same_FindBnSession: "FindBnSession s a w = (r, w') \<Longrightarrow> lib_same w w'"
  by (auto simp: FindBnSession_def Let_def split: if_splits
      intro: lib_same_trans [OF lib_same_marks(1)] dest: lib_same_find_sess)

lemma FindAndRemoveSession_safe:
  assumes run: "FindAndRemoveSession s a w = (r, w')" and held: "0 < held a"
  shows "safe held X w w'"
  unfolding safe_def
proof
  assume inv: "client_inv w held X"
  obtain c where c: "w_ctxs w a = Some c" using held_alive [OF inv held] by blast
  obtain l w1 where l: "ask (use_ctx a w) = (l, w1)" by (cases "ask (use_ctx a w)")
  have s1: "lib_same w w1" using l c lib_same_ask by (simp add: use_ctx_def)
  obtain x w2 where f: "FindBnSession s a w1 = (x, w2)" by (cases "FindBnSession s a w1")
  have s2: "lib_same w w2" using lib_same_trans [OF s1 lib_same_FindBnSession [OF f]] .
  have "w_ctxs w2 a = Some c" using s2 c by (simp add: lib_same_def)
  note upd = safe_session_list [OF this, of held X]
  have "w' = w \<or> w' = w1 \<or> w' = w2 \<or> w' = upd_ctx a (\<lambda>c. c\<lparr>session_list := remove1 x (session_list c)\<rparr>) w2"
    using run l f by (auto simp: FindAndRemoveSession_def split: if_splits)
  then have "safe held X w w'"
    using safe_same [OF s1] safe_same [OF s2] safe_trans [OF safe_same [OF s2] upd] by auto
  then show "client_inv w' held X \<and> fault w' = fault w" using inv by (simp add: safe_def)
qed

lemma AddSessionList_safe:
  assumes run: "AddSessionList sid d a s w = (r, w')" and held: "0 < held a"
  shows "safe held X w w'"
  unfolding safe_def
proof
  assume inv: "client_inv w held X"
  define w1 where "w1 = upd_sess s (\<lambda>x. x\<lparr>session_id := sid, service_id := d, ss_ops_cnt := 1\<rparr>) w"
  have s1: "lib_same w w1" by (simp add: w1_def)
  obtain c where c: "w_ctxs w a = Some c" using held_alive [OF inv held] by blast
  then have c1: "use_ctx a w1 = w1" using s1 by (simp add: lib_same_def use_ctx_def)
  obtain l w2 where l: "ask w1 = (l, w2)" by (cases "ask w1")
  have s2: "lib_same w w2" using lib_same_trans [OF s1 lib_same_ask [OF l]] .
  have c2: "w_ctxs w2 a = Some c" using s2 c by (simp add: lib_same_def)
  define w3 where "w3 = upd_ctx a (\<lambda>c. c\<lparr>session_list := filter (\<lambda>x. x \<noteq> s) (session_list c)\<rparr>) w2"
  have 3: "safe held X w w3" using safe_trans [OF safe_same [OF s2] safe_session_list [OF c2]] by (simp add: w3_def)
  obtain c3 where c3: "w_ctxs w3 a = Some c3" using c2 by (auto simp: w3_def upd_ctx_def)
  define w4 where "w4 = upd_ctx a (\<lambda>c. c\<lparr>session_list := session_list c @ [s]\<rparr>) w3"
  have 4: "safe held X w w4" using safe_trans [OF 3 safe_session_list [OF c3]] by (simp add: w4_def)
  have "w' = w2 \<or> w' = upd_sess s (\<lambda>x. x\<lparr>ss_ops_cnt := AtomInc (ss_ops_cnt x)\<rparr>) w4"
    using run l c1
    by (auto simp: AddSessionList_def Let_def w1_def [symmetric] w3_def [symmetric] w4_def [symmetric] split: if_splits)
  then have "safe held X w w'"
    using safe_same [OF s2] safe_then_same [OF 4] by auto
  then show "client_inv w' held X \<and> fault w' = fault w" using inv by (simp add: safe_def)
qed

lemma lib_same_open_retry: "open_retry i fd cli w = (r, cli', w') \<Longrightarrow> lib_same w w'"
proof (induction i arbitrary: cli w)
  case 0
  then show ?case by (auto split: prod.splits if_splits dest: lib_same_ioctl)
next
  case (Suc i)
  obtain r1 cli1 w1 where io: "ioctl_cli fd SES_OPEN_REQ (cli\<lparr>returns_code := 0, returns_origin := TEEC_ORIGIN_API\<rparr>) w = (r1, cli1, w1)"
    by (cases "ioctl_cli fd SES_OPEN_REQ (cli\<lparr>returns_code := 0, returns_origin := TEEC_ORIGIN_API\<rparr>) w")
  show ?case
    using Suc.prems Suc.IH [of cli1 w1] io lib_same_ioctl [OF io]
    by (auto simp del: open_retry.simps simp: open_retry.simps [of "Suc i"] split: if_splits intro: lib_same_trans)
qed

lemma TEEC_DoOpenSession_safe:
  assumes run: "TEEC_DoOpenSession fd cli d a s w = (r, cli', w')" and held: "0 < held a"
  shows "safe held X w w'"
proof -
  obtain ret cli1 w1 where o: "open_retry CA_AUTH_RETRY_TIMES fd cli w = (ret, cli1, w1)"
    by (cases "open_retry CA_AUTH_RETRY_TIMES fd cli w")
  have 1: "safe held X w w1" using safe_same [OF lib_same_open_retry [OF o]] .
  obtain r2 w2 where ad: "AddSessionList (cc_session_id cli1) d a s w1 = (r2, w2)"
    by (cases "AddSessionList (cc_session_id cli1) d a s w1")
  have "w' = w1 \<or> w' = w2"
    using run o ad by (auto simp: TEEC_DoOpenSession_def simp del: open_retry.simps split: if_splits)
  then show ?thesis using 1 safe_trans [OF 1 AddSessionList_safe [where held = held and a = a, OF ad held]] by auto
qed

section \<open>Memory blocks that no shared memory owns\<close>

definition not_owned :: "ptr \<Rightarrow> ptr set \<Rightarrow> world \<Rightarrow> bool" where
  "not_owned p X w \<longleftrightarrow> (\<forall>m h. w_shms w m = Some h \<longrightarrow> m \<notin> X \<longrightarrow> real_buf h \<longrightarrow> sm_buffer h \<noteq> p)"

lemma fresh_not_owned: "client_inv w held X \<Longrightarrow> w_blocks w p = None \<Longrightarrow> not_owned p X w"
  unfolding not_owned_def
proof (intro allI impI notI)
  fix m h assume inv: "client_inv w held X" and p: "w_blocks w p = None"
    and m: "w_shms w m = Some h" "m \<notin> X" "real_buf h" "sm_buffer h = p"
  then have "owns (w_blocks w) h" unfolding client_inv_def inv_shms_def shm_ok_def by blast
  then show False using p m(4) by (auto simp: owns_def split: if_splits)
qed

lemma block_upd_inv:
  assumes inv: "client_inv w held X" and p: "not_owned p X w"
  shows "client_inv (w\<lparr>w_blocks := (w_blocks w)(p := b)\<rparr>) held X"
proof -
  have "shm_ok (w\<lparr>w_blocks := (w_blocks w)(p := b)\<rparr>) m h" if "w_shms w m = Some h" "m \<notin> X" for m h
  proof -
    have ok: "shm_ok w m h" using inv that by (simp add: client_inv_def inv_shms_def)
    have "real_buf h \<Longrightarrow> sm_buffer h \<noteq> p" using p that by (auto simp: not_owned_def)
    then show ?thesis using ok by (auto simp: shm_ok_def owns_def)
  qed
  then have "inv_shms (w\<lparr>w_blocks := (w_blocks w)(p := b)\<rparr>) X"
    using inv by (simp add: client_inv_def inv_shms_def)
  then show ?thesis using inv by (simp add: client_inv_def inv_ctxs_def inv_fds_def inv_bufs_def ctx_ok_def)
qed

text \<open>The loader changes nothing but memory blocks.\<close>

definition mem_only :: "world \<Rightarrow> world \<Rightarrow> bool" where
  "mem_only w w' \<longleftrightarrow> w_ctxs w' = w_ctxs w \<and> g_teecContextList w' = g_teecContextList w \<and>
     w_shms w' = w_shms w \<and> open_fds w' = open_fds w"

lemma mem_only_trans: "mem_only w w1 \<Longrightarrow> mem_only w1 w2 \<Longrightarrow> mem_only w w2"
  by (simp add: mem_only_def)

lemma mem_only_prims:
  "mem_only w w" "ask w = (r, w') \<Longrightarrow> mem_only w w'"
  "fread_bytes n fp w = (bs, fp', w') \<Longrightarrow> mem_only w w'" "fseek_to n fp w = (i, fp', w') \<Longrightarrow> mem_only w w'"
  "malloc_block w = (p, w') \<Longrightarrow> mem_only w w'" "mem_only w (free_block p w)" "mem_only w (write_block p b w)"
  "mem_only w (log_call c w)"
  by (auto simp: mem_only_def ask_def fread_bytes_def fseek_to_def malloc_block_def malloc_addr_def free_block_def
      write_block_def log_call_def faulty_def split: if_splits option.splits block.splits)

lemma mem_only_GetTaVersion: "GetTaVersion f a b c d w = (r, outs, f', w') \<Longrightarrow> mem_only w w'"
  by (auto simp: GetTaVersion_def Let_def mem_only_prims split: option.splits prod.splits if_splits
      dest!: mem_only_prims(3,4) intro: mem_only_trans)

lemma mem_only_GetImageLenth: "TEEC_GetImageLenth f g w = (r, n, f', w') \<Longrightarrow> mem_only w w'"
  by (auto simp: TEEC_GetImageLenth_def Let_def split: option.splits prod.splits if_splits
      dest!: mem_only_prims(3,4) mem_only_GetTaVersion intro: mem_only_trans)

lemma mem_only_DoReadApp:
  assumes "TEEC_DoReadApp f g cli w = (r, cli', w')"
  shows "mem_only w w'"
proof -
  obtain ret n f1 w1 where len: "TEEC_GetImageLenth f g w = (ret, n, f1, w1)" by (cases "TEEC_GetImageLenth f g w") auto
  obtain p w2 where al: "malloc_block w1 = (p, w2)" by (cases "malloc_block w1")
  have 1: "mem_only w w1" using mem_only_GetImageLenth [OF len] .
  have 2: "mem_only w w2" using mem_only_trans [OF 1 mem_only_prims(5) [OF al]] .
  have 3: "mem_only w w3" "mem_only w (free_block p w3)" "mem_only w (write_block p b w3)"
    if "fread_bytes k fp w2 = (bs, fp', w3)" for k fp bs fp' w3 b
    using mem_only_trans [OF 2 mem_only_prims(3) [OF that]] mem_only_prims(6,7) mem_only_trans by blast+
  show ?thesis using assms 1 2 3
    by (auto simp: TEEC_DoReadApp_def len al split: option.splits prod.splits if_splits)
qed

lemma TEEC_GetApp_eff:
  assumes run: "TEEC_GetApp env g (Some ta) (Some uuid) cli w = (r, cli', w')" and ta: "taFp ta = None"
  shows "mem_only w w' \<and> fault w' = fault w \<and>
    (w_blocks w' = w_blocks w \<and> cli' = cli \<or>
     (\<exists>src. loaded src cli' w w'))"
proof -
  obtain fl dflt where cases: "TEEC_ReadApp env g ta fl dflt cli w = (r, cli', w') \<or> cli' = cli \<and> w' = w"
    using run by (auto simp: TEEC_GetApp_def Let_def split: option.splits if_splits)
  then show ?thesis
  proof
    assume rd: "TEEC_ReadApp env g ta fl dflt cli w = (r, cli', w')"
    have "mem_only w w'"
      using rd ta mem_only_DoReadApp
      by (auto simp: TEEC_ReadApp_def mem_only_prims split: option.splits if_splits)
    then show ?thesis using TEEC_ReadApp_outcome [OF rd] ta by (auto split: if_splits)
  qed (simp add: mem_only_prims)
qed

text \<open>Opening a session leaves shared memories and blocks alone and keeps the file of the request.\<close>

lemma ioctl_cli_file: "ioctl_cli fd req cli w = (r, cli', w') \<Longrightarrow> file_ptr cli' = file_ptr cli \<and>
    file_addr cli' = file_addr cli \<and> file_h_addr cli' = file_h_addr cli"
  by (auto simp: ioctl_cli_def file_ptr_def split: prod.splits)

lemma open_retry_file: "open_retry i fd cli w = (r, cli', w') \<Longrightarrow>
    file_addr cli' = file_addr cli \<and> file_h_addr cli' = file_h_addr cli"
proof (induction i arbitrary: cli w)
  case 0
  then show ?case by (auto split: prod.splits if_splits dest: ioctl_cli_file)
next
  case (Suc i)
  obtain r1 cli1 w1 where io: "ioctl_cli fd SES_OPEN_REQ (cli\<lparr>returns_code := 0, returns_origin := TEEC_ORIGIN_API\<rparr>) w = (r1, cli1, w1)"
    by (cases "ioctl_cli fd SES_OPEN_REQ (cli\<lparr>returns_code := 0, returns_origin := TEEC_ORIGIN_API\<rparr>) w")
  show ?case
    using Suc.prems Suc.IH [of cli1 w1] io ioctl_cli_file [OF io]
    by (auto simp del: open_retry.simps simp: open_retry.simps [of "Suc i"] split: if_splits)
qed

lemma upd_ctx_shms [simp]: "w_shms (upd_ctx a f w) = w_shms w" "w_blocks (upd_ctx a f w) = w_blocks w"
  by (auto simp: upd_ctx_def faulty_def split: option.splits)

lemma use_ctx_shms [simp]: "w_shms (use_ctx a w) = w_shms w" "w_blocks (use_ctx a w) = w_blocks w"
  by (auto simp: use_ctx_def faulty_def)

lemma upd_sess_shms [simp]: "w_shms (upd_sess a f w) = w_shms w" "w_blocks (upd_sess a f w) = w_blocks w"
  by (auto simp: upd_sess_def app_faulty_def split: option.splits)

lemma ask_shms: "ask w = (r, w') \<Longrightarrow> w_shms w' = w_shms w \<and> w_blocks w' = w_blocks w"
  by (auto simp: ask_def)

lemma AddSessionList_shms: "AddSessionList sid d a s w = (r, w') \<Longrightarrow> w_shms w' = w_shms w \<and> w_blocks w' = w_blocks w"
  by (auto simp: AddSessionList_def Let_def split: prod.splits if_splits dest!: ask_shms)

lemma TEEC_DoOpenSession_eff:
  assumes "TEEC_DoOpenSession fd cli d a s w = (r, cli', w')"
  shows "w_shms w' = w_shms w \<and> w_blocks w' = w_blocks w \<and> file_ptr cli' = file_ptr cli \<and>
    file_addr cli' = file_addr cli \<and> file_h_addr cli' = file_h_addr cli"
proof -
  obtain ret cli1 w1 where o: "open_retry CA_AUTH_RETRY_TIMES fd cli w = (ret, cli1, w1)"
    by (cases "open_retry CA_AUTH_RETRY_TIMES fd cli w")
  show ?thesis
    using assms o lib_same_open_retry [OF o] open_retry_file [OF o]
    by (auto simp: TEEC_DoOpenSession_def lib_same_def file_ptr_def simp del: open_retry.simps
        split: if_splits prod.splits dest!: AddSessionList_shms)
qed

section \<open>Opening a session\<close>

lemma encode_one_file: "encode_one op i cli w = (t, cli', w') \<Longrightarrow> file_addr cli' = file_addr cli \<and> file_h_addr cli' = file_h_addr cli"
  by (auto simp: encode_one_def Let_def split: if_splits prod.splits)

lemma TEEC_Encode_file:
  assumes "TEEC_Encode cli u sid c l op w = (r, cli', w')" "file_addr cli = 0" "file_h_addr cli = 0"
  shows "file_addr cli' = 0 \<and> file_h_addr cli' = 0"
proof -
  have param: "file_addr c' = file_addr c \<and> file_h_addr c' = file_h_addr c" if "TEEC_EncodeParam c op v = (c', v')" for c c' v v'
    using that by (auto simp: TEEC_EncodeParam_def split: prod.splits dest!: encode_one_file)
  show ?thesis using assms
    by (auto simp: TEEC_Encode_def Let_def zero_cli_def split: if_splits prod.splits dest!: param)
qed

lemma open_session_exit_safe:
  assumes inv: "client_inv w3 held X" and mem: "mem_only w3 w4" "fault w4 = fault w3"
    and app: "w_blocks w4 = w_blocks w3 \<and> file_addr cli2 = 0 \<and> file_h_addr cli2 = 0 \<or> (\<exists>src. loaded src cli2 w3 w4)"
    and step: "safe held X w4 v" "w_shms v = w_shms w4" "w_blocks v = w_blocks w4"
    and cli: "file_addr cli = file_addr cli2" "file_h_addr cli = file_h_addr cli2"
    and out: "open_session_exit (res, cli, v) = (r, origin, w')"
  shows "client_inv w' held X \<and> fault w' = fault w3"
  using app
proof
  assume same: "w_blocks w4 = w_blocks w3 \<and> file_addr cli2 = 0 \<and> file_h_addr cli2 = 0"
  then have "lib_same w3 w4" using mem by (simp add: mem_only_def lib_same_def)
  then have "safe held X w3 v" using safe_trans [OF safe_same step(1)] by blast
  moreover have "w' = v" using out cli same by (auto simp: open_session_exit_def)
  ultimately show ?thesis using inv by (simp add: safe_def)
next
  assume "\<exists>src. loaded src cli2 w3 w4"
  then obtain bs p where ld: "p = file_ptr cli2" "p \<noteq> NULL_ptr" "w_blocks w3 p = None"
    "w_blocks w4 = (w_blocks w3)(p \<mapsto> Heap bs)" by (auto simp: loaded_def)
  have no3: "not_owned p X w3" using fresh_not_owned [OF inv ld(3)] .
  have "lib_same (w3\<lparr>w_blocks := (w_blocks w3)(p := Some (Heap bs))\<rparr>) w4"
    using mem ld(4) by (simp add: mem_only_def lib_same_def)
  then have "client_inv w4 held X" using block_upd_inv [OF inv no3] lib_same_inv by blast
  then have v: "client_inv v held X" "fault v = fault w3" using step(1) mem(2) by (simp_all add: safe_def)
  have nov: "not_owned p X v" using no3 step(2) mem(1) by (simp add: not_owned_def mem_only_def)
  have "file_ptr cli = p" using cli ld(1) by (simp add: file_ptr_def)
  moreover have "file_addr cli \<noteq> 0 \<or> file_h_addr cli \<noteq> 0" using calculation ld(2) by (auto simp: file_ptr_def)
  ultimately have w': "w' = free_block p v" using out by (auto simp: open_session_exit_def)
  have "w_blocks v p = Some (Heap bs)" using step(3) ld(4) by simp
  note free = free_block_eff [OF this ld(2)]
  have "lib_same (v\<lparr>w_blocks := (w_blocks v)(p := None)\<rparr>) w'"
    unfolding w' lib_same_def using free by simp
  then show ?thesis using block_upd_inv [OF v(1) nov] lib_same_inv free v(2) w' by auto
qed

lemma TEEC_OpenSessionHidl_safe:
  assumes run: "TEEC_OpenSessionHidl env g pid (Some ta) a s dest cm cd op w = (r, origin, w')"
    and ta: "taFp ta = None" and held: "0 < held a"
  shows "safe held X w w'"
  unfolding safe_def
proof
  assume inv: "client_inv w held X"
  obtain c where c: "w_ctxs w a = Some c" using held_alive [OF inv held] by blast
  define cli0 where "cli0 = zero_cli\<lparr>returns_origin := TEEC_ORIGIN_API, file_addr := 0, file_h_addr := 0\<rparr>"
  have cli0: "file_addr cli0 = 0" "file_h_addr cli0 = 0" by (simp_all add: cli0_def)
  have early: "client_inv w' held X \<and> fault w' = fault w"
    if "open_session_exit (res, cli, v) = (r, origin, w')" "lib_same w v" "file_addr cli = 0" "file_h_addr cli = 0" for res cli v
    using that inv lib_same_inv [OF that(2)] by (auto simp: open_session_exit_def lib_same_def)
  define w1 where "w1 = (if op \<noteq> NULL_ptr
                    then upd_op op (\<lambda>p. p\<lparr>paramTypes :=
                           TEEC_PARAM_TYPES (TEEC_PARAM_TYPE_GET (paramTypes p) 0)
                             (TEEC_PARAM_TYPE_GET (paramTypes p) 1) TEEC_NONE TEEC_NONE\<rparr>) w
                    else w)"
  have s1: "lib_same w w1" by (simp add: w1_def)
  obtain r2 w2 where chk: "TEEC_CheckOperation a op w1 = (r2, w2)" by (cases "TEEC_CheckOperation a op w1")
  have "client_inv w1 held X" "w_ctxs w1 a \<noteq> None" using inv lib_same_inv [OF s1] s1 c by (auto simp: lib_same_def)
  then have s2: "lib_same w w2" using lib_same_trans [OF s1 lib_same_CheckOperation [OF _ _ chk]] by blast
  show "client_inv w' held X \<and> fault w' = fault w"
  proof (cases "dest = None \<or> a = NULL_ptr \<or> s = NULL_ptr \<or> cm \<noteq> TEEC_LOGIN_IDENTIFY \<or> cd \<noteq> NULL_ptr \<or> r2 \<noteq> TEEC_SUCCESS")
    case True
    then have "open_session_exit (TEEC_ERROR_BAD_PARAMETERS, cli0, w) = (r, origin, w') \<or>
               open_session_exit (r2, cli0, w2) = (r, origin, w')"
      using run chk by (auto simp: TEEC_OpenSessionHidl_def cli0_def [symmetric] Let_def w1_def [symmetric] split: option.splits if_splits)
    then show ?thesis using early cli0 s2 by auto
  next
    case False
    then obtain d where d: "dest = Some d" by auto
    obtain r3 cli1 w3 where enc: "TEEC_Encode cli0 d 0 GLOBAL_CMD_ID_OPEN_SESSION
        \<lparr>lg_method = cm, lg_mdata = 0\<rparr> op w2 = (r3, cli1, w3)"
      by (cases "TEEC_Encode cli0 d 0 GLOBAL_CMD_ID_OPEN_SESSION \<lparr>lg_method = cm, lg_mdata = 0\<rparr> op w2") auto
    have s3: "lib_same w w3" using lib_same_trans [OF s2 lib_same_Encode [OF enc]] .
    have cli1: "file_addr cli1 = 0" "file_h_addr cli1 = 0" using TEEC_Encode_file [OF enc cli0] by blast+
    obtain r4 cli2 w4 where ga: "TEEC_GetApp env g (Some ta) (Some d) (cli1\<lparr>callingPid := pid\<rparr>) w3 = (r4, cli2, w4)"
      by (cases "TEEC_GetApp env g (Some ta) (Some d) (cli1\<lparr>callingPid := pid\<rparr>) w3") auto
    note eff = TEEC_GetApp_eff [OF ga ta]
    obtain r5 cli3 w5 where do: "TEEC_DoOpenSession (cx_fd (rd_ctx w4 a)) cli2 d a s (use_ctx a w4) = (r5, cli3, w5)"
      by (cases "TEEC_DoOpenSession (cx_fd (rd_ctx w4 a)) cli2 d a s (use_ctx a w4)") auto
    have "w_ctxs w4 a = Some c" using eff s3 c by (simp add: mem_only_def lib_same_def)
    then have use: "use_ctx a w4 = w4" by (simp add: use_ctx_def)
    note do_eff = TEEC_DoOpenSession_eff [OF do [unfolded use]]
    note do_safe = TEEC_DoOpenSession_safe [where held = held and a = a and X = X, OF do [unfolded use] held]
    have inv3: "client_inv w3 held X" "fault w3 = fault w" using inv lib_same_inv [OF s3] s3 by (simp_all add: lib_same_def)
    have app: "w_blocks w4 = w_blocks w3 \<and> file_addr cli2 = 0 \<and> file_h_addr cli2 = 0 \<or> (\<exists>src. loaded src cli2 w3 w4)"
      using eff cli1 by auto
    have outs: "open_session_exit (r3, cli1, w3) = (r, origin, w') \<or>
       open_session_exit (TEEC_ERROR_TRUSTED_APP_LOAD_ERROR, cli2, w4) = (r, origin, w') \<or>
       open_session_exit (r5, cli3, w5) = (r, origin, w')"
      using run chk False d enc ga do
      by (auto simp: TEEC_OpenSessionHidl_def cli0_def [symmetric] Let_def w1_def [symmetric] split: if_splits)
    then show ?thesis
    proof (elim disjE)
      assume "open_session_exit (r3, cli1, w3) = (r, origin, w')"
      then show ?thesis using early s3 cli1 by blast
    next
      assume o: "open_session_exit (TEEC_ERROR_TRUSTED_APP_LOAD_ERROR, cli2, w4) = (r, origin, w')"
      show ?thesis
        using open_session_exit_safe [OF inv3(1) _ _ app _ _ _ _ _ o] eff inv3(2) by simp
    next
      assume o: "open_session_exit (r5, cli3, w5) = (r, origin, w')"
      show ?thesis
        using open_session_exit_safe [OF inv3(1) _ _ app _ _ _ _ _ o] eff do_eff do_safe inv3(2) by simp
    qed
  qed
qed

lemma TEEC_OpenSession_safe:
  assumes room: "room held" and run: "TEEC_OpenSession env g ctx s dest cm cd op w = (r, origin, w')"
  shows "safe held X w w'"
proof (cases "ctx = NULL_ptr \<or> s = NULL_ptr \<or> dest = None")
  case True
  then show ?thesis using run by (auto simp: TEEC_OpenSession_def)
next
  case False
  define w1 where "w1 = use_app_ctx ctx (upd_sess s (\<lambda>x. x\<lparr>ss_context := ctx\<rparr>) w)"
  have s1: "lib_same w w1" unfolding w1_def by (intro lib_same_step) simp
  define ta where "ta = \<lparr>taPath = ta_path (rd_app_ctx w1 ctx), taFp = None\<rparr>"
  obtain a w2 where get: "GetBnContext ctx w1 = (a, w2)" by (cases "GetBnContext ctx w1")
  obtain r3 o3 w3 where body: "TEEC_OpenSessionHidl env g 0 (Some ta) a s dest cm cd op w2 = (r3, o3, w3)"
    by (cases "TEEC_OpenSessionHidl env g 0 (Some ta) a s dest cm cd op w2")
  have w': "w' = (if a = NULL_ptr then w2 else snd (PutBnContext a w3))"
    using run False get body
    by (auto simp: TEEC_OpenSession_def Let_def w1_def [symmetric] ta_def [symmetric] split: if_splits)
  have "safe held X w1 w'"
  proof (cases "a = NULL_ptr")
    case True
    then have "client_inv w1 held X \<Longrightarrow> lib_same w1 w2" using get_null_same [OF _ room] get by simp
    then show ?thesis using True w' safe_same by (auto simp: safe_def)
  next
    case False
    have "safe (held(a := Suc (held a))) X w2 w3"
      by (rule TEEC_OpenSessionHidl_safe [OF body]) (simp_all add: ta_def)
    then show ?thesis using get_put_safe [OF get room False] w' False by simp
  qed
  then show ?thesis using safe_trans [OF safe_same [OF s1]] by blast
qed

section \<open>Closing and using sessions\<close>

lemma safe_body:
  assumes "\<And>c. client_inv w held X \<Longrightarrow> w_ctxs w a = Some c \<Longrightarrow> safe held X w w'" "0 < held a"
  shows "safe held X w w'"
  using assms held_alive unfolding safe_def by blast

text \<open>A call whose body only runs under its reference, or does nothing when there is no context.\<close>

lemma get_put_call:
  assumes get: "GetBnContext ctx w = (a, w1)" and room: "room held"
    and body: "a \<noteq> NULL_ptr \<Longrightarrow> safe (held(a := Suc (held a))) X w1 w2"
    and out: "w' = (if a = NULL_ptr then v else snd (PutBnContext a w2))"
    and null: "a = NULL_ptr \<Longrightarrow> safe held X w1 v"
  shows "safe held X w w'"
proof (cases "a = NULL_ptr")
  case True
  have "safe held X w w1"
    unfolding safe_def
  proof
    assume inv: "client_inv w held X"
    have "lib_same w w1" by (rule get_null_same [OF inv room get [unfolded True]])
    then show "client_inv w1 held X \<and> fault w1 = fault w" using inv safe_same by (simp add: safe_def)
  qed
  then show ?thesis using True out null safe_trans by auto
next
  case False
  then show ?thesis using get_put_safe [OF get room False body] out by simp
qed

lemma TEEC_CloseSession_safe:
  assumes room: "room held" and run: "TEEC_CloseSession s w = w'"
  shows "safe held X w w'"
proof (cases "s = NULL_ptr \<or> ss_context (rd_sess (use_sess s w) s) = NULL_ptr")
  case True
  then show ?thesis using run by (auto simp: TEEC_CloseSession_def Let_def split: if_splits intro: safe_same)
next
  case False
  define w0 where "w0 = use_sess s w"
  have s0: "lib_same w w0" by (simp add: w0_def)
  obtain a w1 where get: "GetBnContext (ss_context (rd_sess w0 s)) w0 = (a, w1)"
    by (cases "GetBnContext (ss_context (rd_sess w0 s)) w0")
  obtain x w2 where rm: "FindAndRemoveSession s a w1 = (x, w2)" by (cases "FindAndRemoveSession s a w1")
  define w3 where "w3 = (if x = NULL_ptr then w2 else TEEC_CloseSessionHidl s a w2)"
  have body: "safe (held(a := Suc (held a))) X w1 w3"
  proof -
    define hp where "hp = held(a := Suc (held a))"
    have h: "0 < hp a" by (simp add: hp_def)
    have 2: "safe hp X w1 w2" by (rule FindAndRemoveSession_safe [where held = hp and a = a, OF rm h])
    have "safe hp X w2 w3"
      by (rule safe_body [where held = hp and a = a, OF _ h])
         (auto simp: w3_def intro: safe_same lib_same_CloseSessionHidl)
    then show ?thesis using safe_trans 2 unfolding hp_def by blast
  qed
  have "w' = (if a = NULL_ptr then w1 else snd (PutBnContext a w3))"
    using run False get rm
    by (auto simp: TEEC_CloseSession_def Let_def w0_def [symmetric] w3_def split: if_splits)
  from get_put_call [OF get room body this] show ?thesis using safe_trans [OF safe_same [OF s0]] by simp
qed

lemma ProcessInvokeCommand_safe:
  assumes "ProcessInvokeCommand a cli w = (r, cli', w')" "0 < held a"
  shows "safe held X w w'"
proof (rule safe_body [where held = held and a = a, OF _ assms(2)])
  fix c assume "client_inv w held X" and c: "w_ctxs w a = Some c"
  obtain ret cli1 w1 where io: "ioctl_cli (cx_fd (rd_ctx w a)) SEND_CMD_REQ cli w = (ret, cli1, w1)"
    by (cases "ioctl_cli (cx_fd (rd_ctx w a)) SEND_CMD_REQ cli w") auto
  have "lib_same w w'" using assms(1) c io lib_same_ioctl [OF io]
    by (auto simp: ProcessInvokeCommand_def Let_def use_ctx_def split: if_splits prod.splits intro: lib_same_ask_step)
  then show "safe held X w w'" by (rule safe_same)
qed

lemma TEEC_InvokeCommandHidl_safe:
  assumes run: "TEEC_InvokeCommandHidl a s cmd op w = (r, origin, w')" and held: "a = NULL_ptr \<or> 0 < held a"
  shows "safe held X w w'"
  unfolding safe_def
proof
  assume inv: "client_inv w held X"
  show "client_inv w' held X \<and> fault w' = fault w"
  proof (cases "s = NULL_ptr \<or> a = NULL_ptr")
    case True
    then have "w' = w" using run by (auto simp: TEEC_InvokeCommandHidl_def)
    then show ?thesis using inv by simp
  next
    case False
    then have h: "0 < held a" using held by simp
    obtain c where c: "w_ctxs w a = Some c" using held_alive [OF inv h] by blast
    obtain r1 w1 where k: "TEEC_CheckOperation a op w = (r1, w1)" by (cases "TEEC_CheckOperation a op w")
    have 1: "lib_same w w1" using lib_same_CheckOperation [OF inv _ k] c by simp
    obtain r2 w2 where g: "CheckRegisterShm op w1 = (r2, w2)" by (cases "CheckRegisterShm op w1")
    have 2: "lib_same w w2" using lib_same_trans [OF 1 lib_same_CheckRegisterShm [OF g]] .
    define w3 where "w3 = use_sess s w2"
    have 3: "lib_same w w3" using lib_same_trans [OF 2] by (simp add: w3_def)
    obtain r4 cli w4 where e: "TEEC_Encode (zero_cli\<lparr>returns_origin := TEEC_ORIGIN_API\<rparr>) (service_id (rd_sess w3 s))
        (session_id (rd_sess w3 s)) cmd \<lparr>lg_method = 0, lg_mdata = 0\<rparr> op w3 = (r4, cli, w4)"
      by (cases "TEEC_Encode (zero_cli\<lparr>returns_origin := TEEC_ORIGIN_API\<rparr>) (service_id (rd_sess w3 s))
        (session_id (rd_sess w3 s)) cmd \<lparr>lg_method = 0, lg_mdata = 0\<rparr> op w3") auto
    have 4: "lib_same w w4" using lib_same_trans [OF 3 lib_same_Encode [OF e]] .
    obtain r5 cli5 w5 where p: "ProcessInvokeCommand a cli w4 = (r5, cli5, w5)" by (cases "ProcessInvokeCommand a cli w4") auto
    have 5: "safe held X w w5" using safe_trans [OF safe_same [OF 4] ProcessInvokeCommand_safe [where held = held and a = a, OF p h]] .
    have "w' = w1 \<or> w' = w2 \<or> w' = w4 \<or> w' = w5"
      using run False k g e p by (auto simp: TEEC_InvokeCommandHidl_def Let_def w3_def split: if_splits)
    then have "safe held X w w'" using 1 2 4 5 safe_same by auto
    then show ?thesis using inv by (simp add: safe_def)
  qed
qed

lemma TEEC_InvokeCommand_safe:
  assumes room: "room held" and run: "TEEC_InvokeCommand s cmd op w = (r, origin, w')"
  shows "safe held X w w'"
proof (cases "s = NULL_ptr \<or> ss_context (rd_sess (use_sess s w) s) = NULL_ptr")
  case True
  then show ?thesis using run by (auto simp: TEEC_InvokeCommand_def Let_def split: if_splits intro: safe_same)
next
  case False
  define w0 where "w0 = use_sess s w"
  define ctx where "ctx = ss_context (rd_sess w0 s)"
  have s0: "lib_same w w0" by (simp add: w0_def)
  obtain a w1 where get: "GetBnContext ctx w0 = (a, w1)" by (cases "GetBnContext ctx w0")
  obtain r2 o2 w2 where inv: "TEEC_InvokeCommandHidl a s cmd op w1 = (r2, o2, w2)" by (cases "TEEC_InvokeCommandHidl a s cmd op w1")
  define w3 where "w3 = (if r2 = TEEC_SUCCESS then upd_sess s (\<lambda>x. x\<lparr>ss_context := ctx\<rparr>) w2 else w2)"
  have 3: "safe h X w1 w3" if "a = NULL_ptr \<or> 0 < h a" for h
    using safe_then_same [OF TEEC_InvokeCommandHidl_safe [where held = h and a = a, OF inv that], of w3] by (auto simp: w3_def)
  have "w' = (if a = NULL_ptr then w3 else snd (PutBnContext a w3))"
    using run False get inv
    by (auto simp: TEEC_InvokeCommand_def Let_def w0_def [symmetric] ctx_def [symmetric] w3_def PutBnContext_null)
  from get_put_call [OF get room 3 this 3] show ?thesis using safe_trans [OF safe_same [OF s0]] by simp
qed

lemma TEEC_RequestCancellation_safe:
  assumes room: "room held" and run: "TEEC_RequestCancellation op cmd w = w'"
  shows "safe held X w w'"
proof -
  define w0 where "w0 = use_op op w"
  define s where "s = op_session (rd_op w0 op)"
  define w1 where "w1 = use_sess s w0"
  define ctx where "ctx = ss_context (rd_sess w1 s)"
  have s0: "lib_same w w0" by (simp add: w0_def)
  have s1: "lib_same w w1" using lib_same_trans [OF s0] by (simp add: w1_def)
  show ?thesis
  proof (cases "op = NULL_ptr \<or> s = NULL_ptr \<or> ctx = NULL_ptr")
    case True
    then have "w' = w \<or> w' = w0 \<or> w' = w1"
      using run by (auto simp: TEEC_RequestCancellation_def Let_def w0_def s_def w1_def ctx_def split: if_splits)
    then show ?thesis using safe_same [OF s0] safe_same [OF s1] by auto
  next
    case False
    obtain a w2 where get: "GetBnContext ctx w1 = (a, w2)" by (cases "GetBnContext ctx w1")
    obtain r3 w3 where k: "TEEC_CheckOperation a op w2 = (r3, w3)" by (cases "TEEC_CheckOperation a op w2")
    define w4 where "w4 = snd (PutBnContext a w3)"
    have body: "safe h X w2 w3" if "a = NULL_ptr \<or> 0 < h a" for h
      unfolding safe_def
    proof
      assume i: "client_inv w2 h X"
      have "a = NULL_ptr \<or> w_ctxs w2 a \<noteq> None" using that held_alive [OF i] by auto
      from safe_same [OF lib_same_CheckOperation [OF i this k], of h X]
      show "client_inv w3 h X \<and> fault w3 = fault w2" using i by (simp add: safe_def)
    qed
    have "w4 = (if a = NULL_ptr then w3 else snd (PutBnContext a w3))" by (simp add: w4_def PutBnContext_null)
    from get_put_call [OF get room body this body] have 4: "safe held X w w4"
      using safe_trans [OF safe_same [OF s1]] by simp
    obtain r5 cli w5 where e: "TEEC_Encode zero_cli (service_id (rd_sess w4 s)) (session_id (rd_sess w4 s)) cmd
       \<lparr>lg_method = 0, lg_mdata = 0\<rparr> op w4 = (r5, cli, w5)"
      by (cases "TEEC_Encode zero_cli (service_id (rd_sess w4 s)) (session_id (rd_sess w4 s)) cmd
       \<lparr>lg_method = 0, lg_mdata = 0\<rparr> op w4") auto
    have 5: "lib_same w4 w5" using lib_same_Encode [OF e] .
    define w6 where "w6 = use_app_ctx ctx w5"
    have 6: "lib_same w4 w6" using lib_same_trans [OF 5] by (simp add: w6_def)
    obtain r7 cli7 w7 where io: "ioctl_cli (ac_fd (rd_app_ctx w6 ctx)) CANCEL_CMD_REQ cli w6 = (r7, cli7, w7)"
      by (cases "ioctl_cli (ac_fd (rd_app_ctx w6 ctx)) CANCEL_CMD_REQ cli w6") auto
    have 7: "lib_same w4 w7" using lib_same_trans [OF 6 lib_same_ioctl [OF io]] .
    have "w' = w4 \<or> w' = w5 \<or> w' = w7"
      using run False get k e io
      by (auto simp: TEEC_RequestCancellation_def Let_def w0_def [symmetric] s_def [symmetric] w1_def [symmetric]
          ctx_def [symmetric] w4_def [symmetric] w6_def [symmetric] split: if_splits)
    then show ?thesis using 4 5 7 safe_then_same by auto
  qed
qed

end
