(* ===== verification/Client_Shm_Safe.thy ===== *)
theory Client_Shm_Safe
  imports Client_Safe
begin

text \<open>
  The shared-memory calls of the client library preserve the invariant. A new object is in the set \<open>X\<close>
  of objects being set up until it is in the list of its context and its extra reference is dropped.
\<close>

section \<open>Objects being set up\<close>

lemma new_shm_inv:
  assumes inv: "client_inv w held X" and p: "w_shms w p = None" "p \<noteq> NULL_ptr"
  shows "client_inv (w\<lparr>w_shms := (w_shms w)(p \<mapsto> h)\<rparr>) held (insert p X)"
proof -
  let ?w = "w\<lparr>w_shms := (w_shms w)(p \<mapsto> h)\<rparr>"
  have "ctx_ok ?w held (insert p X) a c" if "w_ctxs w a = Some c" for a c
    using inv that p unfolding client_inv_def inv_ctxs_def ctx_ok_def by fastforce
  then have 1: "inv_ctxs ?w held (insert p X)" using inv by (simp add: client_inv_def inv_ctxs_def)
  have 2: "inv_fds ?w" using inv by (simp add: client_inv_def inv_fds_def)
  have 3: "inv_shms ?w (insert p X)" using inv p by (auto simp: client_inv_def inv_shms_def shm_ok_def)
  have 4: "inv_bufs ?w (insert p X)" using inv unfolding client_inv_def inv_bufs_def by (simp add: fun_upd_apply)
  show ?thesis using 1 2 3 4 by (simp add: client_inv_def)
qed

lemma pend_upd_inv:
  assumes inv: "client_inv w held X" and p: "p \<in> X"
  shows "client_inv (w\<lparr>w_shms := (w_shms w)(p \<mapsto> h)\<rparr>) held X"
proof -
  let ?w = "w\<lparr>w_shms := (w_shms w)(p \<mapsto> h)\<rparr>"
  have "ctx_ok ?w held X a c" if "w_ctxs w a = Some c" for a c
    using inv that p unfolding client_inv_def inv_ctxs_def ctx_ok_def by fastforce
  then have 1: "inv_ctxs ?w held X" using inv by (simp add: client_inv_def inv_ctxs_def)
  have 2: "inv_fds ?w" using inv by (simp add: client_inv_def inv_fds_def)
  have "p \<noteq> NULL_ptr" using inv p by (auto simp: client_inv_def inv_shms_def)
  then have 3: "inv_shms ?w X" using inv p by (auto simp: client_inv_def inv_shms_def shm_ok_def)
  have 4: "inv_bufs ?w X" using inv p unfolding client_inv_def inv_bufs_def by (simp add: fun_upd_apply)
  show ?thesis using 1 2 3 4 by (simp add: client_inv_def)
qed

lemma pend_free_inv:
  assumes inv: "client_inv w held (insert p X)" and p: "p \<notin> X"
  shows "client_inv (w\<lparr>w_shms := (w_shms w)(p := None)\<rparr>) held X"
proof -
  let ?w = "w\<lparr>w_shms := (w_shms w)(p := None)\<rparr>"
  have "ctx_ok ?w held X a c" if "w_ctxs w a = Some c" for a c
    using inv that p unfolding client_inv_def inv_ctxs_def ctx_ok_def by fastforce
  then have 1: "inv_ctxs ?w held X" using inv by (simp add: client_inv_def inv_ctxs_def)
  have 2: "inv_fds ?w" using inv by (simp add: client_inv_def inv_fds_def)
  have 3: "inv_shms ?w X" using inv p by (auto simp: client_inv_def inv_shms_def shm_ok_def)
  have 4: "inv_bufs ?w X" using inv unfolding client_inv_def inv_bufs_def by (simp add: fun_upd_apply)
  show ?thesis using 1 2 3 4 by (simp add: client_inv_def)
qed

lemma publish_inv:
  assumes inv: "client_inv w held (insert p X)" and p: "p \<notin> X" and h: "w_shms w p = Some h"
    and c: "w_ctxs w (sm_context h) = Some c" and one: "sm_ops_cnt h = 1"
    and own: "real_buf h \<Longrightarrow> owns (w_blocks w) h \<and> not_owned (sm_buffer h) (insert p X) w"
  shows "client_inv (w\<lparr>w_ctxs := (w_ctxs w)(sm_context h \<mapsto> c\<lparr>shrd_mem_list := shrd_mem_list c @ [p]\<rparr>)\<rparr>) held X"
proof -
  let ?c = "c\<lparr>shrd_mem_list := shrd_mem_list c @ [p]\<rparr>"
  let ?w = "w\<lparr>w_ctxs := (w_ctxs w)(sm_context h \<mapsto> ?c)\<rparr>"
  have old: "ctx_ok w held (insert p X) a d" if "w_ctxs w a = Some d" for a d
    using inv that by (simp add: client_inv_def inv_ctxs_def)
  have "ctx_ok ?w held X a d" if d: "w_ctxs ?w a = Some d" for a d
  proof (cases "a = sm_context h")
    case True
    then have "d = ?c" using d by simp
    then show ?thesis using old [OF c] h p True by (auto simp: ctx_ok_def)
  next
    case False
    then show ?thesis using old [of a d] d by (auto simp: ctx_ok_def)
  qed
  then have 1: "inv_ctxs ?w held X" using inv c by (auto simp: client_inv_def inv_ctxs_def)
  have 2: "inv_fds ?w"
  proof -
    have "w_ctxs ?w x = Some d \<Longrightarrow> \<exists>d'. w_ctxs w x = Some d' \<and> cx_fd d' = cx_fd d" for x d
      using c by (cases "x = sm_context h") auto
    then show ?thesis using inv unfolding client_inv_def inv_fds_def by metis
  qed
  have lst: "w_ctxs w x = Some d \<Longrightarrow> \<exists>d'. w_ctxs ?w x = Some d' \<and> set (shrd_mem_list d) \<subseteq> set (shrd_mem_list d')" for x d
    using c by (cases "x = sm_context h") auto
  have 3: "inv_shms ?w X"
    unfolding inv_shms_def
  proof (intro conjI allI impI)
    show "w_shms ?w NULL_ptr = None" "\<forall>m \<in> X. w_shms ?w m \<noteq> None" using inv by (simp_all add: client_inv_def inv_shms_def)
    fix m k assume m: "w_shms ?w m = Some k" "m \<notin> X"
    show "shm_ok ?w m k"
    proof (cases "m = p")
      case True
      then have "k = h" using m h by simp
      then show ?thesis using True one own by (auto simp: shm_ok_def)
    next
      case False
      then have ok: "shm_ok w m k" using inv m by (simp add: client_inv_def inv_shms_def)
      then obtain d where "w_ctxs w (sm_context k) = Some d" "m \<in> set (shrd_mem_list d)" by (auto simp: shm_ok_def)
      then show ?thesis using lst ok unfolding shm_ok_def by (simp del: fun_upd_apply) blast
    qed
  qed
  have 4: "inv_bufs ?w X"
    unfolding inv_bufs_def
  proof (intro allI impI)
    fix m n k l assume a: "w_shms ?w m = Some k" "w_shms ?w n = Some l" "m \<notin> X" "n \<notin> X" "real_buf k" "real_buf l"
      "sm_buffer k = sm_buffer l"
    have other: "sm_buffer k' \<noteq> sm_buffer h" if "w_shms w m' = Some k'" "m' \<notin> X" "m' \<noteq> p" "real_buf k'" "real_buf h" for m' k'
      using own [OF that(5)] that by (auto simp: not_owned_def)
    show "m = n"
    proof (cases "m = p \<or> n = p")
      case pq: True
      show ?thesis
      proof (rule ccontr)
        assume mn: "m \<noteq> n"
        show False
        proof (cases "m = p")
          case True
          then have "k = h" "n \<noteq> p" using a h mn by auto
          then show False using other [of n l] a by simp
        next
          case False
          then have "l = h" using pq a h by auto
          then show False using other [of m k] a False by simp
        qed
      qed
    next
      case False
      have "inv_bufs w (insert p X)" using inv by (simp add: client_inv_def)
      then show ?thesis using a False unfolding inv_bufs_def by simp
    qed
  qed
  show ?thesis using 1 2 3 4 by (simp add: client_inv_def)
qed

text \<open>The extra reference of a new object is dropped without freeing it.\<close>

lemma put_published:
  assumes h: "w_shms v m = Some h" "sm_ops_cnt h = 1" "m \<noteq> NULL_ptr"
    and w: "lib_same (v\<lparr>w_shms := (w_shms v)(m \<mapsto> h\<lparr>sm_ops_cnt := 2\<rparr>)\<rparr>) w"
  shows "lib_same v (PutBnShrMem m w)"
proof -
  have s: "w_shms w = (w_shms v)(m \<mapsto> h\<lparr>sm_ops_cnt := 2\<rparr>)" using w by (simp add: lib_same_def)
  then have "rd_shm w m = h\<lparr>sm_ops_cnt := 2\<rparr>" by (simp add: rd_shm_def)
  then have "PutBnShrMem m w = upd_shm m (\<lambda>h. h\<lparr>sm_ops_cnt := 1\<rparr>) w"
    using h(3) by (simp add: PutBnShrMem_def AtomDecAndCompareWithZero_def Let_def)
  moreover have "(w_shms w)(m \<mapsto> (h\<lparr>sm_ops_cnt := 2\<rparr>)\<lparr>sm_ops_cnt := 1\<rparr>) = w_shms v"
    using s h(1,2) by (auto simp: fun_eq_iff)
  ultimately show ?thesis using w s by (simp add: lib_same_def upd_shm_def del: fun_upd_apply) (simp add: fun_upd_same)
qed

lemma MallocShrMemHidl_eff:
  assumes inv: "client_inv w held X" and run: "MallocShrMemHidl w = (r, p, w')"
  shows "fault w' = fault w \<and> app_shms w' = app_shms w \<and>
    (if r = TEEC_SUCCESS
     then p \<noteq> NULL_ptr \<and> p \<notin> X \<and> w_shms w' p = Some nil_shm \<and> client_inv w' held (insert p X)
     else client_inv w' held X)"
proof -
  obtain q w1 where al: "malloc_addr w = (q, w1)" by (cases "malloc_addr w")
  have s1: "lib_same w w1" "app_shms w1 = app_shms w" and q: "q \<noteq> NULL_ptr \<Longrightarrow> w_shms w q = None"
    using al by (auto simp: malloc_addr_def ask_def lib_same_def in_use_def split: if_splits)
  have inv1: "client_inv w1 held X" using inv lib_same_inv [OF s1(1)] by simp
  have ne: "TEEC_FAIL \<noteq> TEEC_SUCCESS" by (simp add: TEEC_FAIL_def TEEC_SUCCESS_def)
  show ?thesis
  proof (cases "q = NULL_ptr")
    case True
    then show ?thesis using run al inv1 s1 ne by (auto simp: MallocShrMemHidl_def lib_same_def)
  next
    case False
    define w2 where "w2 = w1\<lparr>w_shms := (w_shms w1)(q \<mapsto> nil_shm)\<rparr>"
    have fresh: "w_shms w1 q = None" using q [OF False] s1 by (simp add: lib_same_def)
    have qX: "q \<notin> X" using inv1 fresh by (auto simp: client_inv_def inv_shms_def)
    have inv2: "client_inv w2 held (insert q X)" unfolding w2_def by (rule new_shm_inv [OF inv1 fresh False])
    obtain n w3 where l: "ask w2 = (n, w3)" by (cases "ask w2")
    have s3: "lib_same w2 w3" "app_shms w3 = app_shms w2" using lib_same_ask [OF l] l by (auto simp: ask_def)
    have inv3: "client_inv w3 held (insert q X)" using inv2 lib_same_inv [OF s3(1)] by simp
    show ?thesis
    proof (cases "n = 0")
      case True
      then have "r = TEEC_SUCCESS" "p = q" "w' = w3" using run al False l by (auto simp: MallocShrMemHidl_def w2_def Let_def)
      then show ?thesis using inv3 s3 s1 qX False by (auto simp: lib_same_def w2_def)
    next
      case bad: False
      have out: "r = TEEC_FAIL" "p = NULL_ptr" "w' = free_shm q w3"
        using run al False l bad by (auto simp: MallocShrMemHidl_def w2_def Let_def)
      have "w_shms w3 q \<noteq> None" using s3 by (simp add: lib_same_def w2_def)
      then have "lib_same (w3\<lparr>w_shms := (w_shms w3)(q := None)\<rparr>) w'" "app_shms w' = app_shms w3" "fault w' = fault w3"
        by (auto simp: out lib_same_def free_shm_def log_call_def)
      moreover from this have "client_inv w' held X" using pend_free_inv [OF inv3 qX] lib_same_inv by blast
      ultimately show ?thesis using out(1) ne s3 s1 by (auto simp: lib_same_def w2_def)
    qed
  qed
qed


section \<open>The calls that make a shared memory\<close>

text \<open>
  What the inner functions do with the pending object \<open>p\<close>: on success it has been put in its list and
  holds one extra reference, on failure it is still pending.
\<close>

definition made :: "ptr \<Rightarrow> (ptr \<Rightarrow> nat) \<Rightarrow> ptr set \<Rightarrow> bool \<Rightarrow> TEEC_Result \<Rightarrow> world \<Rightarrow> bool" where
  "made p held X f r w \<longleftrightarrow> fault w = f \<and>
     (if r = TEEC_SUCCESS
      then \<exists>v h. client_inv v held X \<and> w_shms v p = Some h \<and> sm_ops_cnt h = 1 \<and>
             lib_same (v\<lparr>w_shms := (w_shms v)(p \<mapsto> h\<lparr>sm_ops_cnt := 2\<rparr>)\<rparr>) w
      else client_inv w held (insert p X))"

lemma made_put:
  assumes m: "made p held X f TEEC_SUCCESS w" and w: "lib_same w w1" and p: "p \<noteq> NULL_ptr"
  shows "client_inv (PutBnShrMem p w1) held X \<and> fault (PutBnShrMem p w1) = f"
proof -
  from m obtain v h where v: "client_inv v held X" "w_shms v p = Some h" "sm_ops_cnt h = 1"
    "lib_same (v\<lparr>w_shms := (w_shms v)(p \<mapsto> h\<lparr>sm_ops_cnt := 2\<rparr>)\<rparr>) w" and f: "fault w = f"
    by (auto simp: made_def)
  have s: "lib_same v (PutBnShrMem p w1)"
    by (rule put_published [OF v(2,3) p lib_same_trans [OF v(4) w]])
  moreover have "fault v = f" using v(4) f by (simp add: lib_same_def)
  ultimately show ?thesis using v(1) lib_same_inv [OF s] by (simp add: lib_same_def)
qed

text \<open>Putting the pending object, completed to \<open>h\<close>, in the list of its context.\<close>

lemma made_publish:
  assumes inv: "client_inv w held (insert p X)" and p: "p \<notin> X" and h: "w_shms w p = Some h"
    and c: "w_ctxs w (sm_context h) = Some c" and one: "sm_ops_cnt h = 1"
    and own: "real_buf h \<Longrightarrow> owns (w_blocks w) h \<and> not_owned (sm_buffer h) (insert p X) w"
  shows "made p held X (fault w) TEEC_SUCCESS
    (upd_shm p (\<lambda>m. m\<lparr>sm_ops_cnt := AtomInc (sm_ops_cnt m)\<rparr>)
      (upd_ctx (sm_context h) (\<lambda>c. c\<lparr>shrd_mem_list := shrd_mem_list c @ [p]\<rparr>) w))"
proof -
  define v where "v = w\<lparr>w_ctxs := (w_ctxs w)(sm_context h \<mapsto> c\<lparr>shrd_mem_list := shrd_mem_list c @ [p]\<rparr>)\<rparr>"
  have v: "client_inv v held X" unfolding v_def by (rule publish_inv [OF inv p h c one own])
  have vp: "w_shms v p = Some h" using h by (simp add: v_def)
  have u: "upd_ctx (sm_context h) (\<lambda>c. c\<lparr>shrd_mem_list := shrd_mem_list c @ [p]\<rparr>) w = v"
    using c by (simp add: upd_ctx_def v_def)
  have "upd_shm p (\<lambda>m. m\<lparr>sm_ops_cnt := AtomInc (sm_ops_cnt m)\<rparr>) v = v\<lparr>w_shms := (w_shms v)(p \<mapsto> h\<lparr>sm_ops_cnt := 2\<rparr>)\<rparr>"
    using vp one by (simp add: upd_shm_def AtomInc_def)
  moreover have "fault v = fault w" by (simp add: v_def)
  ultimately show ?thesis using v vp one unfolding made_def u by (auto intro!: exI [of _ v])
qed

lemma made_fail: "client_inv w' held (insert p X) \<Longrightarrow> fault w' = f \<Longrightarrow> r \<noteq> TEEC_SUCCESS \<Longrightarrow> made p held X f r w'"
  by (simp add: made_def)

text \<open>The frame of both calls: an object is made, set up under a reference to its context, and dropped.\<close>

lemma new_shm_call:
  assumes inv: "client_inv w held (insert p X)" and p: "p \<notin> X" "p \<noteq> NULL_ptr" and room: "room held"
    and get: "GetBnContext context w = (a, w1)"
    and body: "\<And>hp. client_inv w1 hp (insert p X) \<Longrightarrow> a = NULL_ptr \<or> 0 < hp a \<Longrightarrow> w_shms w1 = w_shms w \<Longrightarrow>
       made p hp X (fault w1) r w2"
    and same: "lib_same w2 w3"
    and out: "w' = (if r = TEEC_SUCCESS then snd (PutBnContext a (PutBnShrMem p w3))
       else free_shm p (snd (PutBnContext a w2)))"
  shows "client_inv w' held X \<and> fault w' = fault w"
proof -
  define hp where "hp = (if a = NULL_ptr then held else held(a := Suc (held a)))"
  have g: "client_inv w1 hp (insert p X)" "fault w1 = fault w" "w_shms w1 = w_shms w"
    using GetBnContext_inv [OF inv room get] lib_same_inv [of w w1] inv
    by (auto simp: hp_def lib_same_def split: if_splits)
  have "a = NULL_ptr \<or> 0 < hp a" by (simp add: hp_def)
  note made = body [OF g(1) this g(3)]
  have put: "client_inv (snd (PutBnContext a v)) held Y \<and> fault (snd (PutBnContext a v)) = fault v"
    if v: "client_inv v hp Y" for v Y
  proof (cases "a = NULL_ptr")
    case True
    then show ?thesis using v by (simp add: PutBnContext_null hp_def)
  next
    case False
    have e: "hp a = Suc (held a)" using False by (simp add: hp_def)
    have "hp(a := held a) = held" using False by (simp add: hp_def)
    then show ?thesis using PutBnContext_eff [OF v e] by simp
  qed
  show ?thesis
  proof (cases "r = TEEC_SUCCESS")
    case True
    then have "client_inv (PutBnShrMem p w3) hp X \<and> fault (PutBnShrMem p w3) = fault w1"
      using made_put [OF _ same p(2), of hp X "fault w1"] made by simp
    then show ?thesis using put [of "PutBnShrMem p w3" X] True out g(2) by simp
  next
    case False
    then have 2: "client_inv w2 hp (insert p X)" "fault w2 = fault w1" using made by (auto simp: made_def)
    define v where "v = snd (PutBnContext a w2)"
    have v: "client_inv v held (insert p X)" "fault v = fault w2" using put [OF 2(1)] by (simp_all add: v_def)
    then have "w_shms v p \<noteq> None" by (auto simp: client_inv_def inv_shms_def)
    then have s: "lib_same (v\<lparr>w_shms := (w_shms v)(p := None)\<rparr>) (free_shm p v)" "fault (free_shm p v) = fault v"
      by (auto simp: lib_same_def free_shm_def log_call_def)
    have "client_inv (free_shm p v) held X" using pend_free_inv [OF v(1) p(1)] lib_same_inv [OF s(1)] by simp
    then show ?thesis using False out s(2) v(2) 2(2) g(2) by (simp add: v_def)
  qed
qed

subsection \<open>Registering\<close>

lemma CheckSharedMemoryParam_eff:
  assumes "CheckSharedMemoryParam a p k w = (r, w')" "w_shms w p = Some h"
  shows "w' = w \<and> (r = TEEC_SUCCESS \<or> r = TEEC_ERROR_BAD_PARAMETERS) \<and> (r = TEEC_SUCCESS \<longrightarrow> a \<noteq> NULL_ptr)"
  using assms by (auto simp: CheckSharedMemoryParam_def Let_def use_shm_def split: if_splits)

lemma bad_results:
  "TEEC_ERROR_BAD_PARAMETERS \<noteq> TEEC_SUCCESS" "TEEC_ERROR_GENERIC \<noteq> TEEC_SUCCESS"
  "TEEC_ERROR_OUT_OF_MEMORY \<noteq> TEEC_SUCCESS" "TEEC_ERROR_SECURITY \<noteq> TEEC_SUCCESS" "TEEC_FAIL \<noteq> TEEC_SUCCESS"
  "TEEC_ERROR_BAD_PARAMETERS \<noteq> TEEC_ERROR_GENERIC" "TEEC_ERROR_OUT_OF_MEMORY \<noteq> TEEC_ERROR_GENERIC"
  "TEEC_ERROR_SECURITY \<noteq> TEEC_ERROR_GENERIC"
  by (simp_all add: TEEC_ERROR_BAD_PARAMETERS_def TEEC_SUCCESS_def TEEC_ERROR_GENERIC_def
      TEEC_ERROR_OUT_OF_MEMORY_def TEEC_ERROR_SECURITY_def TEEC_FAIL_def)

lemma TEEC_RegisterSharedMemoryHidl_made:
  assumes inv: "client_inv w held (insert p X)" and p: "p \<notin> X" and a: "a = NULL_ptr \<or> 0 < held a"
    and run: "TEEC_RegisterSharedMemoryHidl a p w = (r, w')"
  shows "made p held X (fault w) r w'"
proof -
  obtain h where h: "w_shms w p = Some h" using inv by (auto simp: client_inv_def inv_shms_def)
  obtain r1 w1 where chk: "CheckSharedMemoryParam a p REGISTER w = (r1, w1)" by (cases "CheckSharedMemoryParam a p REGISTER w")
  note e = CheckSharedMemoryParam_eff [OF chk h]
  show ?thesis
  proof (cases "r1 = TEEC_SUCCESS")
    case False
    then have "r = r1" "w' = w" using run chk e by (auto simp: TEEC_RegisterSharedMemoryHidl_def)
    then show ?thesis using False inv by (simp add: made_def)
  next
    case True
    then have "0 < held a" using a e by auto
    from held_alive [OF inv this] obtain c where c: "w_ctxs w a = Some c" by blast
    define h2 where "h2 = h\<lparr>sm_ops_cnt := 1, sm_is_allocated := False, sm_offset := - 1, sm_context := a\<rparr>"
    define w2 where "w2 = w\<lparr>w_shms := (w_shms w)(p \<mapsto> h2)\<rparr>"
    have inv2: "client_inv w2 held (insert p X)" unfolding w2_def by (rule pend_upd_inv [OF inv]) simp
    have u: "upd_shm p (\<lambda>m. m\<lparr>sm_ops_cnt := 1, sm_is_allocated := False, sm_offset := - 1, sm_context := a\<rparr>) w = w2"
      using h by (simp add: upd_shm_def w2_def h2_def)
    have use: "use_ctx a w2 = w2" using c by (simp add: use_ctx_def w2_def)
    obtain l w3 where l: "ask w2 = (l, w3)" by (cases "ask w2")
    have s3: "lib_same w2 w3" using lib_same_ask [OF l] .
    have inv3: "client_inv w3 held (insert p X)" "fault w3 = fault w"
      using inv2 lib_same_inv [OF s3] s3 by (simp_all add: lib_same_def w2_def)
    have h3: "w_shms w3 p = Some h2" "w_ctxs w3 (sm_context h2) = Some c" "sm_ops_cnt h2 = 1" "\<not> real_buf h2" "sm_context h2 = a"
      using s3 c by (simp_all add: lib_same_def w2_def h2_def real_buf_def)
    note pub = made_publish [OF inv3(1) p h3(1,2,3)]
    show ?thesis
      using run chk True e l u use pub h3 inv3 bad_results
      by (auto simp: TEEC_RegisterSharedMemoryHidl_def Let_def intro: made_fail split: if_splits)
  qed
qed

lemma TEEC_RegisterSharedMemory_safe:
  assumes room: "room held" and run: "TEEC_RegisterSharedMemory ctx m w = (r, w')"
  shows "safe held X w w'"
  unfolding safe_def
proof
  assume inv: "client_inv w held X"
  show "client_inv w' held X \<and> fault w' = fault w"
  proof (cases "ctx = NULL_ptr \<or> m = NULL_ptr")
    case True
    then show ?thesis using run inv by (auto simp: TEEC_RegisterSharedMemory_def)
  next
    case False
    define w1 where "w1 = upd_app_shm m (\<lambda>m. m\<lparr>as_context := ctx\<rparr>) w"
    have s1: "lib_same w w1" by (simp add: w1_def)
    have inv1: "client_inv w1 held X" "fault w1 = fault w" using inv lib_same_inv [OF s1] s1 by (simp_all add: lib_same_def)
    obtain r2 p w2 where al: "MallocShrMemHidl w1 = (r2, p, w2)" by (cases "MallocShrMemHidl w1")
    note eff = MallocShrMemHidl_eff [OF inv1(1) al]
    show ?thesis
    proof (cases "r2 = TEEC_SUCCESS")
      case bad: False
      then have "w' = w2" using run False al by (auto simp: TEEC_RegisterSharedMemory_def w1_def [symmetric])
      then show ?thesis using eff bad inv1 by simp
    next
      case True
      then have p: "p \<notin> X" "p \<noteq> NULL_ptr" "w_shms w2 p = Some nil_shm" and inv2: "client_inv w2 held (insert p X)"
        and f2: "fault w2 = fault w" using eff inv1 by auto
      define a where "a = rd_app_shm w2 m"
      define w3 where "w3 = upd_shm p (\<lambda>m. m\<lparr>sm_buffer := as_buffer a, sm_size := as_size a, sm_flags := as_flags a\<rparr>) w2"
      have inv3: "client_inv w3 held (insert p X)" "fault w3 = fault w2"
        unfolding w3_def upd_shm_Some [OF p(3)] using pend_upd_inv [OF inv2] by simp_all
      obtain b w4 where get: "GetBnContext ctx w3 = (b, w4)" by (cases "GetBnContext ctx w3")
      obtain r5 w5 where reg: "TEEC_RegisterSharedMemoryHidl b p w4 = (r5, w5)" by (cases "TEEC_RegisterSharedMemoryHidl b p w4")
      define w6 where "w6 = upd_app_shm m (\<lambda>m. m\<lparr>as_ops_cnt := sm_ops_cnt (rd_shm w5 p),
        as_is_allocated := sm_is_allocated (rd_shm w5 p)\<rparr>) w5"
      have out: "w' = (if r5 = TEEC_SUCCESS then snd (PutBnContext b (PutBnShrMem p w6))
         else free_shm p (snd (PutBnContext b w5)))"
        using run False True al get reg
        by (auto simp: TEEC_RegisterSharedMemory_def Let_def w1_def [symmetric] a_def [symmetric] w3_def [symmetric] w6_def split: if_splits)
      have body: "made p hp X (fault w4) r5 w5" if "client_inv w4 hp (insert p X)" "b = NULL_ptr \<or> 0 < hp b" for hp
        by (rule TEEC_RegisterSharedMemoryHidl_made [OF that(1) p(1) that(2) reg])
      have "lib_same w5 w6" by (simp add: w6_def)
      from new_shm_call [OF inv3(1) p(1,2) room get body this out] show ?thesis using inv3(2) f2 by simp
    qed
  qed
qed


subsection \<open>Releasing\<close>

lemma find_shm_eff:
  "find_shm ms P w = (m, w') \<Longrightarrow> \<forall>x \<in> set ms. w_shms w x \<noteq> None \<Longrightarrow>
     w' = w \<and> (m = NULL_ptr \<or> m \<in> set ms \<and> P (rd_shm w m))"
  by (induction ms P w rule: find_shm.induct) (auto simp: Let_def use_shm_def split: if_splits)

lemma TEEC_ReleaseSharedMemoryHidl_safe:
  assumes held: "sm_context shm = NULL_ptr \<or> 0 < held (sm_context shm)"
  shows "safe held X w (TEEC_ReleaseSharedMemoryHidl (Some shm) w)"
  unfolding safe_def
proof
  assume inv: "client_inv w held X"
  define a where "a = sm_context shm"
  show "client_inv (TEEC_ReleaseSharedMemoryHidl (Some shm) w) held X \<and>
    fault (TEEC_ReleaseSharedMemoryHidl (Some shm) w) = fault w"
  proof (cases "a = NULL_ptr")
    case True
    then show ?thesis using inv by (simp add: TEEC_ReleaseSharedMemoryHidl_def a_def)
  next
    case False
    then have "0 < held a" using held by (simp add: a_def)
    from held_alive [OF inv this] obtain c where c: "w_ctxs w a = Some c" by blast
    then have use: "use_ctx a w = w" by (simp add: use_ctx_def)
    obtain l w1 where l: "ask w = (l, w1)" by (cases "ask w")
    have s1: "lib_same w w1" using lib_same_ask [OF l] .
    have inv1: "client_inv w1 held X" "fault w1 = fault w" using inv lib_same_inv [OF s1] s1 by (simp_all add: lib_same_def)
    have c1: "w_ctxs w1 a = Some c" "rd_ctx w1 a = c" using s1 c by (simp_all add: lib_same_def rd_ctx_def)
    obtain m w2 where fd: "find_shm (shrd_mem_list c) (shm_matches (callFromHidl c) shm) w1 = (m, w2)"
      by (cases "find_shm (shrd_mem_list c) (shm_matches (callFromHidl c) shm) w1")
    have "\<forall>x \<in> set (shrd_mem_list c). w_shms w1 x \<noteq> None" using listed_shms_alive [OF inv1(1) c1(1)] by auto
    note f = find_shm_eff [OF fd this]
    have "TEEC_ReleaseSharedMemoryHidl (Some shm) w =
      (if l \<noteq> 0 \<or> m = NULL_ptr then w1 else unlink_shm a m w1)"
      using False use l c1 fd f
      by (auto simp: TEEC_ReleaseSharedMemoryHidl_def TEEC_FindAndRemoveShrMemHidl_def a_def [symmetric] unlink_shm_def)
    moreover have "client_inv (unlink_shm a m w1) held X \<and> fault (unlink_shm a m w1) = fault w1" if "m \<in> set (shrd_mem_list c)"
      using unlink_shm_inv [OF inv1(1) c1(1) that] unlink_shm_eff [OF inv1(1) c1(1) that] by metis
    ultimately show ?thesis using f inv1 by auto
  qed
qed

lemma TEEC_ReleaseSharedMemory_safe:
  assumes room: "room held" and run: "TEEC_ReleaseSharedMemory m w = w'"
  shows "safe held X w w'"
proof (cases "m = NULL_ptr \<or> as_context (rd_app_shm (use_app_shm m w) m) = NULL_ptr")
  case True
  then have "w' = w \<or> w' = use_app_shm m w" using run by (auto simp: TEEC_ReleaseSharedMemory_def Let_def split: if_splits)
  then show ?thesis using safe_same [of w "use_app_shm m w"] by auto
next
  case False
  define w0 where "w0 = use_app_shm m w"
  have s0: "lib_same w w0" by (simp add: w0_def)
  define x where "x = rd_app_shm w0 m"
  obtain a w1 where get: "GetBnContext (as_context x) w0 = (a, w1)" by (cases "GetBnContext (as_context x) w0")
  define shm where "shm = \<lparr>sm_buffer = as_buffer x, sm_size = as_size x, sm_flags = as_flags x,
     sm_ops_cnt = as_ops_cnt x, sm_is_allocated = as_is_allocated x, sm_context = a, sm_offset = 0\<rparr>"
  define w2 where "w2 = TEEC_ReleaseSharedMemoryHidl (Some shm) w1"
  have body: "safe h X w1 w2" if "a = NULL_ptr \<or> 0 < h a" for h
    unfolding w2_def by (rule TEEC_ReleaseSharedMemoryHidl_safe) (use that in \<open>simp add: shm_def\<close>)
  define w3 where "w3 = snd (PutBnContext a w2)"
  have "w3 = (if a = NULL_ptr then w2 else snd (PutBnContext a w2))" by (simp add: w3_def PutBnContext_null)
  from get_put_call [OF get room body this body] have 3: "safe held X w0 w3" by simp
  have "lib_same w3 w'"
    using run False get
    by (auto simp: TEEC_ReleaseSharedMemory_def Let_def w0_def [symmetric] x_def [symmetric] shm_def [symmetric] w2_def [symmetric] w3_def)
  then show ?thesis using safe_trans [OF safe_same [OF s0] safe_then_same [OF 3]] by simp
qed

section \<open>Initialising and finalising contexts\<close>

lemma TEEC_FinalizeContext_safe:
  assumes run: "TEEC_FinalizeContext ctx w = w'"
  shows "safe held X w w'"
  unfolding safe_def
proof
  assume inv: "client_inv w held X"
  show "client_inv w' held X \<and> fault w' = fault w"
  proof (cases "ctx = NULL_ptr")
    case True
    then show ?thesis using run inv by (simp add: TEEC_FinalizeContext_def)
  next
    case False
    obtain l w1 where l: "MutexLockContext w = (l, w1)" by (cases "MutexLockContext w")
    have s1: "lib_same w w1" using l by (simp add: MutexLockContext_def lib_same_ask)
    have inv1: "client_inv w1 held X" "fault w1 = fault w" using inv lib_same_inv [OF s1] s1 by (simp_all add: lib_same_def)
    obtain b w2 where f: "FindBnContext ctx w1 = (b, w2)" by (cases "FindBnContext ctx w1")
    note fs = FindBnContext_spec [OF inv1(1) f]
    have inv2: "client_inv w2 held X" "fault w2 = fault w" using inv1 lib_same_inv fs by (auto simp: lib_same_def)
    define w3 where "w3 = w2\<lparr>g_teecContextList := remove1 b (g_teecContextList w2)\<rparr>"
    define w4 where "w4 = (if l \<noteq> 0 then w1 else if b = NULL_ptr then w2 else snd (PutBnContext b w3))"
    have w': "lib_same w4 w'"
      using run False l f
      by (auto simp: TEEC_FinalizeContext_def FindAndRemoveBnContext_def w3_def w4_def PutBnContext_null)
    have "client_inv w4 held X \<and> fault w4 = fault w"
    proof (cases "l = 0 \<and> b \<noteq> NULL_ptr")
      case False
      then show ?thesis using inv1 inv2 by (auto simp: w4_def)
    next
      case True
      then have b: "b \<in> set (g_teecContextList w2)" using fs by (auto simp: lib_same_def)
      have d: "distinct (g_teecContextList w2)" using inv2 by (simp add: client_inv_defs)
      have other: "x \<in> set (remove1 b (g_teecContextList w2)) \<longleftrightarrow> x \<in> set (g_teecContextList w2) \<and> x \<noteq> b" for x
        using d by (auto simp: set_remove1_eq)
      have "ctx_ok w3 (held(b := Suc (held b))) X a c" if c: "w_ctxs w2 a = Some c" for a c
      proof -
        have "ctx_ok w2 held X a c" using inv2 c by (simp add: client_inv_def inv_ctxs_def)
        then show ?thesis using b other by (auto simp: ctx_ok_def w3_def)
      qed
      moreover have "w_ctxs w2 b \<noteq> None" using inv2 b by (auto simp: client_inv_defs)
      ultimately have "inv_ctxs w3 (held(b := Suc (held b))) X"
        using inv2 d other by (auto simp: client_inv_def inv_ctxs_def w3_def)
      then have inv3: "client_inv w3 (held(b := Suc (held b))) X"
        using inv2 by (simp add: client_inv_def inv_fds_def inv_shms_def inv_bufs_def shm_ok_def w3_def)
      have e: "(held(b := Suc (held b))) b = Suc (held b)" by simp
      from PutBnContext_eff [OF inv3 e] show ?thesis using True inv2 by (simp add: w4_def w3_def del: fun_upd_apply)
    qed
    then show ?thesis using w' lib_same_inv [OF w'] by (simp add: lib_same_def)
  qed
qed


lemma TryConnectCaDaemon_eff:
  assumes "TryConnectCaDaemon hidl w = (fd, w1)"
  shows "app_ctxs w1 = app_ctxs w \<and>
    (fd < 0 \<and> lib_same w w1 \<or> 0 \<le> fd \<and> \<not> open_fds w fd \<and> lib_same (w\<lparr>open_fds := (open_fds w)(fd := True)\<rparr>) w1)"
  using assms
  by (auto simp: TryConnectCaDaemon_def CaDaemonConnectWithoutCaInfo_def connect_fd_def ask_def lib_same_def
      split: if_splits)

text \<open>The context as initialisation leaves it, with counter \<open>n\<close>.\<close>

definition fresh_ctx :: "int \<Rightarrow> bool \<Rightarrow> u32 \<Rightarrow> TEEC_ContextHidl" where
  "fresh_ctx fd hidl n = \<lparr>cx_fd = fd, session_list = [], shrd_mem_list = [], shm_bitmap = replicate 8 0,
     cx_ops_cnt = n, callFromHidl = hidl\<rparr>"

definition with_ctx :: "ptr \<Rightarrow> TEEC_ContextHidl \<Rightarrow> world \<Rightarrow> world" where
  "with_ctx p c w = w\<lparr>w_ctxs := (w_ctxs w)(p \<mapsto> c), g_teecContextList := g_teecContextList w @ [p],
     open_fds := (open_fds w)(cx_fd c := True)\<rparr>"

lemma close_new_fd:
  "\<not> open_fds v fd \<Longrightarrow> lib_same (v\<lparr>w_ctxs := m, open_fds := (open_fds v)(fd := True)\<rparr>) w \<Longrightarrow>
     lib_same (v\<lparr>w_ctxs := m\<rparr>) (close_fd fd w) \<and> app_ctxs (close_fd fd w) = app_ctxs w"
  by (auto simp: lib_same_def close_fd_def log_call_def fun_eq_iff)

lemma TEEC_InitializeContextWithType_eff:
  assumes run: "TEEC_InitializeContextWithType p hidl w = (r, w')" and c0: "w_ctxs w p = Some c0" and p: "p \<noteq> NULL_ptr"
  shows "app_ctxs w' = app_ctxs w \<and>
    (r \<noteq> TEEC_SUCCESS \<and> (\<exists>c. lib_same (w\<lparr>w_ctxs := (w_ctxs w)(p \<mapsto> c)\<rparr>) w') \<or>
     r = TEEC_SUCCESS \<and> (\<exists>fd \<ge> 0. \<not> open_fds w fd \<and> lib_same (with_ctx p (fresh_ctx fd hidl 2) w) w'))"
proof -
  obtain fd w1 where con: "TryConnectCaDaemon hidl w = (fd, w1)" by (cases "TryConnectCaDaemon hidl w")
  note e = TryConnectCaDaemon_eff [OF con]
  show ?thesis
  proof (cases "fd < 0")
    case True
    have "w\<lparr>w_ctxs := (w_ctxs w)(p \<mapsto> c0)\<rparr> = w" using c0 by (simp add: fun_upd_idem)
    then show ?thesis using True run con e p bad_results
      by (auto simp: TEEC_InitializeContextWithType_def intro!: exI [of _ c0])
  next
    case False
    then have fd: "\<not> open_fds w fd" "lib_same (w\<lparr>open_fds := (open_fds w)(fd := True)\<rparr>) w1" "app_ctxs w1 = app_ctxs w"
      using e by auto
    define c1 where "c1 = c0\<lparr>cx_fd := fd, cx_ops_cnt := 1, callFromHidl := hidl, session_list := [], shrd_mem_list := []\<rparr>"
    have c1: "c1\<lparr>shm_bitmap := replicate 8 0\<rparr> = fresh_ctx fd hidl 1" by (simp add: c1_def fresh_ctx_def)
    define w2 where "w2 = w1\<lparr>w_ctxs := (w_ctxs w1)(p \<mapsto> c1)\<rparr>"
    have u2: "upd_ctx p (\<lambda>c. c\<lparr>cx_fd := fd, cx_ops_cnt := 1, callFromHidl := hidl, session_list := [], shrd_mem_list := []\<rparr>) w1 = w2"
      using fd(2) c0 by (simp add: upd_ctx_def w2_def c1_def lib_same_def)
    obtain n w3 where n: "ask w2 = (n, w3)" by (cases "ask w2")
    have s3: "lib_same (w\<lparr>w_ctxs := (w_ctxs w)(p \<mapsto> c1), open_fds := (open_fds w)(fd := True)\<rparr>) w3" "app_ctxs w3 = app_ctxs w"
      using fd lib_same_ask [OF n] n by (auto simp: lib_same_def w2_def ask_def)
    define w4 where "w4 = w3\<lparr>w_ctxs := (w_ctxs w3)(p \<mapsto> fresh_ctx fd hidl 1)\<rparr>"
    have u4: "upd_ctx p (\<lambda>c. c\<lparr>shm_bitmap := replicate 8 0\<rparr>) w3 = w4"
      using s3(1) by (simp add: upd_ctx_def w4_def c1 lib_same_def)
    obtain l w5 where l: "MutexLockContext w4 = (l, w5)" by (cases "MutexLockContext w4")
    have s5: "lib_same (w\<lparr>w_ctxs := (w_ctxs w)(p \<mapsto> fresh_ctx fd hidl 1), open_fds := (open_fds w)(fd := True)\<rparr>) w5"
      "app_ctxs w5 = app_ctxs w"
      using s3 l by (auto simp: MutexLockContext_def lib_same_def w4_def ask_def)
    define w6 where "w6 = w5\<lparr>g_teecContextList := g_teecContextList w5 @ [p]\<rparr>"
    have "upd_ctx p (\<lambda>c. c\<lparr>cx_ops_cnt := AtomInc (cx_ops_cnt c)\<rparr>) w6 =
        w6\<lparr>w_ctxs := (w_ctxs w6)(p \<mapsto> fresh_ctx fd hidl 2)\<rparr>"
      using s5(1) by (simp add: upd_ctx_def lib_same_def w6_def fresh_ctx_def AtomInc_def)
    then have fin: "lib_same (with_ctx p (fresh_ctx fd hidl 2) w) (upd_ctx p (\<lambda>c. c\<lparr>cx_ops_cnt := AtomInc (cx_ops_cnt c)\<rparr>) w6)"
      "app_ctxs (upd_ctx p (\<lambda>c. c\<lparr>cx_ops_cnt := AtomInc (cx_ops_cnt c)\<rparr>) w6) = app_ctxs w"
      using s5 by (simp_all add: lib_same_def with_ctx_def w6_def fresh_ctx_def)
    have outs: "n \<noteq> 0 \<and> r = TEEC_FAIL \<and> w' = close_fd fd w3 \<or> n = 0 \<and> l \<noteq> 0 \<and> r = TEEC_FAIL \<and> w' = close_fd fd w5 \<or>
      n = 0 \<and> l = 0 \<and> r = TEEC_SUCCESS \<and> w' = upd_ctx p (\<lambda>c. c\<lparr>cx_ops_cnt := AtomInc (cx_ops_cnt c)\<rparr>) w6"
      using run con False p u2 n u4 l
      by (auto simp: TEEC_InitializeContextWithType_def Let_def w6_def split: if_splits)
    note closed = close_new_fd [OF fd(1) s3(1)] close_new_fd [OF fd(1) s5(1)]
    show ?thesis using outs
    proof (elim disjE conjE)
      assume "r = TEEC_FAIL" "w' = close_fd fd w3"
      then show ?thesis using closed(1) s3(2) bad_results by auto
    next
      assume "r = TEEC_FAIL" "w' = close_fd fd w5"
      then show ?thesis using closed(2) s5(2) bad_results by auto
    next
      assume "r = TEEC_SUCCESS" "w' = upd_ctx p (\<lambda>c. c\<lparr>cx_ops_cnt := AtomInc (cx_ops_cnt c)\<rparr>) w6"
      then show ?thesis using fin fd(1) False by (auto intro!: exI [of _ fd])
    qed
  qed
qed

text \<open>A failed initialisation leaves the library as it was; a successful one adds one context.\<close>

lemma free_new_ctx:
  "w_ctxs v a = None \<Longrightarrow> lib_same (v\<lparr>w_ctxs := (w_ctxs v)(a \<mapsto> c)\<rparr>) w \<Longrightarrow> lib_same v (free_ctx a w)"
  by (auto simp: lib_same_def free_ctx_def log_call_def fun_eq_iff)

lemma TEEC_InitializeContext_eff:
  assumes run: "TEEC_InitializeContext ctx w = (r, w')"
  shows "r \<noteq> TEEC_SUCCESS \<and> lib_same w w' \<or>
    r = TEEC_SUCCESS \<and> (\<exists>p fd. p \<noteq> NULL_ptr \<and> w_ctxs w p = None \<and> 0 \<le> fd \<and> \<not> open_fds w fd \<and>
       lib_same (with_ctx p (fresh_ctx fd False 1) w) w' \<and>
       app_ctxs w' = (app_ctxs w)(ctx := (if app_ctxs w ctx = None then None else Some \<lparr>ac_fd = fd, ta_path = None\<rparr>)))"
proof (cases "ctx = NULL_ptr")
  case True
  then show ?thesis using run bad_results by (auto simp: TEEC_InitializeContext_def)
next
  case False
  obtain p w1 where al: "malloc_addr w = (p, w1)" by (cases "malloc_addr w")
  have s1: "lib_same w w1" "app_ctxs w1 = app_ctxs w" and fresh: "p \<noteq> NULL_ptr \<Longrightarrow> w_ctxs w p = None"
    using al by (auto simp: malloc_addr_def ask_def lib_same_def in_use_def split: if_splits)
  show ?thesis
  proof (cases "p = NULL_ptr")
    case True
    then show ?thesis using run False al s1 bad_results by (auto simp: TEEC_InitializeContext_def)
  next
    case p: False
    define w2 where "w2 = w1\<lparr>w_ctxs := (w_ctxs w1)(p \<mapsto> nil_ctx)\<rparr>"
    obtain n w3 where n: "ask w2 = (n, w3)" by (cases "ask w2")
    have s3: "lib_same (w\<lparr>w_ctxs := (w_ctxs w)(p \<mapsto> nil_ctx)\<rparr>) w3" "app_ctxs w3 = app_ctxs w"
      using s1 lib_same_ask [OF n] n by (auto simp: lib_same_def w2_def ask_def)
    have c3: "w_ctxs w3 p = Some nil_ctx" using s3 by (simp add: lib_same_def)
    obtain r4 w4 where t: "TEEC_InitializeContextWithType p False w3 = (r4, w4)" by (cases "TEEC_InitializeContextWithType p False w3")
    note e = TEEC_InitializeContextWithType_eff [OF t c3 p]
    have wp: "w_ctxs w p = None" using fresh p by simp
    consider (bad) "n \<noteq> 0" | (fail) "n = 0" "r4 \<noteq> TEEC_SUCCESS" | (ok) "n = 0" "r4 = TEEC_SUCCESS" by blast
    then show ?thesis
    proof cases
      case bad
      then have "r = TEEC_FAIL" "w' = free_ctx p w3"
        using run False al p n by (auto simp: TEEC_InitializeContext_def Let_def w2_def)
      then show ?thesis using free_new_ctx [OF wp s3(1)] bad_results by auto
    next
      case fail
      then have rw: "r = r4" "w' = free_ctx p w4"
        using run False al p n t by (auto simp: TEEC_InitializeContext_def Let_def w2_def)
      obtain c where "lib_same (w3\<lparr>w_ctxs := (w_ctxs w3)(p \<mapsto> c)\<rparr>) w4" using e fail by auto
      then have "lib_same (w\<lparr>w_ctxs := (w_ctxs w)(p \<mapsto> c)\<rparr>) w4" using s3 by (simp add: lib_same_def)
      from free_new_ctx [OF wp this] show ?thesis using rw fail by auto
    next
      case ok
      then obtain fd where fd: "0 \<le> fd" "\<not> open_fds w fd" "lib_same (with_ctx p (fresh_ctx fd False 2) w3) w4"
        using e s3 by (auto simp: lib_same_def)
      have c4: "w_ctxs w4 p = Some (fresh_ctx fd False 2)" using fd(3) by (simp add: lib_same_def with_ctx_def)
      then have rd: "cx_fd (rd_ctx w4 p) = fd" by (simp add: rd_ctx_def fresh_ctx_def)
      define w5 where "w5 = upd_app_ctx ctx (\<lambda>c. c\<lparr>ac_fd := fd, ta_path := None\<rparr>) w4"
      have c5: "w_ctxs w5 p = Some (fresh_ctx fd False 2)" using c4 lib_same_marks(6) by (simp add: lib_same_def w5_def)
      have put: "snd (PutBnContext p w5) = w5\<lparr>w_ctxs := (w_ctxs w5)(p \<mapsto> fresh_ctx fd False 1)\<rparr>"
        using p c5 by (simp add: PutBnContext_def rd_ctx_def AtomDecAndCompareWithZero_def upd_ctx_def fresh_ctx_def Let_def)
      have rw: "r = TEEC_SUCCESS" "w' = snd (PutBnContext p w5)"
        using run False al p n t ok rd by (auto simp: TEEC_InitializeContext_def Let_def w2_def w5_def)
      have a: "lib_same w4 w5" by (simp add: w5_def)
      have "lib_same (with_ctx p (fresh_ctx fd False 1) w) w'"
        using a s3(1) fd(3) unfolding rw(2) put by (simp add: lib_same_def with_ctx_def fresh_ctx_def)
      moreover have "app_ctxs w' = app_ctxs w5" unfolding rw(2) put by simp
      moreover have "app_ctxs w5 = (app_ctxs w)(ctx := (if app_ctxs w ctx = None then None else Some \<lparr>ac_fd = fd, ta_path = None\<rparr>))"
        using e s3(2) by (cases "app_ctxs w ctx") (auto simp: w5_def upd_app_ctx_def app_faulty_def fun_upd_idem)
      ultimately show ?thesis
        using rw(1) p wp fd(1,2) by (intro disjI2 conjI exI [of _ p] exI [of _ fd]) simp_all
    qed
  qed
qed

lemma with_ctx_inv:
  assumes inv: "client_inv w held X" and p: "p \<noteq> NULL_ptr" "w_ctxs w p = None" and fd: "0 \<le> fd" "\<not> open_fds w fd"
  shows "client_inv (with_ctx p (fresh_ctx fd hidl 1) w) held X"
proof -
  let ?w = "with_ctx p (fresh_ctx fd hidl 1) w"
  have h0: "held p = 0" using inv p(2) by (auto simp: client_inv_def inv_ctxs_def)
  have pl: "p \<notin> set (g_teecContextList w)" using inv p(2) by (auto simp: client_inv_def inv_ctxs_def)
  have old: "ctx_ok w held X a c" if "w_ctxs w a = Some c" for a c
    using inv that by (simp add: client_inv_def inv_ctxs_def)
  have "ctx_ok ?w held X a c" if "w_ctxs ?w a = Some c" for a c
  proof (cases "a = p")
    case True
    then have "c = fresh_ctx fd hidl 1" using that by (simp add: with_ctx_def)
    then show ?thesis using True h0 fd by (simp add: ctx_ok_def with_ctx_def fresh_ctx_def)
  next
    case False
    then have "ctx_ok w held X a c" using old that by (simp add: with_ctx_def)
    then show ?thesis using False by (auto simp: ctx_ok_def with_ctx_def)
  qed
  then have 1: "inv_ctxs ?w held X"
    using inv p pl by (auto simp: client_inv_def inv_ctxs_def with_ctx_def)
  have "w_ctxs w a = Some c \<Longrightarrow> cx_fd c \<noteq> fd" for a c using old [of a c] fd by (auto simp: ctx_ok_def)
  then have 2: "inv_fds ?w" using inv by (auto simp: client_inv_def inv_fds_def with_ctx_def fresh_ctx_def)
  have "shm_ok w m h \<Longrightarrow> shm_ok ?w m h" for m h
    using p by (auto simp: shm_ok_def with_ctx_def)
  then have 3: "inv_shms ?w X" using inv by (simp add: client_inv_def inv_shms_def) (simp add: with_ctx_def)
  have 4: "inv_bufs ?w X" using inv by (simp add: client_inv_def inv_bufs_def with_ctx_def)
  show ?thesis using 1 2 3 4 by (simp add: client_inv_def)
qed

lemma TEEC_InitializeContext_safe:
  assumes run: "TEEC_InitializeContext ctx w = (r, w')"
  shows "safe held X w w'"
  unfolding safe_def
proof
  assume inv: "client_inv w held X"
  from TEEC_InitializeContext_eff [OF run] show "client_inv w' held X \<and> fault w' = fault w"
  proof (elim disjE conjE exE)
    assume s: "lib_same w w'"
    then show ?thesis using inv lib_same_inv [OF s] by (simp add: lib_same_def)
  next
    fix p fd assume p: "p \<noteq> NULL_ptr" "w_ctxs w p = None" "0 \<le> fd" "\<not> open_fds w fd"
      and s: "lib_same (with_ctx p (fresh_ctx fd False 1) w) w'"
    show ?thesis using with_ctx_inv [OF inv p] lib_same_inv [OF s] s by (simp add: lib_same_def with_ctx_def)
  qed
qed


section \<open>Secure files\<close>

lemma mem_only_iff:
  "mem_only w (free_block p v) \<longleftrightarrow> mem_only w v" "mem_only w (write_block p b v) \<longleftrightarrow> mem_only w v"
  "mem_only (write_block p b v) w \<longleftrightarrow> mem_only v w" "mem_only (log_call c v) w \<longleftrightarrow> mem_only v w"
  using mem_only_prims(6,7,8) unfolding mem_only_def by metis+

lemma lib_same_LoadSecFile:
  assumes run: "LoadSecFile tzFd (Some fp) k u w = (r, e, w')"
  shows "lib_same w w'"
proof -
  have "mem_only w w'"
    using run
    by (auto simp: LoadSecFile_def GetImgLen_def Let_def mem_only_prims(1) mem_only_iff
        split: option.splits prod.splits if_splits dest!: mem_only_prims(2,3,4,5))
       (meson mem_only_trans)+
  then show ?thesis using LoadSecFile_frees [OF run] by (simp add: mem_only_def lib_same_def)
qed

lemma lib_same_SendSecfileHidl: "TEEC_SendSecfileHidl env p fd fp w = (r, w') \<Longrightarrow> lib_same w w'"
  by (auto simp: TEEC_SendSecfileHidl_def TEEC_LoadSecfile_def Let_def split: option.splits prod.splits if_splits
      dest!: lib_same_LoadSecFile)

lemma TEEC_SendSecfile_safe:
  assumes room: "room held" and run: "TEEC_SendSecfile env path s w = (r, w')"
  shows "safe held X w w'"
proof (cases "path = None \<or> s = NULL_ptr \<or> ss_context (rd_sess (use_sess s w) s) = NULL_ptr")
  case True
  then show ?thesis using run by (auto simp: TEEC_SendSecfile_def Let_def split: if_splits intro: safe_same)
next
  case False
  define w0 where "w0 = use_sess s w"
  have s0: "lib_same w w0" by (simp add: w0_def)
  obtain a w1 where get: "GetBnContext (ss_context (rd_sess w0 s)) w0 = (a, w1)"
    by (cases "GetBnContext (ss_context (rd_sess w0 s)) w0")
  obtain r2 w2 where snd: "TEEC_SendSecfileHidl env path (cx_fd (rd_ctx w1 a)) None w1 = (r2, w2)"
    by (cases "TEEC_SendSecfileHidl env path (cx_fd (rd_ctx w1 a)) None w1")
  have out: "w' = (if a = NULL_ptr then w1 else snd (PutBnContext a w2))"
    using run False get snd by (auto simp: TEEC_SendSecfile_def Let_def w0_def [symmetric] split: if_splits)
  from get_put_call [OF get room safe_same [OF lib_same_SendSecfileHidl [OF snd]] out]
  show ?thesis using safe_trans [OF safe_same [OF s0]] by simp
qed

section \<open>Allocating\<close>

text \<open>Changing the bitmap of a context.\<close>

lemma bitmap_inv:
  assumes inv: "client_inv w held X" and c: "w_ctxs w a = Some c" and l: "length bm = 8"
  shows "client_inv (w\<lparr>w_ctxs := (w_ctxs w)(a \<mapsto> c\<lparr>shm_bitmap := bm\<rparr>)\<rparr>) held X"
proof -
  have ok: "unat (cx_ops_cnt c) = of_bool (a \<in> set (g_teecContextList w)) + held a" using inv c by (auto simp: client_inv_defs)
  have "client_inv (w\<lparr>w_ctxs := (w_ctxs w)(a \<mapsto> c\<lparr>shm_bitmap := bm\<rparr>)\<rparr>) (held(a := held a)) X"
    by (rule client_inv_ctx [OF inv c]) (use ok l in simp_all)
  then show ?thesis by simp
qed

lemma GetAndSetBitWithLock_length:
  "GetAndSetBitWithLock l (Some bm) n = (b, bm') \<Longrightarrow> \<exists>k. bm' = Some k \<and> length k = length bm"
  by (auto simp: GetAndSetBitWithLock_def GetAndSetBit_def IterateBitmap_def Let_def SetBit_def ClearBit_def
      split: if_splits option.splits)

text \<open>Steps of an allocation: the bitmap, the blocks and nothing else of the library.\<close>

lemma get_shm_bit_eff:
  assumes inv: "client_inv w held X" and c: "w_ctxs w a = Some c" and run: "get_shm_bit a w = (b, w')"
  shows "client_inv w' held X \<and> fault w' = fault w \<and> w_shms w' = w_shms w \<and> w_ctxs w' a \<noteq> None"
proof -
  obtain l w1 where l: "ask w = (l, w1)" by (cases "ask w")
  have s1: "lib_same w w1" using lib_same_ask [OF l] .
  have c1: "w_ctxs w1 a = Some c" "rd_ctx w1 a = c" using s1 c by (simp_all add: lib_same_def rd_ctx_def)
  obtain b' bm where g: "GetAndSetBitWithLock l (Some (shm_bitmap c)) NUM_OF_SHAREMEM_BITMAP = (b', bm)"
    by (cases "GetAndSetBitWithLock l (Some (shm_bitmap c)) NUM_OF_SHAREMEM_BITMAP")
  obtain k where k: "bm = Some k" "length k = 8"
    using GetAndSetBitWithLock_length [OF g] inv c by (auto simp: client_inv_defs)
  have "w' = w1\<lparr>w_ctxs := (w_ctxs w1)(a \<mapsto> c\<lparr>shm_bitmap := k\<rparr>)\<rparr>"
    using run l c c1 g k by (simp add: get_shm_bit_def Let_def use_ctx_def upd_ctx_def)
  moreover have "client_inv w1 held X" using inv lib_same_inv [OF s1] by simp
  ultimately show ?thesis using bitmap_inv [OF _ c1(1) k(2)] s1 by (simp add: lib_same_def)
qed

lemma clear_shm_bit_inv:
  assumes inv: "client_inv w held X" and c: "w_ctxs w a = Some c"
  shows "client_inv (clear_shm_bit a off w) held X \<and> fault (clear_shm_bit a off w) = fault w \<and>
    w_shms (clear_shm_bit a off w) = w_shms w"
proof -
  have "length (shm_bitmap c) = 8" using inv c by (auto simp: client_inv_defs)
  from clear_shm_bit_eff [OF c this, of off] obtain bm where
    e: "length bm = 8" "fault (clear_shm_bit a off w) = fault w" "w_shms (clear_shm_bit a off w) = w_shms w"
    and s: "lib_same (w\<lparr>w_ctxs := (w_ctxs w)(a \<mapsto> c\<lparr>shm_bitmap := bm\<rparr>)\<rparr>) (clear_shm_bit a off w)"
    by (auto simp: lib_same_def)
  show ?thesis using bitmap_inv [OF inv c e(1)] lib_same_inv [OF s] e by simp
qed

text \<open>A fresh block belongs to nobody.\<close>

lemma fresh_block_eff:
  fixes b :: block and w1 :: world
  assumes inv: "client_inv w held X" and al: "malloc_addr w = (p, w1)" and p: "p \<noteq> NULL_ptr"
  defines "w2 \<equiv> w1\<lparr>w_blocks := (w_blocks w1)(p \<mapsto> b)\<rparr>"
  shows "client_inv w2 held X \<and> fault w2 = fault w \<and> w_shms w2 = w_shms w \<and> w_ctxs w2 = w_ctxs w \<and>
    w_blocks w2 p = Some b \<and> not_owned p X w2 \<and> p \<noteq> MAP_FAILED \<and> p \<noteq> ZERO_SIZE_PTR"
proof -
  have s1: "lib_same w w1" and f: "w_blocks w p = None" "p \<noteq> MAP_FAILED" "p \<noteq> ZERO_SIZE_PTR"
    using al p by (auto simp: malloc_addr_def ask_def lib_same_def in_use_def split: if_splits)
  have inv1: "client_inv w1 held X" using inv lib_same_inv [OF s1] by simp
  have n: "not_owned p X w1" by (rule fresh_not_owned [OF inv1]) (use s1 f in \<open>simp add: lib_same_def\<close>)
  have "client_inv w2 held X" unfolding w2_def by (rule block_upd_inv [OF inv1 n])
  then show ?thesis using s1 f n by (simp add: w2_def lib_same_def not_owned_def)
qed


definition good_buf :: "ptr \<Rightarrow> ptr set \<Rightarrow> world \<Rightarrow> TEEC_SharedMemoryHidl \<Rightarrow> bool" where
  "good_buf p X w h \<longleftrightarrow> sm_buffer h \<noteq> NULL_ptr \<and> (sm_size h \<noteq> 0 \<longrightarrow> sm_buffer h \<noteq> ZERO_SIZE_PTR) \<and>
     (is_zero_copy (sm_flags h) \<or> sm_size h \<noteq> 0 \<longrightarrow> owns (w_blocks w) h \<and> not_owned (sm_buffer h) (insert p X) w)"

lemma zero_copy_buffer_eff:
  assumes inv: "client_inv w held (insert p X)" and h: "w_shms w p = Some h" and zc: "is_zero_copy (sm_flags h)"
    and run: "AllocateSharedMem p w = (r, w')" and p: "p \<noteq> NULL_ptr"
  shows "client_inv w' held (insert p X) \<and> fault w' = fault w \<and> w_ctxs w' = w_ctxs w \<and>
    r \<noteq> TEEC_ERROR_GENERIC \<and>
    (r = TEEC_SUCCESS \<longrightarrow> (\<exists>q. q \<noteq> MAP_FAILED \<and> w_shms w' p = Some (h\<lparr>sm_buffer := q\<rparr>) \<and> good_buf p X w' (h\<lparr>sm_buffer := q\<rparr>)))"
proof -
  have use: "use_shm p w = w" "rd_shm w p = h" using h by (simp_all add: use_shm_def rd_shm_def)
  show ?thesis
  proof (cases "sm_size h = 0 \<or> sm_size h > MAX_SHAREDMEM_LEN")
    case True
    then have "r = TEEC_ERROR_BAD_PARAMETERS" "w' = w" using run use p by (auto simp: AllocateSharedMem_def Let_def)
    then show ?thesis using inv bad_results by simp
  next
    case False
    obtain q w1 where al: "malloc_addr w = (q, w1)" by (cases "malloc_addr w")
    have s1: "lib_same w w1" using al by (auto simp: malloc_addr_def ask_def lib_same_def split: if_splits)
    define w2 where "w2 = (if q = NULL_ptr then w1 else w1\<lparr>w_blocks := (w_blocks w1)(q \<mapsto> Heap [])\<rparr>)"
    define h' where "h' = h\<lparr>sm_buffer := q\<rparr>"
    define w3 where "w3 = w2\<lparr>w_shms := (w_shms w2)(p \<mapsto> h')\<rparr>"
    have 2: "client_inv w2 held (insert p X)" "fault w2 = fault w" "w_shms w2 = w_shms w" "w_ctxs w2 = w_ctxs w"
      using fresh_block_eff [OF inv al, of "Heap []"] inv s1 lib_same_inv [OF s1] by (auto simp: w2_def lib_same_def)
    have inv3: "client_inv w3 held (insert p X)" unfolding w3_def by (rule pend_upd_inv [OF 2(1)]) simp
    have u: "upd_shm p (\<lambda>m. m\<lparr>sm_buffer := q\<rparr>) w2 = w3" using h 2(3) by (simp add: upd_shm_def w3_def h'_def)
    obtain n w4 where n: "ask w3 = (n, w4)" by (cases "ask w3")
    have s4: "lib_same w3 w4" using lib_same_ask [OF n] .
    have outs: "r = TEEC_ERROR_OUT_OF_MEMORY \<and> w' = w3 \<or> r = TEEC_ERROR_SECURITY \<and> w' = w4 \<or>
       q \<noteq> NULL_ptr \<and> r = TEEC_SUCCESS \<and> w' = w4"
      using run use p False al u n
      by (auto simp: AllocateSharedMem_def malloc_block_def Let_def w2_def [symmetric] split: if_splits)
    have inv4: "client_inv w4 held (insert p X)" "fault w4 = fault w" "w_ctxs w4 = w_ctxs w" "w_shms w4 p = Some h'"
      using inv3 lib_same_inv [OF s4] s4 2 by (simp_all add: lib_same_def w3_def)
    have good: "q \<noteq> MAP_FAILED \<and> good_buf p X w4 h'" if "q \<noteq> NULL_ptr"
      using fresh_block_eff [OF inv al that, of "Heap []"] that zc s4
      by (auto simp: good_buf_def owns_def not_owned_def lib_same_def w2_def w3_def h'_def)
    from outs show ?thesis
    proof (elim disjE conjE)
      assume "r = TEEC_ERROR_OUT_OF_MEMORY" "w' = w3"
      then show ?thesis using inv3 2 bad_results by (simp add: w3_def)
    next
      assume "r = TEEC_ERROR_SECURITY" "w' = w4"
      then show ?thesis using inv4 bad_results by simp
    next
      assume "q \<noteq> NULL_ptr" "r = TEEC_SUCCESS" "w' = w4"
      then show ?thesis using inv4 good bad_results by (auto simp: h'_def)
    qed
  qed
qed

lemma get_shm_buffer_eff:
  assumes inv: "client_inv w held (insert p X)" and h: "w_shms w p = Some h" and p: "p \<noteq> NULL_ptr"
    and run: "get_shm_buffer a p w = (r, w')"
  shows "client_inv w' held (insert p X) \<and> fault w' = fault w \<and> w_ctxs w' = w_ctxs w \<and>
    r \<noteq> TEEC_ERROR_GENERIC \<and>
    (r = TEEC_SUCCESS \<longrightarrow> (\<exists>q. w_shms w' p = Some (h\<lparr>sm_buffer := q\<rparr>) \<and>
        (q = MAP_FAILED \<or> good_buf p X w' (h\<lparr>sm_buffer := q\<rparr>))))"
proof -
  have rd: "rd_shm w p = h" using h by (simp add: rd_shm_def)
  consider (zc) "is_zero_copy (sm_flags h)" | (map) "\<not> is_zero_copy (sm_flags h)" "sm_size h \<noteq> 0"
    | (zero) "\<not> is_zero_copy (sm_flags h)" "sm_size h = 0" by blast
  then show ?thesis
  proof cases
    case zc
    then show ?thesis using zero_copy_buffer_eff [OF inv h zc _ p] run rd by (auto simp: get_shm_buffer_def Let_def)
  next
    case zero
    define h' where "h' = h\<lparr>sm_buffer := ZERO_SIZE_PTR\<rparr>"
    have w': "r = TEEC_SUCCESS" "w' = w\<lparr>w_shms := (w_shms w)(p \<mapsto> h')\<rparr>"
      using run zero rd h by (auto simp: get_shm_buffer_def Let_def upd_shm_def h'_def)
    have "client_inv w' held (insert p X)" unfolding w'(2) by (rule pend_upd_inv [OF inv]) simp
    moreover have "good_buf p X w' h'" using zero by (simp add: good_buf_def h'_def ZERO_SIZE_PTR_def)
    ultimately show ?thesis using w' bad_results by (auto simp: h'_def)
  next
    case map
    define fd where "fd = cx_fd (rd_ctx w a)"
    define off where "off = sm_offset h * PAGE_SIZE"
    obtain q w1 where al: "malloc_addr w = (q, w1)" by (cases "malloc_addr w")
    have s1: "lib_same w w1" using al by (auto simp: malloc_addr_def ask_def lib_same_def split: if_splits)
    define w2 where "w2 = (if q = NULL_ptr then w1 else w1\<lparr>w_blocks := (w_blocks w1)(q \<mapsto> Mapped fd (sm_size h) off)\<rparr>)"
    define z where "z = (if q = NULL_ptr then MAP_FAILED else q)"
    define h' where "h' = h\<lparr>sm_buffer := z\<rparr>"
    have 2: "client_inv w2 held (insert p X)" "fault w2 = fault w" "w_shms w2 = w_shms w" "w_ctxs w2 = w_ctxs w"
      using fresh_block_eff [OF inv al, of "Mapped fd (sm_size h) off"] inv s1 lib_same_inv [OF s1]
      by (auto simp: w2_def lib_same_def)
    have w': "r = TEEC_SUCCESS" "w' = w2\<lparr>w_shms := (w_shms w2)(p \<mapsto> h')\<rparr>"
      using run map rd h 2(3) al
      by (auto simp: get_shm_buffer_def mmap_block_def Let_def upd_shm_def h'_def z_def w2_def fd_def [symmetric] off_def [symmetric] split: if_splits)
    have inv': "client_inv w' held (insert p X)" unfolding w'(2) by (rule pend_upd_inv [OF 2(1)]) simp
    have "z = MAP_FAILED \<or> good_buf p X w' h'"
    proof (cases "q = NULL_ptr")
      case False
      then show ?thesis
        using fresh_block_eff [OF inv al False, of "Mapped fd (sm_size h) off"] map
        by (auto simp: good_buf_def owns_def not_owned_def w'(2) w2_def h'_def z_def)
    qed (simp add: z_def)
    then show ?thesis using w' inv' 2 bad_results by (auto simp: h'_def)
  qed
qed

lemma RelaseBufferAndClearBit_eff:
  assumes inv: "client_inv w held (insert p X)" and h: "w_shms w p = Some h" and c: "w_ctxs w a = Some c"
    and buf: "sm_buffer h = MAP_FAILED \<or> good_buf p X w h \<and> \<not> is_zero_copy (sm_flags h)"
  shows "client_inv (RelaseBufferAndClearBit a p w) held (insert p X) \<and> fault (RelaseBufferAndClearBit a p w) = fault w"
proof -
  have use: "use_shm p w = w" "rd_shm w p = h" using h by (simp_all add: use_shm_def rd_shm_def)
  define w1 where "w1 = (if sm_buffer h \<noteq> MAP_FAILED \<and> sm_size h \<noteq> 0
     then snd (munmap_block (sm_buffer h) (sm_size h) w) else w)"
  have 1: "client_inv w1 held (insert p X) \<and> fault w1 = fault w \<and> w_ctxs w1 = w_ctxs w \<and> w_shms w1 = w_shms w"
  proof (cases "sm_buffer h \<noteq> MAP_FAILED \<and> sm_size h \<noteq> 0")
    case True
    then obtain fd off where b: "w_blocks w (sm_buffer h) = Some (Mapped fd (sm_size h) off)"
      and n: "not_owned (sm_buffer h) (insert p X) w"
      using buf by (auto simp: good_buf_def owns_def)
    note e = munmap_block_eff [OF b, unfolded Let_def]
    have s: "lib_same (w\<lparr>w_blocks := (w_blocks w)(sm_buffer h := None)\<rparr>) (snd (munmap_block (sm_buffer h) (sm_size h) w))"
      using e by (simp add: lib_same_def)
    have "client_inv (snd (munmap_block (sm_buffer h) (sm_size h) w)) held (insert p X)"
      using block_upd_inv [OF inv n, of None] lib_same_inv [OF s] by simp
    then show ?thesis using True e by (simp add: w1_def)
  next
    case False
    then show ?thesis using inv by (auto simp: w1_def)
  qed
  define w2 where "w2 = clear_shm_bit a (sm_offset h) w1"
  have "w_ctxs w1 a = Some c" using 1 c by simp
  from clear_shm_bit_inv [OF _ this, of held "insert p X" "sm_offset h"] 1
  have 2: "client_inv w2 held (insert p X)" "fault w2 = fault w" "w_shms w2 p = Some h" using h by (simp_all add: w2_def)
  have "RelaseBufferAndClearBit a p w = w2\<lparr>w_shms := (w_shms w2)(p \<mapsto> h\<lparr>sm_buffer := NULL_ptr, sm_offset := 0\<rparr>)\<rparr>"
    unfolding RelaseBufferAndClearBit_def Let_def use w1_def [symmetric] w2_def [symmetric]
    using 2(3) by (simp add: upd_shm_def)
  then show ?thesis using pend_upd_inv [OF 2(1)] 2(2) by simp
qed


lemma TEEC_AllocateSharedMemoryHidl_made:
  assumes inv: "client_inv w held (insert p X)" and p: "p \<notin> X" "p \<noteq> NULL_ptr" and a: "a = NULL_ptr \<or> 0 < held a"
    and h: "w_shms w p = Some h" and ok: "is_zero_copy (sm_flags h) \<longrightarrow> r \<noteq> TEEC_ERROR_GENERIC"
    and run: "TEEC_AllocateSharedMemoryHidl a p w = (r, w')"
  shows "made p held X (fault w) r w'"
proof -
  obtain r1 w1 where chk: "CheckSharedMemoryParam a p ALLOCATE w = (r1, w1)" by (cases "CheckSharedMemoryParam a p ALLOCATE w")
  note e = CheckSharedMemoryParam_eff [OF chk h]
  show ?thesis
  proof (cases "r1 = TEEC_SUCCESS")
    case False
    then have "r = r1" "w' = w" using run chk e by (auto simp: TEEC_AllocateSharedMemoryHidl_def)
    then show ?thesis using False inv by (simp add: made_def)
  next
    case r1: True
    then have held: "0 < held a" using a e by auto
    from held_alive [OF inv held] obtain c where c: "w_ctxs w a = Some c" by blast
    define h2 where "h2 = h\<lparr>sm_buffer := NULL_ptr\<rparr>"
    define w2 where "w2 = w\<lparr>w_shms := (w_shms w)(p \<mapsto> h2)\<rparr>"
    define zc where "zc = is_zero_copy (sm_flags h)"
    have inv2: "client_inv w2 held (insert p X)" unfolding w2_def by (rule pend_upd_inv [OF inv]) simp
    have u2: "upd_shm p (\<lambda>m. m\<lparr>sm_buffer := NULL_ptr\<rparr>) w = w2" using h by (simp add: upd_shm_def w2_def h2_def)
    have zc2: "is_zero_copy (sm_flags (rd_shm w2 p)) = zc" by (simp add: rd_shm_def w2_def h2_def zc_def)
    have c2: "w_ctxs w2 a = Some c" using c by (simp add: w2_def)
    obtain b w3 where bit: "(if zc then (0, w2) else get_shm_bit a w2) = (b, w3)"
      by (cases "if zc then (0, w2) else get_shm_bit a w2")
    have 3: "client_inv w3 held (insert p X)" "fault w3 = fault w" "w_shms w3 = w_shms w2" "w_ctxs w3 a \<noteq> None"
      using get_shm_bit_eff [OF inv2 c2, of b w3] bit inv2 c2 by (auto simp: w2_def split: if_splits)
    define h4 where "h4 = (if zc then h2 else h2\<lparr>sm_offset := word_of_int b\<rparr>)"
    define w4 where "w4 = w3\<lparr>w_shms := (w_shms w3)(p \<mapsto> h4)\<rparr>"
    have h3: "w_shms w3 p = Some h2" using 3(3) by (simp add: w2_def)
    have u4: "(if zc then w3 else upd_shm p (\<lambda>m. m\<lparr>sm_offset := word_of_int b\<rparr>) w3) = w4"
      using h3 by (auto simp: upd_shm_def w4_def h4_def fun_upd_idem)
    have inv4: "client_inv w4 held (insert p X)" unfolding w4_def by (rule pend_upd_inv [OF 3(1)]) simp
    have h4: "w_shms w4 p = Some h4" by (simp add: w4_def)
    have fl4: "is_zero_copy (sm_flags h4) = zc" by (simp add: h4_def h2_def zc_def)
    obtain r5 w5 where buf: "get_shm_buffer a p w4 = (r5, w5)" by (cases "get_shm_buffer a p w4")
    note e5 = get_shm_buffer_eff [OF inv4 h4 p(2) buf]
    have 5: "client_inv w5 held (insert p X)" "fault w5 = fault w" "w_ctxs w5 a \<noteq> None"
      using e5 3 by (auto simp: w4_def)
    show ?thesis
    proof (cases "b < 0 \<or> r5 \<noteq> TEEC_SUCCESS")
      case True
      then have "r \<noteq> TEEC_SUCCESS \<and> (w' = w3 \<or> w' = w5)"
        using run chk r1 e u2 zc2 bit u4 buf bad_results
        by (auto simp: TEEC_AllocateSharedMemoryHidl_def Let_def split: if_splits)
      then show ?thesis using 3 5 by (auto intro: made_fail)
    next
      case False
      then obtain q where q: "w_shms w5 p = Some (h4\<lparr>sm_buffer := q\<rparr>)" "q = MAP_FAILED \<or> good_buf p X w5 (h4\<lparr>sm_buffer := q\<rparr>)"
        using e5 by auto
      have rd5: "sm_buffer (rd_shm w5 p) = q" using q(1) by (simp add: rd_shm_def)
      have zq: "zc \<Longrightarrow> q \<noteq> MAP_FAILED"
      proof -
        assume zc
        then have "AllocateSharedMem p w4 = (TEEC_SUCCESS, w5)"
          using buf fl4 h4 False by (simp add: get_shm_buffer_def rd_shm_def Let_def)
        from zero_copy_buffer_eff [OF inv4 h4 _ this p(2)] fl4 \<open>zc\<close> obtain q' where
          "q' \<noteq> MAP_FAILED" "w_shms w5 p = Some (h4\<lparr>sm_buffer := q'\<rparr>)" by auto
        then have "q = q'" using q(1) by (metis TEEC_SharedMemoryHidl.select_convs(1) TEEC_SharedMemoryHidl.surjective
              TEEC_SharedMemoryHidl.update_convs(1) option.inject)
        then show "q \<noteq> MAP_FAILED" using \<open>q' \<noteq> MAP_FAILED\<close> by simp
      qed
      obtain c5 where c5: "w_ctxs w5 a = Some c5" using 5(3) by auto
      have rel: "client_inv (RelaseBufferAndClearBit a p v) held (insert p X) \<and> fault (RelaseBufferAndClearBit a p v) = fault v"
        if "client_inv v held (insert p X)" "w_shms v p = Some k" "w_ctxs v a = Some d" "\<not> zc \<or> q = MAP_FAILED"
          "sm_buffer k = q" "sm_flags k = sm_flags h4" "sm_size k = sm_size h4"
          "w_blocks v = w_blocks w5" "\<forall>m. m \<noteq> p \<longrightarrow> w_shms v m = w_shms w5 m" for v k d
      proof (rule RelaseBufferAndClearBit_eff [OF that(1-3)])
        show "sm_buffer k = MAP_FAILED \<or> good_buf p X v k \<and> \<not> is_zero_copy (sm_flags k)"
          using q(2) that(4-9) fl4 by (auto simp: good_buf_def owns_def not_owned_def)
      qed
      show ?thesis
      proof (cases "q = MAP_FAILED")
        case True
        then have out: "r = TEEC_ERROR_OUT_OF_MEMORY" "w' = RelaseBufferAndClearBit a p w5"
          using run chk r1 e u2 zc2 bit u4 buf False rd5
          by (auto simp: TEEC_AllocateSharedMemoryHidl_def Let_def split: if_splits)
        show ?thesis using rel [OF 5(1) q(1) c5] True out 5 bad_results by (auto intro: made_fail)
      next
        case nq: False
        define h6 where "h6 = (h4\<lparr>sm_buffer := q\<rparr>)\<lparr>sm_ops_cnt := 1, sm_is_allocated := True, sm_context := a\<rparr>"
        define w6 where "w6 = w5\<lparr>w_shms := (w_shms w5)(p \<mapsto> h6)\<rparr>"
        have u6: "upd_shm p (\<lambda>m. m\<lparr>sm_ops_cnt := 1, sm_is_allocated := True, sm_context := a\<rparr>) w5 = w6"
          using q(1) by (simp add: upd_shm_def w6_def h6_def)
        have inv6: "client_inv w6 held (insert p X)" unfolding w6_def by (rule pend_upd_inv [OF 5(1)]) simp
        have use: "use_ctx a w6 = w6" using c5 by (simp add: use_ctx_def w6_def)
        obtain l w7 where l: "ask w6 = (l, w7)" by (cases "ask w6")
        have s7: "lib_same w6 w7" using lib_same_ask [OF l] .
        have 7: "client_inv w7 held (insert p X)" "fault w7 = fault w" "w_shms w7 p = Some h6"
          "w_ctxs w7 (sm_context h6) = Some c5" "sm_ops_cnt h6 = 1" "sm_context h6 = a"
          using inv6 lib_same_inv [OF s7] s7 5 c5 by (simp_all add: lib_same_def w6_def h6_def)
        show ?thesis
        proof (cases "l = 0")
          case bad: False
          then have out: "r = TEEC_ERROR_GENERIC" "w' = RelaseBufferAndClearBit a p w7"
            using run chk r1 e u2 zc2 bit u4 buf False rd5 nq u6 use l
            by (auto simp: TEEC_AllocateSharedMemoryHidl_def Let_def split: if_splits)
          then have "\<not> zc" using ok by (auto simp: zc_def)
          then show ?thesis
            using rel [OF 7(1,3,4) [unfolded 7(6)]] out 7 s7 bad_results
            by (auto simp: lib_same_def w6_def h6_def intro: made_fail)
        next
          case True
          have own: "real_buf h6 \<Longrightarrow> owns (w_blocks w7) h6 \<and> not_owned (sm_buffer h6) (insert p X) w7"
            using q(2) nq s7 by (auto simp: good_buf_def real_buf_def owns_def not_owned_def lib_same_def w6_def h6_def)
          show ?thesis
            using made_publish [OF 7(1) p(1) 7(3,4,5) own] 7(2,6) True run chk r1 e u2 zc2 bit u4 buf False rd5 nq u6 use l
            by (auto simp: TEEC_AllocateSharedMemoryHidl_def Let_def split: if_splits)
        qed
      qed
    qed
  qed
qed


lemma TEEC_AllocateSharedMemory_safe:
  assumes room: "room held" and run: "TEEC_AllocateSharedMemory ctx m w = (r, w')"
    and ok: "is_zero_copy (as_flags (rd_app_shm w m)) \<longrightarrow> r \<noteq> TEEC_ERROR_GENERIC"
  shows "safe held X w w'"
  unfolding safe_def
proof
  assume inv: "client_inv w held X"
  show "client_inv w' held X \<and> fault w' = fault w"
  proof (cases "ctx = NULL_ptr \<or> m = NULL_ptr")
    case True
    then show ?thesis using run inv by (auto simp: TEEC_AllocateSharedMemory_def)
  next
    case False
    define w1 where "w1 = upd_app_shm m (\<lambda>m. m\<lparr>as_context := ctx\<rparr>) w"
    have s1: "lib_same w w1" by (simp add: w1_def)
    have inv1: "client_inv w1 held X" "fault w1 = fault w" using inv lib_same_inv [OF s1] s1 by (simp_all add: lib_same_def)
    obtain r2 p w2 where al: "MallocShrMemHidl w1 = (r2, p, w2)" by (cases "MallocShrMemHidl w1")
    note eff = MallocShrMemHidl_eff [OF inv1(1) al]
    show ?thesis
    proof (cases "r2 = TEEC_SUCCESS")
      case bad: False
      then have "w' = w2" using run False al by (auto simp: TEEC_AllocateSharedMemory_def w1_def [symmetric])
      then show ?thesis using eff bad inv1 by simp
    next
      case True
      then have p: "p \<notin> X" "p \<noteq> NULL_ptr" "w_shms w2 p = Some nil_shm" and inv2: "client_inv w2 held (insert p X)"
        and f2: "fault w2 = fault w" and ap: "app_shms w2 = app_shms w1" using eff inv1 by auto
      define a where "a = rd_app_shm w2 m"
      have fl: "as_flags a = as_flags (rd_app_shm w m)"
        using ap by (simp add: a_def rd_app_shm_def w1_def upd_app_shm_def app_faulty_def split: option.splits)
      define h where "h = nil_shm\<lparr>sm_size := as_size a, sm_flags := as_flags a\<rparr>"
      define w3 where "w3 = upd_shm p (\<lambda>m. m\<lparr>sm_size := as_size a, sm_flags := as_flags a\<rparr>) w2"
      have inv3: "client_inv w3 held (insert p X)" "fault w3 = fault w2" "w_shms w3 p = Some h"
        unfolding w3_def upd_shm_Some [OF p(3)] using pend_upd_inv [OF inv2] by (simp_all add: h_def)
      obtain b w4 where get: "GetBnContext ctx w3 = (b, w4)" by (cases "GetBnContext ctx w3")
      obtain r5 w5 where alc: "TEEC_AllocateSharedMemoryHidl b p w4 = (r5, w5)" by (cases "TEEC_AllocateSharedMemoryHidl b p w4")
      define w6 where "w6 = upd_app_shm m (\<lambda>m. m\<lparr>as_buffer := sm_buffer (rd_shm w5 p), as_ops_cnt := sm_ops_cnt (rd_shm w5 p),
        as_is_allocated := sm_is_allocated (rd_shm w5 p)\<rparr>) w5"
      have out: "r = r5" "w' = (if r5 = TEEC_SUCCESS then snd (PutBnContext b (PutBnShrMem p w6))
         else free_shm p (snd (PutBnContext b w5)))"
        using run False True al get alc
        by (auto simp: TEEC_AllocateSharedMemory_def Let_def w1_def [symmetric] a_def [symmetric] w3_def [symmetric] w6_def split: if_splits)
      have body: "made p hp X (fault w4) r5 w5"
        if i: "client_inv w4 hp (insert p X)" "b = NULL_ptr \<or> 0 < hp b" and s: "w_shms w4 = w_shms w3" for hp
      proof (rule TEEC_AllocateSharedMemoryHidl_made [OF i(1) p(1,2) i(2) _ _ alc])
        show "w_shms w4 p = Some h" using s inv3(3) by simp
        show "is_zero_copy (sm_flags h) \<longrightarrow> r5 \<noteq> TEEC_ERROR_GENERIC" using ok fl out(1) by (simp add: h_def)
      qed
      have "lib_same w5 w6" by (simp add: w6_def)
      have "client_inv w' held X \<and> fault w' = fault w3"
        by (rule new_shm_call [OF inv3(1) p(1,2) room get _ \<open>lib_same w5 w6\<close> out(2)]) (rule body)
      then show ?thesis unfolding inv3(2) f2 .
    qed
  qed
qed

end
