(* ===== verification/Client_Api.thy ===== *)
theory Client_Api
  imports Client_Shm_Safe
begin

text \<open>
  Properties of the client library as a whole: sequences of calls, the life of a context, retries and
  error codes, and the paths on which zero-copy shared memory is not released as it was allocated.
\<close>

section \<open>Calls and runs\<close>

text \<open>The entry points that use the library's state. \<open>api_result\<close> of a void function is success.\<close>

datatype api_call =
    Initialize ptr
  | Finalize ptr
  | OpenSession u32 ptr ptr "TEEC_UUID option" u32 ptr ptr
  | CloseSession ptr
  | Invoke ptr u32 ptr
  | Cancel ptr u32
  | Register ptr ptr
  | Allocate ptr ptr
  | ReleaseMem ptr
  | SendSecfile "string option" ptr

fun api_step :: "load_env \<Rightarrow> api_call \<Rightarrow> world \<Rightarrow> TEEC_Result \<times> world" where
  "api_step env (Initialize c) w = TEEC_InitializeContext c w"
| "api_step env (Finalize c) w = (TEEC_SUCCESS, TEEC_FinalizeContext c w)"
| "api_step env (OpenSession g c s d m cd p) w =
     (case TEEC_OpenSession env g c s d m cd p w of (r, origin, w') \<Rightarrow> (r, w'))"
| "api_step env (CloseSession s) w = (TEEC_SUCCESS, TEEC_CloseSession s w)"
| "api_step env (Invoke s cmd p) w = (case TEEC_InvokeCommand s cmd p w of (r, origin, w') \<Rightarrow> (r, w'))"
| "api_step env (Cancel p cmd) w = (TEEC_SUCCESS, TEEC_RequestCancellation p cmd w)"
| "api_step env (Register c m) w = TEEC_RegisterSharedMemory c m w"
| "api_step env (Allocate c m) w = TEEC_AllocateSharedMemory c m w"
| "api_step env (ReleaseMem m) w = (TEEC_SUCCESS, TEEC_ReleaseSharedMemory m w)"
| "api_step env (SendSecfile f s) w = TEEC_SendSecfile env f s w"

text \<open>The one outcome that releases memory wrongly: a zero-copy allocation that cannot lock its context.\<close>

definition bad_outcome :: "api_call \<Rightarrow> world \<Rightarrow> TEEC_Result \<Rightarrow> bool" where
  "bad_outcome call w r \<longleftrightarrow>
     (case call of Allocate c m \<Rightarrow> is_zero_copy (as_flags (rd_app_shm w m)) \<and> r = TEEC_ERROR_GENERIC | _ \<Rightarrow> False)"

fun api_run :: "load_env \<Rightarrow> api_call list \<Rightarrow> world \<Rightarrow> bool \<times> world" where
  "api_run env [] w = (True, w)"
| "api_run env (c # cs) w =
     (case api_step env c w of (r, w1) \<Rightarrow>
      case api_run env cs w1 of (good, w2) \<Rightarrow> (\<not> bad_outcome c w r \<and> good, w2))"

lemma api_step_safe:
  assumes room: "room held" and run: "api_step env c w = (r, w')" and ok: "\<not> bad_outcome c w r"
  shows "safe held X w w'"
  using run ok
  by (cases c)
     (auto simp: bad_outcome_def split: prod.splits
       intro: TEEC_InitializeContext_safe TEEC_FinalizeContext_safe TEEC_OpenSession_safe [OF room]
         TEEC_CloseSession_safe [OF room] TEEC_InvokeCommand_safe [OF room] TEEC_RequestCancellation_safe [OF room]
         TEEC_RegisterSharedMemory_safe [OF room] TEEC_AllocateSharedMemory_safe [OF room]
         TEEC_ReleaseSharedMemory_safe [OF room] TEEC_SendSecfile_safe [OF room])

lemma api_run_safe:
  assumes "room held" "api_run env cs w = (True, w')"
  shows "safe held X w w'"
  using assms
proof (induction cs arbitrary: w)
  case (Cons c cs)
  obtain r w1 where s: "api_step env c w = (r, w1)" by (cases "api_step env c w")
  obtain g w2 where t: "api_run env cs w1 = (g, w2)" by (cases "api_run env cs w1")
  have "\<not> bad_outcome c w r" "g" "w2 = w'" using Cons.prems(2) s t by auto
  then show ?case using safe_trans [OF api_step_safe [OF Cons.prems(1) s]] Cons.IH [OF Cons.prems(1)] t by simp
qed simp

lemma empty_client_inv:
  "w_ctxs w = Map.empty \<Longrightarrow> g_teecContextList w = [] \<Longrightarrow> w_shms w = Map.empty \<Longrightarrow> client_inv w (\<lambda>_. 0) {}"
  by (simp add: client_inv_defs)

section \<open>Finalisation when the locks can be taken\<close>

definition quiet :: "world \<Rightarrow> bool" where
  "quiet w \<longleftrightarrow> answers w = (\<lambda>_. 0)"

lemma quiet_ask: "quiet w \<Longrightarrow> ask w = (r, w') \<Longrightarrow> r = 0 \<and> quiet w'"
  by (auto simp: quiet_def ask_def)

lemma quiet_marks [simp]:
  "quiet (use_ctx a w) = quiet w" "quiet (use_sess a w) = quiet w" "quiet (use_shm a w) = quiet w"
  "quiet (use_app_ctx a w) = quiet w" "quiet (use_op a w) = quiet w" "quiet (faulty w) = quiet w"
  "quiet (upd_ctx a f w) = quiet w" "quiet (upd_sess a g w) = quiet w" "quiet (upd_shm a h w) = quiet w"
  "quiet (log_call c w) = quiet w" "quiet (free_sess a w) = quiet w" "quiet (free_shm a w) = quiet w"
  "quiet (free_ctx a w) = quiet w" "quiet (close_fd d w) = quiet w" "quiet (free_block p w) = quiet w"
  by (auto simp: quiet_def use_ctx_def use_sess_def use_shm_def use_app_ctx_def use_op_def faulty_def app_faulty_def
      upd_ctx_def upd_sess_def upd_shm_def log_call_def free_sess_def free_shm_def free_ctx_def close_fd_def
      free_block_def split: option.splits block.splits)

lemma quiet_CloseSessionHidl: "quiet w \<Longrightarrow> quiet (TEEC_CloseSessionHidl s a w)"
  by (auto simp: TEEC_CloseSessionHidl_def TEEC_Encode_def ioctl_cli_def Let_def split: prod.splits if_splits
      dest!: quiet_ask [rotated])

lemma quiet_finalize_sessions: "quiet w \<Longrightarrow> quiet (finalize_sessions ss a w)"
  by (induction ss arbitrary: w)
     (auto simp: Let_def PutBnSession_def quiet_CloseSessionHidl split: prod.splits)

text \<open>Then the context is freed, its descriptor closed and each of its shared memories released.\<close>

lemma TEEC_FinalizeContextHidl_quiet:
  assumes inv: "client_inv w held X" and c: "w_ctxs w a = Some c"
    and free: "a \<notin> set (g_teecContextList w)" "held a = 0" and q: "quiet w"
  shows "w_ctxs (TEEC_FinalizeContextHidl a w) a = None"
proof -
  have a0: "a \<noteq> NULL_ptr" using inv c by (auto simp: client_inv_defs)
  obtain l1 w1 where l1: "ask (use_ctx a w) = (l1, w1)" by (cases "ask (use_ctx a w)")
  have q1: "l1 = 0" "quiet w1" using quiet_ask [OF _ l1] q by simp_all
  define w2 where "w2 = finalize_sessions (session_list (rd_ctx w1 a)) a w1"
  obtain l2 w3 where l2: "ask w2 = (l2, w3)" by (cases "ask w2")
  have "l2 = 0" using quiet_ask [OF quiet_finalize_sessions [OF q1(2)] l2 [unfolded w2_def]] by simp
  then have e: "TEEC_FinalizeContextHidl a w = free_ctx a (upd_ctx a (\<lambda>c. c\<lparr>cx_fd := - 1\<rparr>)
      (close_fd (cx_fd (rd_ctx (finalize_shms (shrd_mem_list (rd_ctx w3 a)) a w3) a))
        (finalize_shms (shrd_mem_list (rd_ctx w3 a)) a w3)))"
    using a0 l1 q1 l2 by (simp add: TEEC_FinalizeContextHidl_def Let_def w2_def [symmetric])
  have "w_ctxs (free_ctx a v) a = None" for v by (simp add: free_ctx_def faulty_def log_call_def)
  then show ?thesis unfolding e .
qed


lemma quiet_clear_shm_bit: "quiet w \<Longrightarrow> quiet (clear_shm_bit a off w)"
  by (auto simp: clear_shm_bit_def split: prod.splits dest: quiet_ask)

lemma quiet_munmap: "quiet w \<Longrightarrow> quiet (snd (munmap_block p sz w))"
  by (auto simp: munmap_block_def quiet_def ask_def log_call_def faulty_def split: prod.splits option.splits block.splits)

lemma quiet_PutBnShrMem: "quiet w \<Longrightarrow> quiet (PutBnShrMem m w)"
  by (auto simp: PutBnShrMem_def ReleaseSharedMemory_def Let_def quiet_clear_shm_bit quiet_munmap split: prod.splits)

lemma quiet_finalize_shms: "quiet w \<Longrightarrow> quiet (finalize_shms ms a w)"
  by (induction ms arbitrary: w) (simp_all add: Let_def quiet_PutBnShrMem)

lemma quiet_FinalizeContextHidl: "quiet w \<Longrightarrow> quiet (TEEC_FinalizeContextHidl a w)"
  by (auto simp: TEEC_FinalizeContextHidl_def Let_def quiet_finalize_sessions quiet_finalize_shms split: prod.splits
      dest!: quiet_ask [rotated])

lemma quiet_PutBnContext: "quiet w \<Longrightarrow> quiet (snd (PutBnContext a w))"
  by (auto simp: PutBnContext_def Let_def quiet_FinalizeContextHidl split: prod.splits)

section \<open>Contexts as counted objects\<close>

text \<open>
  A context that has been taken off the list lives on the references of the calls that use it: \<open>ctx_get\<close>
  is the increment of \<^const>\<open>GetBnContext\<close>, \<open>ctx_put\<close> is \<^const>\<open>PutBnContext\<close>. Both are undefined when they touch
  freed memory.
\<close>

definition ctx_cnt :: "world \<Rightarrow> ptr \<Rightarrow> nat option" where
  "ctx_cnt w a = map_option (\<lambda>c. unat (cx_ops_cnt c)) (w_ctxs w a)"

definition ctx_get :: "ptr \<Rightarrow> world \<Rightarrow> world option" where
  "ctx_get a w = (let w' = upd_ctx a (\<lambda>c. c\<lparr>cx_ops_cnt := AtomInc (cx_ops_cnt c)\<rparr>) w in if fault w' then None else Some w')"

definition ctx_put :: "ptr \<Rightarrow> world \<Rightarrow> world option" where
  "ctx_put a w = (let w' = snd (PutBnContext a w) in if fault w' then None else Some w')"

definition refs_out :: "world \<Rightarrow> ptr \<Rightarrow> nat" where
  "refs_out w a = (case ctx_cnt w a of None \<Rightarrow> 0 | Some n \<Rightarrow> n)"

definition unlisted_inv :: "world \<Rightarrow> bool" where
  "unlisted_inv w \<longleftrightarrow> quiet w \<and> \<not> fault w \<and> g_teecContextList w = [] \<and> client_inv w (refs_out w) {}"

interpretation ctx_refs: refcounted ctx_cnt ctx_get ctx_put "2 ^ 32" unlisted_inv
proof (unfold_locales, goal_cases)
  case (1 w a n)
  then obtain c where c: "w_ctxs w a = Some c" "unat (cx_ops_cnt c) = n" by (auto simp: ctx_cnt_def)
  define c' where "c' = c\<lparr>cx_ops_cnt := AtomInc (cx_ops_cnt c)\<rparr>"
  define w' where "w' = w\<lparr>w_ctxs := (w_ctxs w)(a \<mapsto> c')\<rparr>"
  have inv: "client_inv w (refs_out w) {}" "g_teecContextList w = []" using 1 by (simp_all add: unlisted_inv_def)
  have ok: "length (shm_bitmap c) = 8" using inv c by (auto simp: client_inv_defs)
  have n': "unat (cx_ops_cnt c') = Suc n" using AtomInc_unat 1(4) c(2) by (simp add: c'_def)
  have cnt: "ctx_cnt w' = (ctx_cnt w)(a := Some (Suc n))" using n' by (simp add: ctx_cnt_def w'_def fun_eq_iff)
  have "client_inv w' ((refs_out w)(a := Suc n)) {}"
    unfolding w'_def by (rule client_inv_ctx [OF inv(1) c(1)]) (use ok n' inv(2) in \<open>simp_all add: c'_def\<close>)
  moreover have "(refs_out w)(a := Suc n) = refs_out w'" using cnt by (simp add: refs_out_def fun_eq_iff)
  ultimately have "unlisted_inv w'" using 1(1) by (simp add: unlisted_inv_def w'_def quiet_def)
  moreover have "ctx_get a w = Some w'" using c 1(1) by (simp add: ctx_get_def upd_ctx_def w'_def c'_def unlisted_inv_def)
  ultimately show ?case using cnt by blast
next
  case (2 w a n)
  then obtain c where c: "w_ctxs w a = Some c" "unat (cx_ops_cnt c) = Suc n" by (auto simp: ctx_cnt_def)
  define w' where "w' = snd (PutBnContext a w)"
  have inv: "client_inv w (refs_out w) {}" "g_teecContextList w = []" "quiet w" "\<not> fault w"
    using 2 by (simp_all add: unlisted_inv_def)
  have ro: "refs_out w a = Suc n" using 2(2) by (simp add: refs_out_def)
  note e = PutBnContext_eff [OF inv(1) ro, folded w'_def]
  have cnt: "ctx_cnt w' = (ctx_cnt w)(a := if n = 0 then None else Some n)"
  proof
    fix b show "ctx_cnt w' b = ((ctx_cnt w)(a := if n = 0 then None else Some n)) b"
    proof (cases "b = a")
      case False
      then show ?thesis using e by (simp add: ctx_cnt_def)
    next
      case True
      show ?thesis
      proof (cases "n = 0")
        case False
        then obtain d where "w_ctxs w' a = Some (d\<lparr>cx_ops_cnt := cx_ops_cnt d - 1\<rparr>)" "w_ctxs w a = Some d" using e by blast
        then show ?thesis using True False c AtomDec_unat(2) [of "cx_ops_cnt c"] by (simp add: ctx_cnt_def)
      next
        case n0: True
        define c1 where "c1 = c\<lparr>cx_ops_cnt := cx_ops_cnt c - 1\<rparr>"
        define w1 where "w1 = w\<lparr>w_ctxs := (w_ctxs w)(a \<mapsto> c1)\<rparr>"
        have a0: "a \<noteq> NULL_ptr" using held_not_null [OF inv(1)] ro by simp
        have dec: "AtomDecAndCompareWithZero (cx_ops_cnt c) = (True, cx_ops_cnt c - 1)" "unat (cx_ops_cnt c - 1) = 0"
          using AtomDec_unat [of "cx_ops_cnt c"] c(2) n0 by simp_all
        have w': "w' = TEEC_FinalizeContextHidl a w1"
          using a0 c dec by (simp add: w'_def PutBnContext_def Let_def rd_ctx_def upd_ctx_def w1_def c1_def)
        have "length (shm_bitmap c) = 8" using inv c by (auto simp: client_inv_defs)
        then have inv1: "client_inv w1 ((refs_out w)(a := 0)) {}"
          unfolding w1_def by (intro client_inv_ctx [OF inv(1) c(1)]) (use dec inv(2) in \<open>simp_all add: c1_def\<close>)
        have "w_ctxs w' a = None"
          unfolding w'
          by (rule TEEC_FinalizeContextHidl_quiet [OF inv1]) (use inv in \<open>simp_all add: w1_def quiet_def\<close>)
        then show ?thesis using True n0 by (simp add: ctx_cnt_def)
      qed
    qed
  qed
  have "(refs_out w)(a := n) = refs_out w'" using cnt by (auto simp: refs_out_def fun_eq_iff)
  then have "unlisted_inv w'" using e inv quiet_PutBnContext [OF inv(3)] by (simp add: unlisted_inv_def w'_def)
  then show ?case using cnt e inv by (intro exI [of _ w']) (simp add: ctx_put_def w'_def)
qed


section \<open>Finding and finalising a context\<close>

lemma find_listed:
  assumes inv: "client_inv w held X" and a: "a \<in> set (g_teecContextList w)" "w_ctxs w a = Some c"
    and app: "cx_fd c = ac_fd (rd_app_ctx w ctx)" "ctx \<noteq> NULL_ptr"
  shows "\<exists>w'. FindBnContext ctx w = (a, w') \<and> core w' = core w"
proof -
  define w1 where "w1 = use_app_ctx ctx w"
  have s: "lib_same w w1" and k: "core w1 = core w" by (simp_all add: w1_def)
  have rd: "rd_app_ctx w1 ctx = rd_app_ctx w ctx" unfolding w1_def by (rule rd_same) simp
  obtain b w' where f: "find_ctx (g_teecContextList w1) (ac_fd (rd_app_ctx w1 ctx)) w1 = (b, w')"
    by (cases "find_ctx (g_teecContextList w1) (ac_fd (rd_app_ctx w1 ctx)) w1")
  have al: "\<forall>x \<in> set (g_teecContextList w1). w_ctxs w1 x \<noteq> None" "NULL_ptr \<notin> set (g_teecContextList w1)"
    using inv s by (auto simp: lib_same_def client_inv_defs)
  note e = find_ctx_spec [OF f al]
  have c1: "a \<in> set (g_teecContextList w1)" "rd_ctx w1 a = c" using a s by (simp_all add: lib_same_def rd_ctx_def)
  have b: "b \<noteq> NULL_ptr"
  proof
    assume "b = NULL_ptr"
    then have "cx_fd (rd_ctx w1 a) \<noteq> ac_fd (rd_app_ctx w1 ctx)" using e c1(1) by blast
    then show False using c1(2) app(1) rd by simp
  qed
  then obtain d where d: "w_ctxs w b = Some d" "cx_fd d = cx_fd c"
    using e al s app(1) rd by (auto simp: lib_same_def rd_ctx_def)
  have "b = a" using inv d a(2) unfolding client_inv_def inv_fds_def by metis
  moreover have "g_teecContextList w \<noteq> []" using a by auto
  ultimately show ?thesis using f e app(2) k by (auto simp: FindBnContext_def Let_def w1_def [symmetric])
qed

text \<open>Removing a listed context from the list turns the reference of the list into one of the caller.\<close>

lemma unlist_inv:
  assumes inv: "client_inv w held X" and b: "b \<in> set (g_teecContextList w)"
  shows "client_inv (w\<lparr>g_teecContextList := remove1 b (g_teecContextList w)\<rparr>) (held(b := Suc (held b))) X"
proof -
  let ?w = "w\<lparr>g_teecContextList := remove1 b (g_teecContextList w)\<rparr>"
  have d: "distinct (g_teecContextList w)" using inv by (simp add: client_inv_defs)
  have other: "x \<in> set (remove1 b (g_teecContextList w)) \<longleftrightarrow> x \<in> set (g_teecContextList w) \<and> x \<noteq> b" for x
    using d by (auto simp: set_remove1_eq)
  have "ctx_ok ?w (held(b := Suc (held b))) X a c" if c: "w_ctxs w a = Some c" for a c
  proof -
    have "ctx_ok w held X a c" using inv c by (simp add: client_inv_def inv_ctxs_def)
    then show ?thesis using b other by (auto simp: ctx_ok_def)
  qed
  moreover have "w_ctxs w b \<noteq> None" using inv b by (auto simp: client_inv_defs)
  ultimately have "inv_ctxs ?w (held(b := Suc (held b))) X"
    using inv d other by (auto simp: client_inv_def inv_ctxs_def)
  then show ?thesis using inv by (simp add: client_inv_def inv_fds_def inv_shms_def inv_bufs_def shm_ok_def)
qed

lemma core_fields:
  assumes "core w' = core w"
  shows "w_ctxs w' = w_ctxs w" "w_shms w' = w_shms w" "w_blocks w' = w_blocks w" "open_fds w' = open_fds w"
    "g_teecContextList w' = g_teecContextList w" "app_ctxs w' = app_ctxs w" "answers w' = answers w"
  using arg_cong [OF assms, of w_ctxs] arg_cong [OF assms, of w_shms] arg_cong [OF assms, of w_blocks]
    arg_cong [OF assms, of open_fds] arg_cong [OF assms, of g_teecContextList] arg_cong [OF assms, of app_ctxs]
    arg_cong [OF assms, of answers] by (simp_all add: core_def)

lemma TEEC_FinalizeContext_quiet:
  assumes inv: "client_inv w held {}" and a: "a \<in> set (g_teecContextList w)" "w_ctxs w a = Some c" "held a = 0"
    and app: "cx_fd c = ac_fd (rd_app_ctx w ctx)" "ctx \<noteq> NULL_ptr" and q: "quiet w"
  defines "w' \<equiv> TEEC_FinalizeContext ctx w"
  shows "w_ctxs w' = (w_ctxs w)(a := None) \<and> g_teecContextList w' = remove1 a (g_teecContextList w) \<and>
    open_fds w' = (open_fds w)(cx_fd c := False) \<and>
    w_shms w' = (\<lambda>m. if m \<in> set (shrd_mem_list c) then None else w_shms w m) \<and>
    w_blocks w' = (\<lambda>p. if p \<in> buffers w (shrd_mem_list c) then None else w_blocks w p)"
proof -
  obtain l w1 where l: "ask w = (l, w1)" by (cases "ask w")
  have l0: "l = 0" "quiet w1" using quiet_ask [OF q l] by simp_all
  have s1: "lib_same w w1" "core w1 = core w" using lib_same_ask [OF l] core_ask [OF l] by simp_all
  have inv1: "client_inv w1 held {}" using inv lib_same_inv [OF s1(1)] by simp
  have "a \<in> set (g_teecContextList w1)" "w_ctxs w1 a = Some c" "cx_fd c = ac_fd (rd_app_ctx w1 ctx)"
    using a app s1(1) rd_same [OF s1(2)] by (simp_all add: lib_same_def)
  from find_listed [OF inv1 this app(2)] obtain w2 where f: "FindBnContext ctx w1 = (a, w2)" and k: "core w2 = core w1" by blast
  have inv2: "client_inv w2 held {}"
    using FindBnContext_spec [OF inv1 f] lib_same_inv inv1 by blast
  define v where "v = w2\<lparr>g_teecContextList := remove1 a (g_teecContextList w2)\<rparr>"
  note f2 = core_fields [OF k] core_fields [OF s1(2)]
  have inv3: "client_inv v (held(a := Suc (held a))) {}"
    unfolding v_def by (rule unlist_inv [OF inv2]) (use a f2 in simp)
  have a0: "a \<noteq> NULL_ptr" using inv a(2) by (auto simp: client_inv_defs)
  have nl: "a \<notin> set (g_teecContextList v)" using inv2 by (simp add: v_def client_inv_defs)
  have cv: "w_ctxs v a = Some c" using a f2 by (simp add: v_def)
  have one: "unat (cx_ops_cnt c) = 1" "length (shm_bitmap c) = 8"
    using inv a by (auto simp: client_inv_defs)
  then have dec: "AtomDecAndCompareWithZero (cx_ops_cnt c) = (True, cx_ops_cnt c - 1)" "unat (cx_ops_cnt c - 1) = 0"
    using AtomDec_unat [of "cx_ops_cnt c"] by simp_all
  define c1 where "c1 = c\<lparr>cx_ops_cnt := cx_ops_cnt c - 1\<rparr>"
  define v1 where "v1 = v\<lparr>w_ctxs := (w_ctxs v)(a \<mapsto> c1)\<rparr>"
  have put: "PutBnContext a v = (True, TEEC_FinalizeContextHidl a v1)"
    using a0 cv dec by (simp add: PutBnContext_def Let_def rd_ctx_def upd_ctx_def v1_def c1_def)
  have "client_inv v1 ((held(a := Suc (held a)))(a := 0)) {}"
    unfolding v1_def by (rule client_inv_ctx [OF inv3 cv]) (use dec one nl in \<open>simp_all add: c1_def\<close>)
  moreover have "(held(a := Suc (held a)))(a := 0) = held" using a(3) by auto
  ultimately have inv4: "client_inv v1 held {}" by simp
  have qv: "quiet v1" using q f2 by (simp add: quiet_def v1_def v_def)
  have c4: "w_ctxs v1 a = Some c1" by (simp add: v1_def)
  have nl1: "a \<notin> set (g_teecContextList v1)" using nl by (simp add: v1_def)
  define x where "x = TEEC_FinalizeContextHidl a v1"
  note e = TEEC_FinalizeContextHidl_eff [OF inv4 c4 nl1 a(3), folded x_def]
    TEEC_FinalizeContextHidl_quiet [OF inv4 c4 nl1 a(3) qv, folded x_def]
  have same: "lib_same x w'"
    using l l0 f a0 app(2) put
    by (simp add: w'_def TEEC_FinalizeContext_def FindAndRemoveBnContext_def MutexLockContext_def v_def [symmetric] x_def)
  have v1: "w_shms v1 = w_shms w" "w_blocks v1 = w_blocks w" "open_fds v1 = open_fds w"
    "g_teecContextList v1 = remove1 a (g_teecContextList w)" "b \<noteq> a \<Longrightarrow> w_ctxs v1 b = w_ctxs w b" for b
    using f2 by (simp_all add: v1_def v_def)
  have "w_ctxs x b = ((w_ctxs w)(a := None)) b" for b using e v1(5) by (cases "b = a") auto
  then have ctxs: "w_ctxs x = (w_ctxs w)(a := None)" by (rule ext)
  have buf: "buffers v1 = buffers w" using v1(1) by (simp add: buffers_def fun_eq_iff)
  have "open_fds x = (open_fds w)(cx_fd c := False)" "g_teecContextList x = remove1 a (g_teecContextList w)"
    "w_shms x = (\<lambda>m. if m \<in> set (shrd_mem_list c) then None else w_shms w m)"
    "w_blocks x = (\<lambda>p. if p \<in> buffers w (shrd_mem_list c) then None else w_blocks w p)"
    using e v1(1-4) buf by (auto simp: c1_def)
  then show ?thesis using same ctxs by (simp add: lib_same_def)
qed

end
