(* ===== verification/Client_Props.thy ===== *)
theory Client_Props
  imports Client_Api
begin

text \<open>The properties of the client library, over the lemmas of \<open>Client_Api\<close> and the theories below it.\<close>

section \<open>Examples\<close>

definition ex_answers :: "int list \<Rightarrow> nat \<Rightarrow> int" where
  "ex_answers xs n = (if n < length xs then xs ! n else 0)"

definition ex_shared :: TEEC_SharedMemory where
  "ex_shared = \<lparr>as_buffer = 0, as_size = 64, as_flags = TEEC_MEM_SHARED_INOUT, as_ops_cnt = 0,
     as_is_allocated = False, as_context = 0\<rparr>"

text \<open>A program that has one context object and one memory object and has not called the library yet.\<close>

definition ex_start :: "int list \<Rightarrow> world" where
  "ex_start xs = \<lparr>w_ctxs = Map.empty, g_teecContextList = [], w_sessions = [0x300 \<mapsto> nil_session],
     w_shms = Map.empty, app_ctxs = [0x100 \<mapsto> \<lparr>ac_fd = - 1, ta_path = None\<rparr>], app_shms = [0x200 \<mapsto> ex_shared],
     app_ops = Map.empty, w_blocks = Map.empty, open_fds = (\<lambda>_. False), answers = ex_answers xs, tick = 0,
     calls = [], fault = False, app_fault = False\<rparr>"

text \<open>The same program with an open context that holds one driver-mapped memory at offset 0.\<close>

definition ex_mapped :: TEEC_SharedMemoryHidl where
  "ex_mapped = \<lparr>sm_buffer = 0x7000, sm_size = 64, sm_flags = TEEC_MEM_INOUT, sm_ops_cnt = 1,
     sm_is_allocated = True, sm_context = 0x1000, sm_offset = 0\<rparr>"

definition ex_ctx :: TEEC_ContextHidl where
  "ex_ctx = (fresh_ctx 5 False 1)\<lparr>shrd_mem_list := [0x2000], shm_bitmap := [1, 0, 0, 0, 0, 0, 0, 0]\<rparr>"

definition ex_client :: "int list \<Rightarrow> world" where
  "ex_client xs = (ex_start xs)\<lparr>w_ctxs := [0x1000 \<mapsto> ex_ctx], g_teecContextList := [0x1000],
     w_shms := [0x2000 \<mapsto> ex_mapped], app_ctxs := [0x100 \<mapsto> \<lparr>ac_fd = 5, ta_path = None\<rparr>],
     w_blocks := [0x7000 \<mapsto> Mapped 5 64 0], open_fds := (\<lambda>d. d = 5)\<rparr>"

lemma ex_real: "real_buf ex_mapped"
  by (simp add: real_buf_def ex_mapped_def ZERO_SIZE_PTR_def)

lemma ex_client_inv: "client_inv (ex_client xs) (\<lambda>_. 0) {}"
proof -
  have "\<not> is_zero_copy TEEC_MEM_INOUT"
    by (simp add: is_zero_copy_def TEEC_MEM_INOUT_def TEEC_MEM_SHARED_INOUT_def TEEC_MEM_REGISTER_INOUT_def)
  then show ?thesis
    by (auto simp: client_inv_defs ex_client_def ex_start_def ex_ctx_def fresh_ctx_def ex_mapped_def owns_def
        split: if_splits)
qed

lemma ex_client_quiet: "quiet (ex_client [])"
  by (simp add: quiet_def ex_client_def ex_start_def ex_answers_def fun_eq_iff)


section \<open>Invariant and memory safety\<close>





section \<open>The life of a context\<close>

text \<open>
  C10. Initialisation is all or nothing. When it fails, the library's contexts, descriptors and memory are
  as before; when it succeeds, exactly one context has been added to the list, counted once, with an empty
  bitmap and a descriptor that was not open before, and the application's context names that descriptor.
\<close>

theorem TEEC_InitializeContext_all_or_nothing:
  assumes run: "TEEC_InitializeContext ctx w = (r, w')"
  shows "r \<noteq> TEEC_SUCCESS \<and> w_ctxs w' = w_ctxs w \<and> g_teecContextList w' = g_teecContextList w \<and>
      open_fds w' = open_fds w \<and> w_blocks w' = w_blocks w \<and> fault w' = fault w \<or>
    r = TEEC_SUCCESS \<and> (\<exists>p fd. p \<noteq> NULL_ptr \<and> w_ctxs w p = None \<and> 0 \<le> fd \<and> \<not> open_fds w fd \<and>
       w_ctxs w' = (w_ctxs w)(p \<mapsto> fresh_ctx fd False 1) \<and> g_teecContextList w' = g_teecContextList w @ [p] \<and>
       open_fds w' = (open_fds w)(fd := True) \<and> w_blocks w' = w_blocks w \<and> fault w' = fault w \<and>
       app_ctxs w' = (app_ctxs w)(ctx := map_option (\<lambda>_. \<lparr>ac_fd = fd, ta_path = None\<rparr>) (app_ctxs w ctx)))"
proof -
  have upd: "(if app_ctxs w ctx = None then None else Some x) = map_option (\<lambda>_. x) (app_ctxs w ctx)" for x
    by (cases "app_ctxs w ctx") simp_all
  show ?thesis
    using TEEC_InitializeContext_eff [OF run]
    by (elim disjE conjE exE) (auto simp: lib_same_def with_ctx_def fresh_ctx_def upd)
qed

theorem TEEC_InitializeContext_all_or_nothing_witness:
  "fst (TEEC_InitializeContext 0x100 (ex_start [0x1000, 0, 0, 5])) = TEEC_SUCCESS \<and>
   \<not> fault (snd (TEEC_InitializeContext 0x100 (ex_start [0x1000, 0, 0, 5])))"
proof -
  have "fst (TEEC_InitializeContext 0x100 (ex_start [0x1000, 0, 0, 5])) = TEEC_SUCCESS" by code_simp
  moreover have "\<not> fault (ex_start [0x1000, 0, 0, 5])" by (simp add: ex_start_def)
  ultimately show ?thesis
    using TEEC_InitializeContext_all_or_nothing [of "0x100" "ex_start [0x1000, 0, 0, 5]", OF surjective_pairing] by auto
qed

text \<open>
  C9. Finalising a context that no call is using releases everything it had: the context itself, its
  descriptor, each of its shared memories and their buffers. The locks must be obtained (\<open>quiet\<close>).
\<close>

theorem TEEC_FinalizeContext_releases_everything:
  assumes "client_inv w held {}" "a \<in> set (g_teecContextList w)" "w_ctxs w a = Some c" "held a = 0"
    "cx_fd c = ac_fd (rd_app_ctx w ctx)" "ctx \<noteq> NULL_ptr" "quiet w" "w' = TEEC_FinalizeContext ctx w"
  shows "w_ctxs w' = (w_ctxs w)(a := None) \<and> g_teecContextList w' = remove1 a (g_teecContextList w) \<and>
    open_fds w' = (open_fds w)(cx_fd c := False) \<and>
    w_shms w' = (\<lambda>m. if m \<in> set (shrd_mem_list c) then None else w_shms w m) \<and>
    w_blocks w' = (\<lambda>p. if p \<in> buffers w (shrd_mem_list c) then None else w_blocks w p)"
  unfolding assms(8) by (rule TEEC_FinalizeContext_quiet [OF assms(1-7)])

theorem TEEC_FinalizeContext_releases_everything_witness:
  "w_ctxs (TEEC_FinalizeContext 0x100 (ex_client [])) 0x1000 = None \<and>
   w_blocks (TEEC_FinalizeContext 0x100 (ex_client [])) 0x7000 = None"
proof -
  have c: "w_ctxs (ex_client []) 0x1000 = Some ex_ctx" "0x1000 \<in> set (g_teecContextList (ex_client []))"
    "cx_fd ex_ctx = ac_fd (rd_app_ctx (ex_client []) 0x100)"
    by (simp_all add: ex_client_def rd_app_ctx_def ex_ctx_def fresh_ctx_def)
  have b: "0x7000 \<in> buffers (ex_client []) (shrd_mem_list ex_ctx)"
    using ex_real by (simp add: buffers_def ex_client_def ex_ctx_def) (simp add: ex_mapped_def)
  show ?thesis
    using TEEC_FinalizeContext_releases_everything [OF ex_client_inv c(2,1) _ c(3) _ ex_client_quiet refl] b by simp
qed











section \<open>Retries and return codes\<close>

text \<open>The requests of one turn.\<close>

lemma ioctl_cli_calls: "ioctl_cli fd req cli w = (r, cli', w') \<Longrightarrow> calls w' = calls w @ [Ioctl fd req cli]"
  by (auto simp: ioctl_cli_def ask_def log_call_def split: prod.splits)

lemma open_retry_calls:
  "open_retry i fd cli w = (r, cli', w') \<Longrightarrow>
     \<exists>reqs. calls w' = calls w @ map (Ioctl fd SES_OPEN_REQ) reqs \<and> 0 < length reqs \<and> length reqs \<le> Suc i \<and>
       (length reqs = Suc i \<or> returns_code cli' \<noteq> TEE_ERROR_CA_AUTH_FAIL)"
proof (induction i arbitrary: cli w)
  case 0
  then show ?case
    by (auto split: prod.splits if_splits dest!: ioctl_cli_calls intro!: exI [of _ "[_]"])
next
  case (Suc i)
  define req where "req = cli\<lparr>returns_code := 0, returns_origin := TEEC_ORIGIN_API\<rparr>"
  obtain r1 cli1 w1 where io: "ioctl_cli fd SES_OPEN_REQ req w = (r1, cli1, w1)" by (cases "ioctl_cli fd SES_OPEN_REQ req w")
  show ?case
  proof (cases "returns_code cli1 = TEE_ERROR_CA_AUTH_FAIL")
    case False
    then show ?thesis using Suc.prems io ioctl_cli_calls [OF io]
      by (intro exI [of _ "[req]"]) (simp add: req_def)
  next
    case True
    then have "open_retry i fd cli1 w1 = (r, cli', w')" using Suc.prems io by (simp add: req_def)
    from Suc.IH [OF this] obtain reqs where "calls w' = calls w1 @ map (Ioctl fd SES_OPEN_REQ) reqs" "0 < length reqs"
      "length reqs \<le> Suc i" "length reqs = Suc i \<or> returns_code cli' \<noteq> TEE_ERROR_CA_AUTH_FAIL" by blast
    then show ?thesis using ioctl_cli_calls [OF io] by (intro exI [of _ "req # reqs"]) simp
  qed
qed

lemma AddSessionList_calls: "AddSessionList i d a s w = (r, w') \<Longrightarrow> calls w' = calls w"
  by (auto simp: AddSessionList_def Let_def ask_def use_ctx_def upd_ctx_def upd_sess_def faulty_def app_faulty_def
      split: if_splits option.splits)

text \<open>
  C18. Opening a session asks the driver at least once and at most 31 times, always to open a session; it
  stops earlier only with a return code other than the one that asks for a retry.
\<close>

theorem TEEC_DoOpenSession_bounded_retries:
  assumes run: "TEEC_DoOpenSession fd cli d a s w = (r, cli', w')"
  shows "\<exists>reqs. calls w' = calls w @ map (Ioctl fd SES_OPEN_REQ) reqs \<and> 0 < length reqs \<and> length reqs \<le> 31 \<and>
    (length reqs = 31 \<or> returns_code cli' \<noteq> TEE_ERROR_CA_AUTH_FAIL)"
proof -
  obtain r1 cli1 w1 where o: "open_retry CA_AUTH_RETRY_TIMES fd cli w = (r1, cli1, w1)"
    by (cases "open_retry CA_AUTH_RETRY_TIMES fd cli w")
  obtain r2 w2 where ad: "AddSessionList (cc_session_id cli1) d a s w1 = (r2, w2)"
    by (cases "AddSessionList (cc_session_id cli1) d a s w1")
  have "calls w' = calls w1 \<and> returns_code cli' = returns_code cli1"
    using run o ad AddSessionList_calls [OF ad]
    by (auto simp: TEEC_DoOpenSession_def simp del: open_retry.simps split: if_splits)
  then show ?thesis using open_retry_calls [OF o] by (simp add: CA_AUTH_RETRY_TIMES_def)
qed

theorem TEEC_DoOpenSession_bounded_retries_witness:
  "\<exists>reqs. calls (snd (snd (TEEC_DoOpenSession 5 zero_cli zero_uuid 0x1000 0x300 (ex_client [])))) =
     map (Ioctl 5 SES_OPEN_REQ) reqs \<and> length reqs \<le> 31"
  using TEEC_DoOpenSession_bounded_retries [of 5 zero_cli zero_uuid "0x1000" "0x300" "ex_client []"
      "fst (TEEC_DoOpenSession 5 zero_cli zero_uuid 0x1000 0x300 (ex_client []))"
      "fst (snd (TEEC_DoOpenSession 5 zero_cli zero_uuid 0x1000 0x300 (ex_client [])))"
      "snd (snd (TEEC_DoOpenSession 5 zero_cli zero_uuid 0x1000 0x300 (ex_client [])))"]
  by (auto simp: ex_client_def ex_start_def)

text \<open>
  C17. A session that is opened successfully is the last one in the list of its context, once, with the
  identifier the driver answered and two references: one of the list, one of the caller.
\<close>

theorem TEEC_DoOpenSession_adds_session:
  assumes run: "TEEC_DoOpenSession fd cli d a s w = (TEEC_SUCCESS, cli', w')"
    and c: "w_ctxs w a = Some c" "w_sessions w s = Some x"
  shows "w_sessions w' s = Some (x\<lparr>session_id := cc_session_id cli', service_id := d, ss_ops_cnt := 2\<rparr>) \<and>
    w_ctxs w' a = Some (c\<lparr>session_list := filter (\<lambda>t. t \<noteq> s) (session_list c) @ [s]\<rparr>)"
proof -
  obtain r1 cli1 w1 where o: "open_retry CA_AUTH_RETRY_TIMES fd cli w = (r1, cli1, w1)"
    by (cases "open_retry CA_AUTH_RETRY_TIMES fd cli w")
  have s1: "w_ctxs w1 a = Some c" using lib_same_open_retry [OF o] c by (simp add: lib_same_def)
  have "w_sessions v' = w_sessions v" if "open_retry i fd cli v = (q, k, v')" for i cli v q k v'
    using that
  proof (induction i arbitrary: cli v)
    case 0
    then show ?case by (auto simp: ioctl_cli_def ask_def log_call_def split: prod.splits if_splits)
  next
    case (Suc i)
    obtain r2 k2 v2 where io: "ioctl_cli fd SES_OPEN_REQ (cli\<lparr>returns_code := 0, returns_origin := TEEC_ORIGIN_API\<rparr>) v = (r2, k2, v2)"
      by (cases "ioctl_cli fd SES_OPEN_REQ (cli\<lparr>returns_code := 0, returns_origin := TEEC_ORIGIN_API\<rparr>) v")
    have "w_sessions v2 = w_sessions v" using io by (auto simp: ioctl_cli_def ask_def log_call_def split: prod.splits)
    then show ?case using Suc io by (auto split: if_splits)
  qed
  then have x1: "w_sessions w1 s = Some x" using o c by metis
  have ne: "TEEC_ERROR_ACCESS_DENIED \<noteq> TEEC_SUCCESS" "TEEC_ERROR_OUT_OF_MEMORY \<noteq> TEEC_SUCCESS"
    by (simp_all add: TEEC_ERROR_ACCESS_DENIED_def TEEC_ERROR_OUT_OF_MEMORY_def TEEC_SUCCESS_def)
  have r1: "\<not> r1 < 0 \<and> \<not> 0 < r1"
    using run o ne bad_results
    by (auto simp: TEEC_DoOpenSession_def TranslateRetValue_def TEEC_SUCCESS_def simp del: open_retry.simps split: if_splits prod.splits)
  then have ad: "AddSessionList (cc_session_id cli1) d a s w1 = (TEEC_SUCCESS, w')" "cli' = cli1"
    using run o by (auto simp: TEEC_DoOpenSession_def simp del: open_retry.simps split: prod.splits)
  obtain l v where l: "ask (w1\<lparr>w_sessions := (w_sessions w1)(s \<mapsto> x\<lparr>session_id := cc_session_id cli1, service_id := d, ss_ops_cnt := 1\<rparr>)\<rparr>) = (l, v)"
    by (cases "ask (w1\<lparr>w_sessions := (w_sessions w1)(s \<mapsto> x\<lparr>session_id := cc_session_id cli1, service_id := d, ss_ops_cnt := 1\<rparr>)\<rparr>)")
  then have v: "w_ctxs v = w_ctxs w1" "w_sessions v = (w_sessions w1)(s \<mapsto> x\<lparr>session_id := cc_session_id cli1, service_id := d, ss_ops_cnt := 1\<rparr>)"
    by (auto simp: ask_def)
  show ?thesis
    using ad l v s1 x1 bad_results
    by (auto simp: AddSessionList_def Let_def upd_sess_def use_ctx_def upd_ctx_def AtomInc_def split: if_splits)
qed


theorem TEEC_DoOpenSession_adds_session_witness:
  "\<exists>c. w_ctxs (snd (snd (TEEC_DoOpenSession 5 zero_cli zero_uuid 0x1000 0x300 (ex_client [0, 0, 0, 9])))) 0x1000 = Some c \<and>
     session_list c = [0x300]"
proof -
  define out where "out = TEEC_DoOpenSession 5 zero_cli zero_uuid 0x1000 0x300 (ex_client [0, 0, 0, 9])"
  have "fst out = TEEC_SUCCESS" unfolding out_def by code_simp
  then have run: "TEEC_DoOpenSession 5 zero_cli zero_uuid 0x1000 0x300 (ex_client [0, 0, 0, 9]) =
      (TEEC_SUCCESS, fst (snd out), snd (snd out))" unfolding out_def by (metis prod.collapse)
  have "w_ctxs (ex_client [0, 0, 0, 9]) 0x1000 = Some ex_ctx" "w_sessions (ex_client [0, 0, 0, 9]) 0x300 = Some nil_session"
    by (simp_all add: ex_client_def ex_start_def)
  from TEEC_DoOpenSession_adds_session [OF run this] show ?thesis
    unfolding out_def [symmetric] by (simp add: ex_ctx_def fresh_ctx_def)
qed

text \<open>
  C39. A failed request to open a session always reports the generic error: the function translates the
  \<^verbatim>\<open>-1\<close> that \<^verbatim>\<open>ioctl\<close> returns and not the error number, so the translation table is never used. Invoking a
  command on the same failure reports what the table has for the error number \<open>e\<close>.
\<close>

theorem open_session_loses_error_number:
  assumes "open_retry CA_AUTH_RETRY_TIMES fd cli w = (- 1, cli1, w1)"
    and "ioctl_cli (cx_fd (rd_ctx (use_ctx a v) a)) SEND_CMD_REQ cli (use_ctx a v) = (- 1, cli2, v1)" "ask v1 = (e, v2)"
  shows "fst (TEEC_DoOpenSession fd cli d a s w) = TEEC_ERROR_GENERIC \<and>
    fst (ProcessInvokeCommand a cli v) = TranslateRetValue (- e)"
  using assms by (simp add: TEEC_DoOpenSession_def ProcessInvokeCommand_def Let_def TranslateRetValue_def
      del: open_retry.simps)

theorem open_session_loses_error_number_witness:
  "fst (TEEC_DoOpenSession 5 zero_cli zero_uuid 0x1000 0x300 (ex_client [- 1])) = TEEC_ERROR_GENERIC \<and>
   fst (ProcessInvokeCommand 0x1000 zero_cli (ex_client [- 1, 0, 0, 0, 12])) = TEEC_ERROR_OUT_OF_MEMORY"
proof -
  define o1 where "o1 = open_retry CA_AUTH_RETRY_TIMES 5 zero_cli (ex_client [- 1])"
  define v where "v = ex_client [- 1, 0, 0, 0, 12]"
  define o2 where "o2 = ioctl_cli (cx_fd (rd_ctx (use_ctx 0x1000 v) 0x1000)) SEND_CMD_REQ zero_cli (use_ctx 0x1000 v)"
  have "fst o1 = - 1" unfolding o1_def by code_simp
  then have 1: "open_retry CA_AUTH_RETRY_TIMES 5 zero_cli (ex_client [- 1]) = (- 1, fst (snd o1), snd (snd o1))"
    unfolding o1_def by (metis prod.collapse)
  have "fst o2 = - 1" unfolding o2_def v_def by code_simp
  then have 2: "ioctl_cli (cx_fd (rd_ctx (use_ctx 0x1000 v) 0x1000)) SEND_CMD_REQ zero_cli (use_ctx 0x1000 v) = (- 1, fst (snd o2), snd (snd o2))"
    unfolding o2_def by (metis prod.collapse)
  have "fst (ask (snd (snd o2))) = 12" unfolding o2_def v_def by code_simp
  then have 3: "ask (snd (snd o2)) = (12, snd (ask (snd (snd o2))))" by (metis prod.collapse)
  show ?thesis using open_session_loses_error_number [OF 1 2 3]
    by (simp add: v_def TranslateRetValue_def)
qed

section \<open>Zero-copy shared memory\<close>

text \<open>
  C33. Zero-copy memory takes no slot of the bitmap and keeps the offset 0; releasing it clears slot 0 all
  the same. The next driver-mapped memory gets offset 0 again, although another one may still have it.
\<close>

theorem zero_copy_release_frees_slot_zero:
  assumes h: "w_shms w m = Some h" "is_zero_copy (sm_flags h)" "sm_is_allocated h" "sm_buffer h \<noteq> NULL_ptr" "sm_offset h = 0"
    and c: "w_ctxs w (sm_context h) = Some c" "length (shm_bitmap c) = 8" and q: "quiet w"
  shows "fst (get_shm_bit (sm_context h) (ReleaseSharedMemory m w)) = 0"
proof -
  define a where "a = sm_context h"
  define w1 where "w1 = free_block (sm_buffer h) w"
  have use: "use_shm m w = w" "rd_shm w m = h" using h by (simp_all add: use_shm_def rd_shm_def)
  have rel: "ReleaseSharedMemory m w = free_shm m (clear_shm_bit a 0 w1)"
    using h use by (auto simp: ReleaseSharedMemory_def Let_def is_zero_copy_def w1_def a_def)
  have c1: "w_ctxs w1 a = Some c" using c(1)
    by (auto simp: w1_def free_block_def log_call_def faulty_def a_def split: option.splits block.splits)
  obtain l w2 where l: "ask w1 = (l, w2)" by (cases "ask w1")
  have l0: "l = 0" "w_ctxs w2 = w_ctxs w1" "quiet w2"
    using quiet_ask [OF _ l] q l by (auto simp: w1_def ask_def)
  have ok: "bm_ok 8 (shm_bitmap c)" using c(2) by (simp add: bm_ok_def)
  obtain bm where bm: "ClearBit 0 8 (Some (shm_bitmap c)) = Some bm" "bm_ok 8 bm" "bm_bits bm = bm_bits (shm_bitmap c) - {unat (0 :: u32)}"
    by (rule ClearBit_bits [OF ok])
  define w3 where "w3 = clear_shm_bit a 0 w1"
  have w3: "w_ctxs w3 a = Some (c\<lparr>shm_bitmap := bm\<rparr>)" "quiet w3"
    using l l0 c1 bm(1) by (simp_all add: w3_def clear_shm_bit_def rd_ctx_def upd_ctx_def ClearBitWithLock_def NUM_OF_SHAREMEM_BITMAP_def quiet_def)
  define w4 where "w4 = free_shm m w3"
  have w4: "w_ctxs w4 a = Some (c\<lparr>shm_bitmap := bm\<rparr>)" "quiet w4"
    using w3 by (auto simp: w4_def free_shm_def log_call_def faulty_def quiet_def)
  obtain k w5 where k: "ask (use_ctx a w4) = (k, w5)" by (cases "ask (use_ctx a w4)")
  have k0: "k = 0" "w_ctxs w5 a = Some (c\<lparr>shm_bitmap := bm\<rparr>)"
    using quiet_ask [OF _ k] w4 k by (auto simp: ask_def use_ctx_def)
  have len: "length bm = 8" using bm(2) by (simp add: bm_ok_def)
  obtain v bm' where it: "IterateBitmap bm 8 SET = (v, bm')" by (cases "IterateBitmap bm 8 SET")
  have "0 \<notin> bm_bits bm" using bm(3) by simp
  then have free: "0 \<in> free_bits SET bm" using mem_free_bits [of 0 SET bm] len by (simp add: bm_bits_def bm_bit_def)
  have "v = 0" using IterateBitmap_spec [OF bm(2) it] free by fastforce
  then show ?thesis
    unfolding a_def [symmetric] rel
    using k k0 it by (simp add: get_shm_bit_def Let_def w3_def [symmetric] w4_def [symmetric] GetAndSetBitWithLock_def
        rd_ctx_def GetAndSetBit_def NUM_OF_SHAREMEM_BITMAP_def split: prod.splits)
qed

text \<open>The mapped memory of the example has offset 0, and a zero-copy one is released beside it.\<close>

definition ex_two :: world where
  "ex_two = (ex_client [])\<lparr>w_ctxs := [0x1000 \<mapsto> ex_ctx\<lparr>shrd_mem_list := [0x2000, 0x2100]\<rparr>],
     w_shms := [0x2000 \<mapsto> ex_mapped, 0x2100 \<mapsto> ex_mapped\<lparr>sm_buffer := 0x8000, sm_flags := TEEC_MEM_SHARED_INOUT\<rparr>],
     w_blocks := [0x7000 \<mapsto> Mapped 5 64 0, 0x8000 \<mapsto> Heap []]\<rparr>"

theorem zero_copy_release_frees_slot_zero_witness:
  "sm_offset (rd_shm (ReleaseSharedMemory 0x2100 ex_two) 0x2000) = 0 \<and>
   fst (get_shm_bit 0x1000 (ReleaseSharedMemory 0x2100 ex_two)) = 0"
proof -
  have q: "quiet ex_two" using ex_client_quiet by (simp add: ex_two_def quiet_def)
  have "fst (get_shm_bit 0x1000 (ReleaseSharedMemory 0x2100 ex_two)) = 0"
    using zero_copy_release_frees_slot_zero [of ex_two "0x2100" "ex_mapped\<lparr>sm_buffer := 0x8000, sm_flags := TEEC_MEM_SHARED_INOUT\<rparr>"
      "ex_ctx\<lparr>shrd_mem_list := [0x2000, 0x2100]\<rparr>", OF _ _ _ _ _ _ _ q]
    by (simp add: ex_two_def ex_mapped_def is_zero_copy_def ex_ctx_def fresh_ctx_def)
  moreover have "sm_offset (rd_shm (ReleaseSharedMemory 0x2100 ex_two) 0x2000) = 0" by code_simp
  ultimately show ?thesis by simp
qed


end
