(* ===== verification/Blocking_Queue.thy ===== *)
theory Blocking_Queue
  imports Prelude "HOL-Library.Signed_Division"
begin

text \<open>
  The message queue between the proxy and the trusted side,
  \<^verbatim>\<open>src/tee_teleport/posix_proxy/src/xtasklet/blocking_queue.c\<close> and its header: a ring of fixed-size
  entries in shared memory, with a head written by the producer and a tail written by the consumer, each
  a position with a flip bit. The queue object of a side is private to it; the ring is shared.

  A waiting loop is a recursion over what it observes in each turn: the interrupt flag, the two positions
  (one 64-bit read) and the result of \<^verbatim>\<open>usleep\<close>; the other side runs between turns. \<^const>\<open>None\<close> as the
  result of a loop over observations means that it still waits. In the copying loops \<^const>\<open>None\<close> means
  that an access left its buffer, or that the loop did not end within one round of the ring.
\<close>

unbundle bit_operations_syntax

section \<open>Constants and data\<close>

definition CONFIG_BLOCKING_QUEUE_ENTRY_SIZE :: nat where "CONFIG_BLOCKING_QUEUE_ENTRY_SIZE = 512"
definition CONFIG_BLOCKING_QUEUE_SLEEP_US :: int where "CONFIG_BLOCKING_QUEUE_SLEEP_US = 100"
definition CONFIG_BLOCKING_QUEUE_ACC_CNT :: u64 where "CONFIG_BLOCKING_QUEUE_ACC_CNT = 2000"
definition BLOCKING_QUEUE_INVALID_META_VALUE :: int where "BLOCKING_QUEUE_INVALID_META_VALUE = - 1"
definition BLOCKING_QUEUE_INTERRUPTED :: int where "BLOCKING_QUEUE_INTERRUPTED = 0xFF8"
definition MIN_ENTRY_CNT :: nat where "MIN_ENTRY_CNT = 2"
definition FLIP_MASK :: u64 where "FLIP_MASK = 0x00000001"
definition POS_MASK :: u64 where "POS_MASK = 0xFFFFFFFE"

record BlockingQueueEntry =
  meta_size :: int
  meta_remain :: int
  edata :: "u8 list"

definition sizeof_Ringbuffer :: nat where "sizeof_Ringbuffer = 8"
definition sizeof_Entry :: nat where "sizeof_Entry = 520"

definition zero_entry :: BlockingQueueEntry where
  "zero_entry = \<lparr>meta_size = 0, meta_remain = 0, edata = replicate CONFIG_BLOCKING_QUEUE_ENTRY_SIZE 0\<rparr>"

text \<open>The shared memory: the two position words and the entries behind them.\<close>

record Ringbuffer =
  rb_head :: u32
  rb_tail :: u32
  entries :: "BlockingQueueEntry list"

record BlockingQueue =
  isProducer :: bool
  interrupt :: bool
  concurrent :: bool
  blockingAcc :: u64
  refCnt :: u64
  entriesNr :: u32

section \<open>Positions\<close>

definition SetHead :: "Ringbuffer \<Rightarrow> u32 \<Rightarrow> bool \<Rightarrow> Ringbuffer" where
  "SetHead buf pos flip = buf\<lparr>rb_head := (if flip then 1 else 0) OR push_bit 1 pos\<rparr>"

definition SetTail :: "Ringbuffer \<Rightarrow> u32 \<Rightarrow> bool \<Rightarrow> Ringbuffer" where
  "SetTail buf pos flip = buf\<lparr>rb_tail := (if flip then 1 else 0) OR push_bit 1 pos\<rparr>"

definition posVal :: "u32 \<times> u32 \<Rightarrow> u64" where
  "posVal p = ucast (fst p) OR push_bit 32 (ucast (snd p))"

definition GetHeadTail :: "u32 \<times> u32 \<Rightarrow> (u32 \<times> bool) \<times> u32 \<times> bool" where
  "GetHeadTail p =
     (let val = posVal p;
          headFlip = (val AND FLIP_MASK \<noteq> 0); head = ucast (drop_bit 1 (val AND POS_MASK));
          val' = drop_bit 32 val;
          tailFlip = (val' AND FLIP_MASK \<noteq> 0); tp = ucast (drop_bit 1 (val' AND POS_MASK))
      in ((head, headFlip), tp, tailFlip))"

section \<open>Creating and destroying a queue\<close>

text \<open>\<open>mem\<close> is the memory as a ring of the size it will have; the producer clears the entries.\<close>

definition InitRingbuffer :: "BlockingQueue \<Rightarrow> Ringbuffer \<Rightarrow> nat \<Rightarrow> bool \<Rightarrow> int \<times> BlockingQueue \<times> Ringbuffer" where
  "InitRingbuffer q mem memSize producer =
     (if memSize < sizeof_Ringbuffer + MIN_ENTRY_CNT * sizeof_Entry then (1, q, mem)
      else
        let bufferSz = memSize - sizeof_Ringbuffer;
            q' = q\<lparr>entriesNr := of_nat (bufferSz div sizeof_Entry)\<rparr>
        in (0, q', if producer
                   then SetHead (mem\<lparr>entries := replicate (bufferSz div sizeof_Entry) zero_entry\<rparr>) 0 False
                   else SetTail mem 0 False))"

text \<open>
  \<open>mutex_rc\<close> is what \<^verbatim>\<open>pthread_mutex_init\<close> returned, \<open>errno\<close> the value of \<^verbatim>\<open>errno\<close> at that point. The result is
  the return value, the new queue (\<^const>\<open>None\<close> when the out-parameter is not written) and the memory.
\<close>

definition BlockingQueueCreate ::
  "Ringbuffer option \<Rightarrow> nat \<Rightarrow> bool \<Rightarrow> bool \<Rightarrow> bool \<Rightarrow> bool \<Rightarrow> int \<Rightarrow> int
   \<Rightarrow> int \<times> BlockingQueue option \<times> Ringbuffer option" where
  "BlockingQueueCreate mem memSize queue_null producer conc malloc_ok mutex_rc errno =
     (case mem of
        None \<Rightarrow> (1, None, mem)
      | Some m \<Rightarrow>
        if queue_null then (1, None, mem)
        else if \<not> malloc_ok then (errno, None, mem)
        else
          let q = \<lparr>isProducer = producer, interrupt = False, concurrent = conc,
                   blockingAcc = CONFIG_BLOCKING_QUEUE_ACC_CNT, refCnt = 1, entriesNr = 0\<rparr> in
          if conc \<and> mutex_rc \<noteq> 0 then (errno, None, mem)
          else case InitRingbuffer q m memSize producer of (ret, q', m') \<Rightarrow>
            if ret \<noteq> 0 then (ret, None, mem) else (0, Some q', Some m'))"

definition BlockingQueueInterrupt :: "BlockingQueue option \<Rightarrow> BlockingQueue option" where
  "BlockingQueueInterrupt queue = map_option (\<lambda>q. q\<lparr>interrupt := True\<rparr>) queue"

definition RefQueue :: "BlockingQueue \<Rightarrow> BlockingQueue" where
  "RefQueue q = q\<lparr>refCnt := refCnt q + 1\<rparr>"

text \<open>\<^const>\<open>None\<close> when the queue has been freed.\<close>

definition DerefQueue :: "BlockingQueue \<Rightarrow> BlockingQueue option" where
  "DerefQueue q = (if refCnt q = 1 then None else Some (q\<lparr>refCnt := refCnt q - 1\<rparr>))"

definition BlockingQueueDestroy :: "BlockingQueue option \<Rightarrow> BlockingQueue option" where
  "BlockingQueueDestroy queue =
     (case queue of None \<Rightarrow> None | Some q \<Rightarrow> if \<not> interrupt q then Some q else DerefQueue q)"

definition LockQueue :: "BlockingQueue \<Rightarrow> int \<Rightarrow> int \<Rightarrow> int" where
  "LockQueue q lock_rc errno = (if concurrent q \<and> lock_rc \<noteq> 0 then errno else 0)"

section \<open>Waiting\<close>

record observation =
  o_interrupt :: bool
  o_pos :: "u32 \<times> u32"
  o_usleep :: int

definition ETIMEDOUT :: int where "ETIMEDOUT = 110"

text \<open>\<open>sleep\<close> is 0 or the error number of \<^verbatim>\<open>usleep\<close>.\<close>

definition Blocking :: "BlockingQueue \<Rightarrow> int \<Rightarrow> int \<Rightarrow> int \<times> BlockingQueue \<times> int" where
  "Blocking q timeoutUs sleep =
     (if timeoutUs \<noteq> - 1 \<and> timeoutUs < CONFIG_BLOCKING_QUEUE_SLEEP_US then (ETIMEDOUT, q, timeoutUs)
      else if blockingAcc q = 0 then
        if sleep \<noteq> 0 then (sleep, q, timeoutUs)
        else (0, q, if timeoutUs \<noteq> - 1 then timeoutUs - CONFIG_BLOCKING_QUEUE_SLEEP_US else timeoutUs)
      else (0, q\<lparr>blockingAcc := blockingAcc q - 1\<rparr>, timeoutUs))"

definition Unblocking :: "BlockingQueue \<Rightarrow> BlockingQueue" where
  "Unblocking q = q\<lparr>blockingAcc := blockingAcc q + CONFIG_BLOCKING_QUEUE_ACC_CNT\<rparr>"

text \<open>The number of entries a message takes.\<close>

definition blocks_of :: "u32 \<Rightarrow> u32" where
  "blocks_of sz = sz div 512 + (if sz mod 512 = 0 then 0 else 1)"

definition next_pos :: "u32 \<Rightarrow> u32 \<Rightarrow> bool \<Rightarrow> u32 \<Rightarrow> u32 \<times> bool" where
  "next_pos len pos flip n = ((pos + n) mod len, (len \<le> pos + n) \<noteq> flip)"

definition is_full :: "u32 \<Rightarrow> u32 \<Rightarrow> u32 \<times> u32 \<Rightarrow> bool" where
  "is_full len n p =
     (case GetHeadTail p of ((head, headFlip), tp, tailFlip) \<Rightarrow>
      case next_pos len head headFlip n of (nextHead, nextHeadFlip) \<Rightarrow>
        (nextHeadFlip \<noteq> tailFlip \<and> nextHead \<ge> tp) \<or> (headFlip \<noteq> tailFlip \<and> nextHeadFlip = tailFlip))"

fun WaitFull_loop :: "u32 \<Rightarrow> observation list \<Rightarrow> BlockingQueue \<Rightarrow> int \<Rightarrow> (int \<times> BlockingQueue \<times> u32 \<times> bool) option" where
  "WaitFull_loop n [] q timeout = None"
| "WaitFull_loop n (ob # os) q timeout =
     (case GetHeadTail (o_pos ob) of ((head, headFlip), _) \<Rightarrow>
      if o_interrupt ob then Some (BLOCKING_QUEUE_INTERRUPTED, q, head, headFlip)
      else if is_full (entriesNr q) n (o_pos ob) then
        (case Blocking q timeout (o_usleep ob) of (ret, q', timeout') \<Rightarrow>
           if ret \<noteq> 0 then Some (ret, q', head, headFlip) else WaitFull_loop n os q' timeout')
      else Some (0, Unblocking q, head, headFlip))"

definition WaitFull ::
  "BlockingQueue \<Rightarrow> observation list \<Rightarrow> int \<Rightarrow> u32 \<Rightarrow> (int \<times> BlockingQueue \<times> u32 \<times> bool) option" where
  "WaitFull q os timeout srcSize =
     (let n = blocks_of srcSize in
      if n > entriesNr q then Some (1, q, 0, False) else WaitFull_loop n os q timeout)"

fun WaitEmpty :: "BlockingQueue \<Rightarrow> observation list \<Rightarrow> int \<Rightarrow> (int \<times> BlockingQueue \<times> u32 \<times> bool) option" where
  "WaitEmpty q [] timeout = None"
| "WaitEmpty q (ob # os) timeout =
     (case GetHeadTail (o_pos ob) of ((head, headFlip), tp, tailFlip) \<Rightarrow>
      if o_interrupt ob then Some (BLOCKING_QUEUE_INTERRUPTED, q, tp, tailFlip)
      else if headFlip = tailFlip \<and> head = tp then
        (case Blocking q timeout (o_usleep ob) of (ret, q', timeout') \<Rightarrow>
           if ret \<noteq> 0 then Some (ret, q', tp, tailFlip) else WaitEmpty q' os timeout')
      else Some (0, Unblocking q, tp, tailFlip))"

section \<open>Copying\<close>

definition SetMetadata :: "BlockingQueueEntry list \<Rightarrow> nat \<Rightarrow> int \<Rightarrow> int \<Rightarrow> BlockingQueueEntry list" where
  "SetMetadata es pos sz remain = es[pos := (es ! pos)\<lparr>meta_size := sz, meta_remain := remain\<rparr>]"

text \<open>One entry: its metadata, then \<open>cnt\<close> bytes of the message from \<open>offset\<close> on.\<close>

definition put_entry ::
  "BlockingQueueEntry list \<Rightarrow> nat \<Rightarrow> int \<Rightarrow> int \<Rightarrow> u8 list \<Rightarrow> nat \<Rightarrow> nat \<Rightarrow> BlockingQueueEntry list option" where
  "put_entry es i sz remain src offset cnt =
     (if i < length es \<and> cnt \<le> CONFIG_BLOCKING_QUEUE_ENTRY_SIZE \<and> offset + cnt \<le> length src
      then let es' = SetMetadata es i sz remain
           in Some (es'[i := (es' ! i)\<lparr>edata := take cnt (drop offset src) @ drop cnt (edata (es' ! i))\<rparr>])
      else None)"

fun enq_loop ::
  "nat \<Rightarrow> u32 \<Rightarrow> u32 \<Rightarrow> u32 \<Rightarrow> u32 \<Rightarrow> u8 list \<Rightarrow> int \<Rightarrow> int \<Rightarrow> int \<Rightarrow> BlockingQueueEntry list
   \<Rightarrow> BlockingQueueEntry list option" where
  "enq_loop fuel i head nextHead len src srcSize nblk offset es =
     (if i = nextHead then Some es
      else case fuel of
        0 \<Rightarrow> None
      | Suc fuel' \<Rightarrow>
          let cnt = (if offset + 512 < srcSize then 512 else srcSize - offset) in
          if cnt < 0 then None
          else case put_entry es (unat i)
                 (if i \<noteq> head then BLOCKING_QUEUE_INVALID_META_VALUE else srcSize)
                 (if i \<noteq> head then BLOCKING_QUEUE_INVALID_META_VALUE else nblk - 1) src (nat offset) (nat cnt) of
            None \<Rightarrow> None
          | Some es' \<Rightarrow>
              enq_loop fuel' ((i + 1) mod len) head nextHead len src srcSize nblk (offset + cnt) es')"

declare enq_loop.simps [simp del]

definition EnqueueBlocks :: "u32 \<Rightarrow> Ringbuffer \<Rightarrow> u32 \<Rightarrow> bool \<Rightarrow> u8 list \<Rightarrow> int \<Rightarrow> Ringbuffer option" where
  "EnqueueBlocks len buf head headFlip src srcSize =
     (let nblk = srcSize sdiv 512 + (if srcSize smod 512 = 0 then 0 else 1) in
      case next_pos len head headFlip (word_of_int nblk) of (nextHead, nextHeadFlip) \<Rightarrow>
        map_option (\<lambda>es. SetHead (buf\<lparr>entries := es\<rparr>) nextHead nextHeadFlip)
          (enq_loop (unat len) head head nextHead len src srcSize nblk 0 (entries buf)))"

text \<open>
  A whole call. \<open>os\<close> is what the wait observes and \<open>buf\<close> the shared memory when the copy is made; the
  outer \<^const>\<open>None\<close> is a call that has not returned or whose copy left its buffers. The queue is \<^const>\<open>None\<close> once freed.
\<close>

definition BlockingEnqueue ::
  "BlockingQueue option \<Rightarrow> u8 list option \<Rightarrow> u32 \<Rightarrow> int \<Rightarrow> int \<Rightarrow> int \<Rightarrow> observation list \<Rightarrow> Ringbuffer
   \<Rightarrow> (int \<times> BlockingQueue option \<times> Ringbuffer) option" where
  "BlockingEnqueue queue src srcSize timeoutUs lock_rc errno os buf =
     (case (queue, src) of
        (Some q, Some bytes) \<Rightarrow>
          if \<not> isProducer q then Some (1, queue, buf)
          else if srcSize > entriesNr q * 512 then Some (1, queue, buf)
          else
            let q1 = RefQueue q; ret = LockQueue q1 lock_rc errno in
            if ret \<noteq> 0 then Some (ret, DerefQueue q1, buf)
            else (case WaitFull q1 os timeoutUs srcSize of
                None \<Rightarrow> None
              | Some (ret, q2, head, headFlip) \<Rightarrow>
                  if ret \<noteq> 0 then Some (ret, DerefQueue q2, buf)
                  else map_option (\<lambda>buf'. (0, DerefQueue q2, buf'))
                         (EnqueueBlocks (entriesNr q2) buf head headFlip bytes (sint srcSize)))
      | _ \<Rightarrow> Some (1, queue, buf))"

text \<open>A signed 32-bit product that overflows is undefined, \<^const>\<open>None\<close>.\<close>

definition in_s32 :: "int \<Rightarrow> bool" where
  "in_s32 x \<longleftrightarrow> - (2 ^ 31) \<le> x \<and> x < 2 ^ 31"

definition GetMetadata :: "BlockingQueueEntry list \<Rightarrow> u32 \<Rightarrow> (int \<times> int \<times> int) option" where
  "GetMetadata es pos =
     (if unat pos < length es \<and> in_s32 ((meta_remain (es ! unat pos) + 1) * 512)
      then let sz = meta_size (es ! unat pos); remain = meta_remain (es ! unat pos) in
        Some (if sz = BLOCKING_QUEUE_INVALID_META_VALUE \<or> remain = BLOCKING_QUEUE_INVALID_META_VALUE then 1
              else if sz > (remain + 1) * 512 then 1 else 0, sz, remain)
      else None)"

text \<open>\<^verbatim>\<open>calloc\<close>: it fails when the system says so, and for a size that became huge as an unsigned number.\<close>

definition AllocateDequeueBuffer :: "int \<Rightarrow> bool \<Rightarrow> u8 list option" where
  "AllocateDequeueBuffer sz calloc_ok = (if sz < 0 \<or> \<not> calloc_ok then None else Some (replicate (nat sz) 0))"

fun deq_loop ::
  "nat \<Rightarrow> u32 \<Rightarrow> u32 \<Rightarrow> u32 \<Rightarrow> BlockingQueueEntry list \<Rightarrow> int \<Rightarrow> u32 \<Rightarrow> u8 list \<Rightarrow> u8 list option" where
  "deq_loop fuel i nextTail len es sz offset dst =
     (if i = nextTail then Some dst
      else case fuel of
        0 \<Rightarrow> None
      | Suc fuel' \<Rightarrow>
          let rest = word_of_int sz - offset; cnt = (if rest < 512 then rest else 512);
              data = edata (es ! unat i) in
          if unat i < length es \<and> unat cnt \<le> length data \<and> unat offset + unat cnt \<le> length dst
          then deq_loop fuel' ((i + 1) mod len) nextTail len es sz (offset + cnt)
                 (take (unat offset) dst @ take (unat cnt) data @ drop (unat offset + unat cnt) dst)
          else None)"

declare deq_loop.simps [simp del]

definition DequeueBlocks :: "u32 \<Rightarrow> Ringbuffer \<Rightarrow> u32 \<Rightarrow> bool \<Rightarrow> int \<Rightarrow> int \<Rightarrow> u8 list \<Rightarrow> (u8 list \<times> Ringbuffer) option" where
  "DequeueBlocks len buf tp tailFlip sz remain dst =
     (case next_pos len tp tailFlip (word_of_int (remain + 1)) of (nextTail, nextTailFlip) \<Rightarrow>
        map_option (\<lambda>dst'. (dst', SetTail buf nextTail nextTailFlip))
          (deq_loop (unat len) tp nextTail len (entries buf) sz 0 dst))"

definition BlockingDequeue ::
  "BlockingQueue option \<Rightarrow> bool \<Rightarrow> int \<Rightarrow> int \<Rightarrow> int \<Rightarrow> bool \<Rightarrow> observation list \<Rightarrow> Ringbuffer
   \<Rightarrow> (int \<times> u8 list option \<times> BlockingQueue option \<times> Ringbuffer) option" where
  "BlockingDequeue queue dst_null timeoutUs lock_rc errno calloc_ok os buf =
     (case queue of
        None \<Rightarrow> Some (1, None, queue, buf)
      | Some q \<Rightarrow>
        if dst_null then Some (1, None, queue, buf)
        else if isProducer q then Some (1, None, queue, buf)
        else
          let q1 = RefQueue q; ret = LockQueue q1 lock_rc errno in
          if ret \<noteq> 0 then Some (ret, None, DerefQueue q1, buf)
          else (case WaitEmpty q1 os timeoutUs of
              None \<Rightarrow> None
            | Some (ret, q2, tp, tailFlip) \<Rightarrow>
                if ret \<noteq> 0 then Some (ret, None, DerefQueue q2, buf)
                else (case GetMetadata (entries buf) tp of
                    None \<Rightarrow> None
                  | Some (ret, sz, remain) \<Rightarrow>
                      if ret \<noteq> 0 then Some (ret, None, DerefQueue q2, buf)
                      else (case AllocateDequeueBuffer sz calloc_ok of
                          None \<Rightarrow> Some (errno, None, DerefQueue q2, buf)
                        | Some dst \<Rightarrow>
                            map_option (\<lambda>(dst', buf'). (0, Some dst', DerefQueue q2, buf'))
                              (DequeueBlocks (entriesNr q2) buf tp tailFlip sz remain dst)))))"

end
