(* ===== verification/Queue_Fifo.thy ===== *)
theory Queue_Fifo
  imports Blocking_Queue
begin

text \<open>
  The ring as a list of messages. \<open>ring_ok n buf msgs\<close> relates the shared memory to the messages in it; the
  copying loops implement appending a message and removing the first one. The last part runs the two
  sides against each other, each call in two steps, and shows that messages arrive once and in order.
\<close>

section \<open>Positions\<close>

definition enc_pos :: "u32 \<Rightarrow> bool \<Rightarrow> u32" where
  "enc_pos a flip = (if flip then 1 else 0) OR push_bit 1 a"

lemma GetHeadTail_bits: "GetHeadTail (a, b) = ((drop_bit 1 a, bit a 0), drop_bit 1 b, bit b 0)"
proof -
  have f: "(x AND FLIP_MASK \<noteq> 0) = bit x 0" for x :: u64
    by (simp add: FLIP_MASK_def and_one_eq odd_iff_mod_2_eq_one bit_0)
  have m: "bit POS_MASK i \<longleftrightarrow> 1 \<le> i \<and> i < 32" for i
  proof -
    have "POS_MASK = push_bit 1 (mask 31)" by (simp add: POS_MASK_def mask_eq_exp_minus_1)
    moreover have "bit (push_bit 1 (mask 31) :: u64) i \<longleftrightarrow> 1 \<le> i \<and> i < 32"
      unfolding bit_push_bit_iff bit_mask_iff possible_bit_word by auto
    ultimately show ?thesis by (simp only:)
  qed
  have h: "ucast (drop_bit 1 (posVal (a, b) AND POS_MASK)) = drop_bit 1 a"
    by (rule bit_word_eqI) (auto simp: posVal_def bit_simps m dest: bit_imp_le_length)
  have t: "ucast (drop_bit 1 (drop_bit 32 (posVal (a, b)) AND POS_MASK)) = drop_bit 1 b"
    by (rule bit_word_eqI) (auto simp: posVal_def bit_simps m dest: bit_imp_le_length)
  have h0: "bit (posVal (a, b)) 0 = bit a 0" by (simp add: posVal_def bit_simps)
  have t0: "bit (drop_bit 32 (posVal (a, b))) 0 = bit b 0"
    by (auto simp: posVal_def bit_simps dest: bit_imp_le_length)
  show ?thesis unfolding GetHeadTail_def Let_def f h t h0 t0 ..
qed

lemma enc_pos_bits:
  assumes "unat a < 2 ^ 31"
  shows "drop_bit 1 (enc_pos a f) = a" "bit (enc_pos a f) 0 = f"
proof -
  have "take_bit 31 a = a"
    using assms by (simp add: word_unat_eq_iff unsigned_take_bit_eq take_bit_nat_eq_self_iff)
  then have top: "\<not> bit a 31" by (metis bit_take_bit_iff less_irrefl)
  have "bit (drop_bit 1 (enc_pos a f)) i = bit a i" if "i < 32" for i
  proof -
    have "bit (push_bit 1 a) (Suc i) \<longleftrightarrow> i \<noteq> 31 \<and> bit a i"
      using that unfolding bit_push_bit_iff possible_bit_word by auto
    moreover have "\<not> bit (if f then 1 else 0 :: u32) (Suc i)" by (simp add: bit_1_iff)
    ultimately show ?thesis using top unfolding enc_pos_def bit_drop_bit_eq bit_or_iff comp_def by auto
  qed
  then show "drop_bit 1 (enc_pos a f) = a" by (intro bit_word_eqI) simp
  have "\<not> bit (push_bit 1 a) 0" unfolding bit_push_bit_iff by simp
  then show "bit (enc_pos a f) 0 = f" unfolding enc_pos_def bit_or_iff by (simp add: bit_1_iff)
qed

lemma GetHeadTail_enc:
  "unat h < 2 ^ 31 \<Longrightarrow> unat t < 2 ^ 31 \<Longrightarrow> GetHeadTail (enc_pos h hf, enc_pos t tf) = ((h, hf), t, tf)"
  unfolding GetHeadTail_bits by (simp only: enc_pos_bits)

lemma SetHead_enc: "SetHead buf a f = buf\<lparr>rb_head := enc_pos a f\<rparr>"
  by (simp add: SetHead_def enc_pos_def)

lemma SetTail_enc: "SetTail buf a f = buf\<lparr>rb_tail := enc_pos a f\<rparr>"
  by (simp add: SetTail_def enc_pos_def)

section \<open>Sizes\<close>

definition nblocks :: "nat \<Rightarrow> nat" where
  "nblocks s = (s + 511) div 512"

lemma nblocks_bounds: "0 < s \<Longrightarrow> 0 < nblocks s" "s \<le> 512 * nblocks s" "0 < s \<Longrightarrow> 512 * (nblocks s - 1) < s"
  by (simp_all add: nblocks_def)

lemma nblocks_less: "j < nblocks s \<longleftrightarrow> 512 * j < s"
  by (auto simp: nblocks_def)

lemma nblocks_alt: "nblocks s = s div 512 + (if s mod 512 = 0 then 0 else 1)"
proof -
  define q r where "q = s div 512" and "r = s mod 512"
  have s: "s = 512 * q + r" "r < 512" by (simp_all add: q_def r_def)
  have "(512 * q + r + 511) div 512 = q + (r + 511) div 512" by simp
  moreover have "(r + 511) div 512 = (if r = 0 then 0 else 1)"
  proof (cases "r = 0")
    case False
    then have "r + 511 = 512 + (r - 1)" "r - 1 < 512" using s(2) by simp_all
    then show ?thesis using False by simp
  qed simp
  ultimately show ?thesis unfolding nblocks_def q_def [symmetric] r_def [symmetric] s(1) [symmetric] by simp
qed

lemma blocks_of_nat:
  assumes "s < 2 ^ 31"
  shows "unat (blocks_of (of_nat s)) = nblocks s"
proof -
  have s: "unat (of_nat s :: u32) = s" using assms by (intro unat_of_nat32) simp
  have d: "unat ((of_nat s :: u32) div 512) = s div 512" by (simp add: unat_div s)
  have m: "(of_nat s :: u32) mod 512 = 0 \<longleftrightarrow> s mod 512 = 0"
  proof -
    have "unat ((of_nat s :: u32) mod 512) = s mod 512" by (simp add: unat_mod s)
    then show ?thesis by (metis unat_0 word_unat_eq_iff)
  qed
  have "s div 512 + 1 < 2 ^ 32" using assms by simp
  then have "unat ((of_nat s :: u32) div 512 + (if s mod 512 = 0 then 0 else 1)) = s div 512 + (if s mod 512 = 0 then 0 else 1)"
    using d by (simp add: unat_word_ariths)
  then show ?thesis unfolding blocks_of_def m nblocks_alt .
qed

lemma int_blocks: "int s sdiv 512 + (if int s smod 512 = 0 then 0 else 1) = int (nblocks s)"
proof -
  have "int s sdiv 512 = int (s div 512)" "int s smod 512 = int (s mod 512)"
    by (cases s; simp add: signed_divide_int_def signed_modulo_int_def zdiv_int zmod_int)+
  moreover have "int (s mod 512) = 0 \<longleftrightarrow> s mod 512 = 0" by simp
  ultimately show ?thesis unfolding nblocks_alt by simp
qed

text \<open>Steps around the ring.\<close>

lemma word_step:
  assumes "unat i < unat len" "unat (len :: u32) < 2 ^ 31"
  shows "unat ((i + 1) mod len) = (unat i + 1) mod unat len"
proof -
  have "unat (i + 1) = unat i + 1" using assms by (simp add: unat_word_ariths)
  then show ?thesis by (simp add: unat_mod)
qed

lemma next_pos_nat:
  assumes "unat p < unat len" "k \<le> unat len" "unat (len :: u32) < 2 ^ 31"
  shows "unat (fst (next_pos len p f (of_nat k))) = (unat p + k) mod unat len"
    "snd (next_pos len p f (of_nat k)) = ((unat len \<le> unat p + k) \<noteq> f)"
proof -
  have k: "unat (of_nat k :: u32) = k" using assms by (intro unat_of_nat32) simp
  have "unat (p + of_nat k) = unat p + k" using assms k by (simp add: unat_word_ariths)
  then show "unat (fst (next_pos len p f (of_nat k))) = (unat p + k) mod unat len"
    "snd (next_pos len p f (of_nat k)) = ((unat len \<le> unat p + k) \<noteq> f)"
    by (simp_all add: next_pos_def unat_mod word_le_nat_alt)
qed

lemma slot_inj: "(h + i) mod n = (h + j) mod n \<Longrightarrow> i < n \<Longrightarrow> j < n \<Longrightarrow> i = (j :: nat)"
proof (induction i j rule: linorder_wlog)
  case (le a b)
  then have "n dvd (h + b) - (h + a)" by (metis mod_eq_dvd_iff_nat nat_add_left_cancel_le)
  then show ?case using le by (metis Nat.add_diff_assoc2 add_diff_cancel_left diff_diff_left diff_is_0_eq dvd_imp_le
        le_add_diff_inverse less_imp_diff_less linorder_not_le nat_neq_iff zero_less_diff)
qed auto


section \<open>Messages in the ring\<close>

definition chunk :: "u8 list \<Rightarrow> nat \<Rightarrow> u8 list" where
  "chunk m j = take 512 (drop (512 * j) m)"

text \<open>The message \<open>m\<close> lies in the entries from position \<open>t\<close> on.\<close>

definition msg_at :: "BlockingQueueEntry list \<Rightarrow> nat \<Rightarrow> nat \<Rightarrow> u8 list \<Rightarrow> bool" where
  "msg_at es n t m \<longleftrightarrow> m \<noteq> [] \<and> length m \<le> 2 ^ 31 - 512 \<and>
     meta_size (es ! t) = int (length m) \<and> meta_remain (es ! t) = int (nblocks (length m)) - 1 \<and>
     (\<forall>j < nblocks (length m). take (length (chunk m j)) (edata (es ! ((t + j) mod n))) = chunk m j)"

fun msgs_at :: "BlockingQueueEntry list \<Rightarrow> nat \<Rightarrow> nat \<Rightarrow> u8 list list \<Rightarrow> bool" where
  "msgs_at es n t [] \<longleftrightarrow> True"
| "msgs_at es n t (m # ms) \<longleftrightarrow> msg_at es n t m \<and> msgs_at es n ((t + nblocks (length m)) mod n) ms"

definition used :: "u8 list list \<Rightarrow> nat" where
  "used ms = sum_list (map (\<lambda>m. nblocks (length m)) ms)"

lemma used_simps [simp]: "used [] = 0" "used (m # ms) = nblocks (length m) + used ms" "used (ms @ ns) = used ms + used ns"
  by (simp_all add: used_def)

lemma take_length_take: "take (length (take k xs)) xs = take k xs"
  by (simp add: min_def)

lemma chunk_length: "length (chunk m j) = min 512 (length m - 512 * j)"
  by (simp add: chunk_def)

lemma msg_at_frame:
  assumes "msg_at es n t m" "t < n" "\<forall>j < nblocks (length m). es' ! ((t + j) mod n) = es ! ((t + j) mod n)"
  shows "msg_at es' n t m"
proof -
  have "0 < nblocks (length m)" using assms(1) nblocks_bounds(1) by (simp add: msg_at_def)
  then have "es' ! t = es ! t" using assms(2,3) by (metis add.right_neutral mod_less)
  then show ?thesis using assms(1,3) by (simp add: msg_at_def)
qed

lemma msgs_at_frame:
  assumes "msgs_at es n t ms" "t < n" "\<forall>j < used ms. es' ! ((t + j) mod n) = es ! ((t + j) mod n)"
  shows "msgs_at es' n t ms"
  using assms
proof (induction ms arbitrary: t)
  case (Cons m ms)
  let ?k = "nblocks (length m)"
  have eqs: "\<forall>j < ?k. es' ! ((t + j) mod n) = es ! ((t + j) mod n)"
  proof (intro allI impI)
    fix j assume "j < ?k"
    then have "j < used (m # ms)" by simp
    then show "es' ! ((t + j) mod n) = es ! ((t + j) mod n)" using Cons.prems(3) by blast
  qed
  have 1: "msg_at es' n t m"
    by (rule msg_at_frame [OF _ Cons.prems(2) eqs]) (use Cons.prems(1) in simp)
  have "\<forall>j < used ms. es' ! (((t + ?k) mod n + j) mod n) = es ! (((t + ?k) mod n + j) mod n)"
  proof (intro allI impI)
    fix j assume "j < used ms"
    then have "?k + j < used (m # ms)" by simp
    then have "es' ! ((t + (?k + j)) mod n) = es ! ((t + (?k + j)) mod n)" using Cons.prems(3) by blast
    then show "es' ! (((t + ?k) mod n + j) mod n) = es ! (((t + ?k) mod n + j) mod n)"
      unfolding mod_add_left_eq add.assoc .
  qed
  moreover have "(t + ?k) mod n < n" using Cons.prems(2) by simp
  ultimately show ?case using 1 Cons.IH Cons.prems(1) by simp
qed simp

lemma msgs_at_snoc:
  "msgs_at es n t (ms @ [m]) \<longleftrightarrow> msgs_at es n t ms \<and> msg_at es n ((t + used ms) mod n) m" if "t < n"
  using that
proof (induction ms arbitrary: t)
  case (Cons a ms)
  have e: "((t + nblocks (length a)) mod n + used ms) mod n = (t + (nblocks (length a) + used ms)) mod n"
    unfolding mod_add_left_eq add.assoc ..
  have "(t + nblocks (length a)) mod n < n" using Cons.prems by simp
  note ih = Cons.IH [OF this]
  show ?case unfolding append_Cons msgs_at.simps ih e used_simps by (rule conj_assoc [symmetric])
qed simp

text \<open>The shared memory holds the messages \<open>ms\<close>, at most all entries but one.\<close>

definition ring_ok :: "nat \<Rightarrow> Ringbuffer \<Rightarrow> u8 list list \<Rightarrow> bool" where
  "ring_ok n buf ms \<longleftrightarrow> 2 \<le> n \<and> n < 2 ^ 31 \<and> length (entries buf) = n \<and>
     (\<forall>e \<in> set (entries buf). length (edata e) = 512) \<and>
     (\<exists>h hf t tf. rb_head buf = enc_pos h hf \<and> rb_tail buf = enc_pos t tf \<and> unat h < n \<and> unat t < n \<and>
        used ms < n \<and> unat h = (unat t + used ms) mod n \<and> (hf = tf \<longleftrightarrow> unat t + used ms < n) \<and>
        msgs_at (entries buf) n (unat t) ms)"

lemma ring_okI:
  "2 \<le> n \<Longrightarrow> n < 2 ^ 31 \<Longrightarrow> length (entries buf) = n \<Longrightarrow> (\<And>e. e \<in> set (entries buf) \<Longrightarrow> length (edata e) = 512) \<Longrightarrow>
   rb_head buf = enc_pos h hf \<Longrightarrow> rb_tail buf = enc_pos t tf \<Longrightarrow> unat h < n \<Longrightarrow> unat t < n \<Longrightarrow> used ms < n \<Longrightarrow>
   unat h = (unat t + used ms) mod n \<Longrightarrow> (hf = tf \<longleftrightarrow> unat t + used ms < n) \<Longrightarrow>
   msgs_at (entries buf) n (unat t) ms \<Longrightarrow> ring_ok n buf ms"
  unfolding ring_ok_def by blast

section \<open>Writing a message\<close>

text \<open>The entry of block \<open>j\<close> of message \<open>m\<close>, over the old data.\<close>

definition entry_for :: "u8 list \<Rightarrow> nat \<Rightarrow> u8 list \<Rightarrow> BlockingQueueEntry" where
  "entry_for m j old = \<lparr>meta_size = (if j = 0 then int (length m) else - 1),
     meta_remain = (if j = 0 then int (nblocks (length m)) - 1 else - 1),
     edata = chunk m j @ drop (length (chunk m j)) old\<rparr>"

lemma entry_update:
  "(e :: BlockingQueueEntry)\<lparr>meta_size := a, meta_remain := b, edata := c\<rparr> = \<lparr>meta_size = a, meta_remain = b, edata = c\<rparr>"
  by simp

lemma enq_loop_spec:
  assumes n: "n = unat len" "2 \<le> n" "n < 2 ^ 31" "length es = n" and h: "unat head < n"
    and k: "k = nblocks (length m)" "k < n" and j: "j \<le> k" "k - j \<le> fuel"
    and i: "unat i = (unat head + j) mod n" and nx: "unat nextHead = (unat head + k) mod n"
    and off: "j < k \<longrightarrow> offset = int (512 * j)"
  shows "\<exists>es'. enq_loop fuel i head nextHead len m (int (length m)) (int k) offset es = Some es' \<and> length es' = n \<and>
    (\<forall>p < n. (\<forall>j'. j \<le> j' \<and> j' < k \<longrightarrow> p \<noteq> (unat head + j') mod n) \<longrightarrow> es' ! p = es ! p) \<and>
    (\<forall>j'. j \<le> j' \<and> j' < k \<longrightarrow>
       es' ! ((unat head + j') mod n) = entry_for m j' (edata (es ! ((unat head + j') mod n))))"
  using n(4) j i off
proof (induction "k - j" arbitrary: j fuel i offset es)
  case 0
  then have "i = nextHead" using nx by (simp add: word_unat_eq_iff)
  then show ?case using 0 by (auto simp: enq_loop.simps)
next
  case (Suc d)
  then have jk: "j < k" by simp
  then obtain fuel' where fuel: "fuel = Suc fuel'" using Suc.prems(3) by (cases fuel) auto
  have ne: "i \<noteq> nextHead"
  proof
    assume "i = nextHead"
    then have "(unat head + j) mod n = (unat head + k) mod n" using Suc.prems nx by simp
    then show False using slot_inj [of "unat head" j n k] jk k by simp
  qed
  have i0: "i = head \<longleftrightarrow> j = 0"
  proof
    assume "i = head"
    then have "(unat head + j) mod n = (unat head + 0) mod n" using Suc.prems h by simp
    then show "j = 0" using slot_inj [of "unat head" j n 0] jk k by simp
  qed (use Suc.prems h in \<open>simp add: word_unat_eq_iff\<close>)
  have lt: "512 * j < length m" using jk k(1) nblocks_less by simp
  have off: "offset = int (512 * j)" using Suc.prems jk by simp
  define cnt where "cnt = (if offset + 512 < int (length m) then 512 else int (length m) - offset)"
  have cnt: "0 \<le> cnt" "nat cnt = length (chunk m j)" using lt by (auto simp: cnt_def off chunk_length min_def)
  have il: "unat i < length es" using Suc.prems h by simp
  define es1 where "es1 = es[unat i := entry_for m j (edata (es ! unat i))]"
  have bnd: "nat cnt \<le> 512" "nat offset + nat cnt \<le> length m" using lt cnt by (auto simp: chunk_length off)
  have no: "nat offset = 512 * j" unfolding off by (rule nat_int)
  have tk: "take (nat cnt) (drop (nat offset) m) = chunk m j"
    unfolding cnt(2) no chunk_def by (rule take_length_take)
  have put: "put_entry es (unat i) (if i \<noteq> head then BLOCKING_QUEUE_INVALID_META_VALUE else int (length m))
      (if i \<noteq> head then BLOCKING_QUEUE_INVALID_META_VALUE else int k - 1) m (nat offset) (nat cnt) = Some es1"
    using il bnd i0 tk [unfolded cnt(2)]
    by (cases "j = 0") (simp_all add: put_entry_def SetMetadata_def cnt(2) CONFIG_BLOCKING_QUEUE_ENTRY_SIZE_def
        BLOCKING_QUEUE_INVALID_META_VALUE_def es1_def entry_for_def k(1) entry_update)
  have run: "enq_loop fuel i head nextHead len m (int (length m)) (int k) offset es =
      enq_loop fuel' ((i + 1) mod len) head nextHead len m (int (length m)) (int k) (offset + cnt) es1"
    unfolding enq_loop.simps [of fuel] Let_def cnt_def [symmetric] using ne fuel cnt(1) put by simp
  have i1: "unat ((i + 1) mod len) = (unat head + Suc j) mod n"
    using word_step [of i len] il Suc.prems n by (simp add: mod_Suc_eq)
  have o1: "Suc j < k \<longrightarrow> offset + cnt = int (512 * Suc j)"
  proof
    assume "Suc j < k"
    then have "512 * Suc j < length m" using k(1) nblocks_less by blast
    then show "offset + cnt = int (512 * Suc j)" by (simp add: cnt_def off)
  qed
  have l1: "length es1 = n" using Suc.prems by (simp add: es1_def)
  have dk: "d = k - Suc j" "Suc j \<le> k" "k - Suc j \<le> fuel'" using Suc.hyps(2) Suc.prems fuel jk by auto
  from Suc.hyps(1) [OF dk(1) l1 dk(2,3) i1 o1] obtain es' where
    es': "enq_loop fuel' ((i + 1) mod len) head nextHead len m (int (length m)) (int k) (offset + cnt) es1 = Some es'"
      "length es' = n"
    and rest: "\<forall>p < n. (\<forall>j'. Suc j \<le> j' \<and> j' < k \<longrightarrow> p \<noteq> (unat head + j') mod n) \<longrightarrow> es' ! p = es1 ! p"
    and new: "\<forall>j'. Suc j \<le> j' \<and> j' < k \<longrightarrow>
       es' ! ((unat head + j') mod n) = entry_for m j' (edata (es1 ! ((unat head + j') mod n)))" by auto
  have other: "(unat head + j') mod n \<noteq> unat i" if "j < j'" "j' < k" for j'
    using slot_inj [of "unat head" j' n j] that k Suc.prems jk by auto
  have "es' ! p = es ! p" if "p < n" "\<forall>j'. j \<le> j' \<and> j' < k \<longrightarrow> p \<noteq> (unat head + j') mod n" for p
  proof -
    have "p \<noteq> unat i" using that jk Suc.prems by auto
    then show ?thesis using rest that by (simp add: es1_def)
  qed
  moreover have "es' ! ((unat head + j') mod n) = entry_for m j' (edata (es ! ((unat head + j') mod n)))"
    if "j \<le> j'" "j' < k" for j'
  proof (cases "j' = j")
    case False
    then have "unat i \<noteq> (unat head + j') mod n" using other [of j'] that by simp
    then have "es1 ! ((unat head + j') mod n) = es ! ((unat head + j') mod n)" unfolding es1_def by (rule nth_list_update_neq)
    then show ?thesis using new False that by simp
  next
    case True
    have "es' ! unat i = es1 ! unat i" using rest other il Suc.prems by (metis less_eq_Suc_le)
    then show ?thesis using True il Suc.prems by (simp add: es1_def)
  qed
  ultimately show ?case using run es' by auto
qed


section \<open>The two sides\<close>

text \<open>The test for a full ring is exact: a message of \<open>k\<close> blocks fits if one entry stays free.\<close>

lemma is_full_iff:
  assumes ok: "ring_ok (unat len) buf ms" and k: "k \<le> unat len"
  shows "is_full len (of_nat k) (rb_head buf, rb_tail buf) \<longleftrightarrow> unat len \<le> used ms + k"
proof -
  define n where "n = unat len"
  from ok obtain h hf t tf where n: "2 \<le> n" "n < 2 ^ 31" and pos: "rb_head buf = enc_pos h hf" "rb_tail buf = enc_pos t tf"
    and lt: "unat h < n" "unat t < n" "used ms < n" and h: "unat h = (unat t + used ms) mod n"
    and fl: "hf = tf \<longleftrightarrow> unat t + used ms < n"
    by (auto simp: ring_ok_def n_def)
  define nx nf where "nx = fst (next_pos len h hf (of_nat k))" and "nf = snd (next_pos len h hf (of_nat k))"
  have ln: "unat h < unat len" "unat len < 2 ^ 31" using lt n by (simp_all add: n_def)
  have nx: "unat nx = (unat h + k) mod n" "nf = ((n \<le> unat h + k) \<noteq> hf)"
    using next_pos_nat [OF ln(1) k ln(2)] by (simp_all add: nx_def nf_def n_def)
  have "GetHeadTail (rb_head buf, rb_tail buf) = ((h, hf), t, tf)"
    unfolding pos by (rule GetHeadTail_enc) (use lt n in simp_all)
  then have full: "is_full len (of_nat k) (rb_head buf, rb_tail buf) \<longleftrightarrow>
      (nf \<noteq> tf \<and> unat t \<le> unat nx) \<or> (hf \<noteq> tf \<and> nf = tf)"
    by (simp add: is_full_def nx_def nf_def word_le_nat_alt split: prod.splits)
  have hk: "(unat h + k) mod n = (if unat h + k < n then unat h + k else unat h + k - n)"
    using lt k n by (auto simp: n_def mod_if)
  have tu: "(unat t + used ms) mod n = (if unat t + used ms < n then unat t + used ms else unat t + used ms - n)"
    using lt by (auto simp: mod_if)
  show ?thesis
    unfolding full n_def [symmetric]
    using nx h fl hk tu lt k [folded n_def] by (cases "unat t + used ms < n"; cases "unat h + k < n") auto
qed

lemma ring_positions:
  assumes "ring_ok n buf ms"
  obtains h hf t tf where "GetHeadTail (rb_head buf, rb_tail buf) = ((h, hf), t, tf)" "rb_head buf = enc_pos h hf"
    "rb_tail buf = enc_pos t tf" "unat h < n" "unat t < n" "unat h = (unat t + used ms) mod n"
    "hf = tf \<longleftrightarrow> unat t + used ms < n" "msgs_at (entries buf) n (unat t) ms"
proof -
  from assms obtain h hf t tf where p: "n < 2 ^ 31" "rb_head buf = enc_pos h hf" "rb_tail buf = enc_pos t tf" "unat h < n"
    "unat t < n" "unat h = (unat t + used ms) mod n" "hf = tf \<longleftrightarrow> unat t + used ms < n" "msgs_at (entries buf) n (unat t) ms"
    by (auto simp: ring_ok_def)
  have "unat h < 2 ^ 31" "unat t < 2 ^ 31" using p(1,4,5) by linarith+
  then have "GetHeadTail (rb_head buf, rb_tail buf) = ((h, hf), t, tf)"
    unfolding p(2,3) by (rule GetHeadTail_enc)
  then show thesis using that p by blast
qed

lemma ring_msgs_at:
  assumes "ring_ok n buf ms" "GetHeadTail (rb_head buf, rb_tail buf) = (hp, t, tf)"
  shows "msgs_at (entries buf) n (unat t) ms"
  using assms(2) by (auto intro: ring_positions [OF assms(1)])

lemma EnqueueBlocks_ok:
  assumes ok: "ring_ok (unat len) buf ms" and m: "m \<noteq> []" "length m \<le> 2 ^ 31 - 512"
    and pos: "GetHeadTail (rb_head buf, rb_tail buf) = ((h, hf), tp)"
    and room: "used ms + nblocks (length m) < unat len"
  shows "\<exists>buf'. EnqueueBlocks len buf h hf m (int (length m)) = Some buf' \<and> ring_ok (unat len) buf' (ms @ [m]) \<and>
    rb_tail buf' = rb_tail buf"
proof -
  define n where "n = unat len"
  define k where "k = nblocks (length m)"
  obtain h0 hf0 t tf where g: "GetHeadTail (rb_head buf, rb_tail buf) = ((h0, hf0), t, tf)" "rb_head buf = enc_pos h0 hf0"
    "rb_tail buf = enc_pos t tf" "unat h0 < n" "unat t < n" "unat h0 = (unat t + used ms) mod n"
    "hf0 = tf \<longleftrightarrow> unat t + used ms < n" "msgs_at (entries buf) n (unat t) ms"
    by (rule ring_positions [OF ok]) (use n_def in blast)
  have hh: "h0 = h" "hf0 = hf" using g(1) pos by simp_all
  have n: "2 \<le> n" "n < 2 ^ 31" "length (entries buf) = n" "\<forall>e \<in> set (entries buf). length (edata e) = 512"
    using ok by (auto simp: ring_ok_def n_def)
  have k: "0 < k" "used ms + k < n" using nblocks_bounds(1) m room by (simp_all add: k_def n_def)
  define nx nf where "nx = fst (next_pos len h hf (of_nat k))" and "nf = snd (next_pos len h hf (of_nat k))"
  have ln: "unat h < unat len" "unat len < 2 ^ 31" "k \<le> unat len" using g n k hh by (simp_all add: n_def)
  have nx: "unat nx = (unat h + k) mod n" "nf = ((n \<le> unat h + k) \<noteq> hf)"
    using next_pos_nat [OF ln(1,3,2)] by (simp_all add: nx_def nf_def n_def)
  have h0: "unat h = (unat h + 0) mod n" using ln by (simp add: n_def)
  have "\<exists>es'. enq_loop n h h nx len m (int (length m)) (int k) 0 (entries buf) = Some es' \<and> length es' = n \<and>
    (\<forall>p < n. (\<forall>j'. 0 \<le> j' \<and> j' < k \<longrightarrow> p \<noteq> (unat h + j') mod n) \<longrightarrow> es' ! p = entries buf ! p) \<and>
    (\<forall>j'. 0 \<le> j' \<and> j' < k \<longrightarrow>
       es' ! ((unat h + j') mod n) = entry_for m j' (edata (entries buf ! ((unat h + j') mod n))))"
    by (rule enq_loop_spec [OF n_def n(1-3) _ k_def _ _ _ h0 nx(1)]) (use ln k in \<open>simp_all add: n_def\<close>)
  then obtain es' where es': "enq_loop n h h nx len m (int (length m)) (int k) 0 (entries buf) = Some es'" "length es' = n"
    and old: "\<And>p. p < n \<Longrightarrow> (\<And>j'. j' < k \<Longrightarrow> p \<noteq> (unat h + j') mod n) \<Longrightarrow> es' ! p = entries buf ! p"
    and new: "\<And>j'. j' < k \<Longrightarrow> es' ! ((unat h + j') mod n) = entry_for m j' (edata (entries buf ! ((unat h + j') mod n)))"
    by auto
  have np: "next_pos len h hf (word_of_int (int k)) = (nx, nf)" by (simp add: nx_def nf_def)
  have run: "EnqueueBlocks len buf h hf m (int (length m)) = Some (buf\<lparr>entries := es', rb_head := enc_pos nx nf\<rparr>)"
    unfolding EnqueueBlocks_def int_blocks Let_def k_def [symmetric] n_def [symmetric] using es'(1)
    by (simp add: np [simplified] SetHead_enc)
  have hslot: "(unat h + j) mod n = (unat t + (used ms + j)) mod n" for j
    unfolding g(6) [unfolded hh] mod_add_left_eq add.assoc ..
  have frame: "\<forall>j < used ms. es' ! ((unat t + j) mod n) = entries buf ! ((unat t + j) mod n)"
  proof (intro allI impI)
    fix j assume j: "j < used ms"
    show "es' ! ((unat t + j) mod n) = entries buf ! ((unat t + j) mod n)"
    proof (rule old)
      show "(unat t + j) mod n < n" using n by simp
      fix j' assume j': "j' < k"
      show "(unat t + j) mod n \<noteq> (unat h + j') mod n"
      proof
        assume "(unat t + j) mod n = (unat h + j') mod n"
        then have "j = used ms + j'" unfolding hslot by (rule slot_inj) (use j j' k in simp_all)
        then show False using j by simp
      qed
    qed
  qed
  have data: "length (edata e) = 512" if "e \<in> set es'" for e
  proof -
    from that obtain p where p: "p < n" "e = es' ! p" using es'(2) by (auto simp: in_set_conv_nth)
    have "length (edata (entries buf ! q)) = 512" if "q < n" for q using n that by simp
    moreover have "length (edata (entry_for m j' o')) = 512" if "length o' = 512" for j' o'
      using that by (simp add: entry_for_def chunk_length)
    ultimately show ?thesis using old [OF p(1)] new p n
      by (cases "\<exists>j' < k. p = (unat h + j') mod n") auto
  qed
  have msg: "msg_at es' n (unat h) m"
  proof -
    have "es' ! unat h = entry_for m 0 (edata (entries buf ! unat h))" using new [of 0] k h0 by simp
    moreover have "take (length (chunk m j)) (edata (es' ! ((unat h + j) mod n))) = chunk m j" if "j < k" for j
      using new [OF that] by (simp add: entry_for_def)
    ultimately show ?thesis using m by (simp add: msg_at_def k_def entry_for_def)
  qed
  have "msgs_at es' n (unat t) (ms @ [m])"
    using msgs_at_frame [OF g(8,5) frame] msg g(6) hh msgs_at_snoc [OF g(5)] by simp
  moreover have "unat nx = (unat t + used (ms @ [m])) mod n"
    using nx(1) hslot [of k] by (simp add: k_def)
  moreover have "nf = tf \<longleftrightarrow> unat t + used (ms @ [m]) < n"
  proof -
    have tu: "(unat t + used ms) mod n = (if unat t + used ms < n then unat t + used ms else unat t + used ms - n)"
      using g(5) k by (auto simp: mod_if)
    show ?thesis using nx(2) g(5,6,7) hh tu k by (cases "unat t + used ms < n") (auto simp: k_def)
  qed
  moreover have "unat nx < n" using nx(1) n by simp
  ultimately have "ring_ok n (buf\<lparr>entries := es', rb_head := enc_pos nx nf\<rparr>) (ms @ [m])"
    by (intro ring_okI [of n _ nx nf t tf]) (use n(2) k(2) in \<open>simp_all add: n(1,3,4) es'(2) data g(3,5) k_def\<close>)
  then show ?thesis using run by (simp add: n_def)
qed


section \<open>Reading a message\<close>

lemma chunk_take: "take (512 * j) m @ chunk m j = take (512 * Suc j) m"
proof -
  have "take (512 * j + 512) m = take (512 * j) m @ take 512 (drop (512 * j) m)" by (rule take_add)
  then show ?thesis by (simp add: chunk_def add.commute)
qed

lemma deq_loop_spec:
  assumes n: "n = unat len" "2 \<le> n" "n < 2 ^ 31" "length es = n" and t: "t < n"
    and m: "msg_at es n t m" and w: "\<forall>e \<in> set es. length (edata e) = 512"
    and k: "k = nblocks (length m)" "k < n" and j: "j \<le> k" "k - j \<le> fuel"
    and i: "unat i = (t + j) mod n" and nx: "unat nextTail = (t + k) mod n"
    and off: "j < k \<longrightarrow> unat offset = 512 * j"
    and dst: "dst = take (512 * j) m @ replicate (length m - 512 * j) 0"
  shows "deq_loop fuel i nextTail len es (int (length m)) offset dst = Some m"
  using j i off dst
proof (induction "k - j" arbitrary: j fuel i offset dst)
  case 0
  then have "i = nextTail" using nx by (simp add: word_unat_eq_iff)
  moreover have "length m \<le> 512 * j" using 0 k(1) nblocks_bounds(2) [of "length m"] by simp
  ultimately show ?case using 0 by (simp add: deq_loop.simps)
next
  case (Suc d)
  then have jk: "j < k" by simp
  then obtain fuel' where fuel: "fuel = Suc fuel'" using Suc.prems(2) by (cases fuel) auto
  have ne: "i \<noteq> nextTail"
  proof
    assume "i = nextTail"
    then have "(t + j) mod n = (t + k) mod n" using Suc.prems nx by simp
    then show False using slot_inj [of t j n k] jk k by simp
  qed
  have lt: "512 * j < length m" using jk k(1) nblocks_less by simp
  have L: "length m < 2 ^ 31" using m by (simp add: msg_at_def)
  have off: "unat offset = 512 * j" using Suc.prems jk by simp
  define rest where "rest = word_of_int (int (length m)) - offset"
  have lm: "unat (word_of_int (int (length m)) :: u32) = length m" using L by (simp add: unat_of_nat32)
  have "offset \<le> word_of_int (int (length m))" unfolding word_le_nat_alt lm off using lt by simp
  then have rest: "unat rest = length m - 512 * j" unfolding rest_def by (simp only: unat_sub lm off)
  define cnt where "cnt = (if rest < 512 then rest else 512)"
  have cnt: "unat cnt = length (chunk m j)"
    unfolding cnt_def chunk_length word_less_nat_alt by (simp add: rest min_def)
  have il: "unat i < length es" using Suc.prems t n by simp
  define data where "data = edata (es ! unat i)"
  have data: "length data = 512" "take (length (chunk m j)) data = chunk m j"
    using w il m jk Suc.prems(3) by (simp_all add: data_def msg_at_def k(1))
  define dst' where "dst' = take (unat offset) dst @ take (unat cnt) data @ drop (unat offset + unat cnt) dst"
  have ld: "length dst = length m" using Suc.prems(5) lt by simp
  have dst': "dst' = take (512 * Suc j) m @ replicate (length m - 512 * Suc j) 0"
  proof -
    have "take (512 * j) dst = take (512 * j) m" using Suc.prems(5) lt by simp
    moreover have "drop (512 * j + length (chunk m j)) dst = replicate (length m - 512 * j - length (chunk m j)) 0"
      using Suc.prems(5) lt by simp
    moreover have "length m - 512 * j - length (chunk m j) = length m - 512 * Suc j"
      unfolding chunk_length min_def by arith
    ultimately show ?thesis unfolding dst'_def off cnt data(2) by (simp only: append_assoc [symmetric] chunk_take)
  qed
  have "unat cnt \<le> length data" "unat offset + unat cnt \<le> length dst"
    using lt by (simp_all add: cnt data ld off chunk_length)
  then have run: "deq_loop fuel i nextTail len es (int (length m)) offset dst =
      deq_loop fuel' ((i + 1) mod len) nextTail len es (int (length m)) (offset + cnt) dst'"
    unfolding deq_loop.simps [of fuel] Let_def rest_def [symmetric] cnt_def [symmetric] data_def [symmetric] dst'_def [symmetric]
    using ne fuel il by simp
  have i1: "unat ((i + 1) mod len) = (t + Suc j) mod n"
    using word_step [of i len] il Suc.prems n by (simp add: mod_Suc_eq)
  have o1: "Suc j < k \<longrightarrow> unat (offset + cnt) = 512 * Suc j"
  proof
    assume "Suc j < k"
    then have l: "512 * Suc j < length m" using k(1) nblocks_less by blast
    then have "unat cnt = 512" by (simp add: cnt chunk_length)
    moreover have "unat offset + 512 < 2 ^ 32" using l L off by simp
    ultimately show "unat (offset + cnt) = 512 * Suc j" using off by (simp add: unat_word_ariths)
  qed
  have dk: "d = k - Suc j" "Suc j \<le> k" "k - Suc j \<le> fuel'" using Suc.hyps(2) Suc.prems fuel jk by auto
  show ?case unfolding run by (rule Suc.hyps(1) [OF dk i1 o1 dst'])
qed

lemma DequeueBlocks_ok:
  assumes ok: "ring_ok (unat len) buf (m # ms)" and pos: "GetHeadTail (rb_head buf, rb_tail buf) = (hp, t, tf)"
  shows "GetMetadata (entries buf) t = Some (0, int (length m), int (nblocks (length m)) - 1) \<and>
    (\<exists>buf'. DequeueBlocks len buf t tf (int (length m)) (int (nblocks (length m)) - 1) (replicate (length m) 0) = Some (m, buf') \<and>
       ring_ok (unat len) buf' ms \<and> rb_head buf' = rb_head buf)"
proof -
  define n where "n = unat len"
  define k where "k = nblocks (length m)"
  obtain h hf t0 tf0 where g: "GetHeadTail (rb_head buf, rb_tail buf) = ((h, hf), t0, tf0)" "rb_head buf = enc_pos h hf"
    "rb_tail buf = enc_pos t0 tf0" "unat h < n" "unat t0 < n" "unat h = (unat t0 + used (m # ms)) mod n"
    "hf = tf0 \<longleftrightarrow> unat t0 + used (m # ms) < n" "msgs_at (entries buf) n (unat t0) (m # ms)"
    by (rule ring_positions [OF ok]) (use n_def in blast)
  have tt: "t0 = t" "tf0 = tf" using g(1) pos by simp_all
  have n: "2 \<le> n" "n < 2 ^ 31" "length (entries buf) = n" "\<forall>e \<in> set (entries buf). length (edata e) = 512" "used (m # ms) < n"
    using ok by (auto simp: ring_ok_def n_def)
  have m: "msg_at (entries buf) n (unat t) m" "msgs_at (entries buf) n ((unat t + k) mod n) ms" "m \<noteq> []" "length m \<le> 2 ^ 31 - 512"
    using g(8) tt by (simp_all add: k_def msg_at_def)
  have k: "0 < k" "k < n" using nblocks_bounds(1) m(3) n(5) by (simp_all add: k_def)
  have k512: "512 * k \<le> length m + 511" using nblocks_bounds(3) [of "length m"] m(3) by (simp add: k_def)
  have meta: "GetMetadata (entries buf) t = Some (0, int (length m), int k - 1)"
  proof -
    have "in_s32 ((int k - 1 + 1) * 512)" using k512 m(4) by (simp add: in_s32_def)
    moreover have "\<not> int (length m) > (int k - 1 + 1) * 512" using nblocks_bounds(2) [of "length m"] by (simp add: k_def)
    moreover have "int k - 1 \<noteq> - 1" "int (length m) \<noteq> - 1" using k by simp_all
    ultimately show ?thesis using m(1) g(5) tt n
      by (simp add: GetMetadata_def msg_at_def k_def BLOCKING_QUEUE_INVALID_META_VALUE_def Let_def)
  qed
  define nx nf where "nx = fst (next_pos len t tf (of_nat k))" and "nf = snd (next_pos len t tf (of_nat k))"
  have ln: "unat t < unat len" "unat len < 2 ^ 31" "k \<le> unat len" using g n k tt by (simp_all add: n_def)
  have nx: "unat nx = (unat t + k) mod n" "nf = ((n \<le> unat t + k) \<noteq> tf)"
    using next_pos_nat [OF ln(1,3,2)] by (simp_all add: nx_def nf_def n_def)
  have t0: "unat t = (unat t + 0) mod n" using ln by (simp add: n_def)
  have np: "next_pos len t tf (word_of_int (int k - 1 + 1)) = (nx, nf)" by (simp add: nx_def nf_def)
  have loop: "deq_loop n t nx len (entries buf) (int (length m)) 0 (replicate (length m) 0) = Some m"
    by (rule deq_loop_spec [OF n_def n(1,2,3) _ m(1) n(4) k_def k(2) _ _ t0 nx(1)]) (use ln k in \<open>simp_all add: n_def\<close>)
  define buf' where "buf' = buf\<lparr>rb_tail := enc_pos nx nf\<rparr>"
  have run: "DequeueBlocks len buf t tf (int (length m)) (int k - 1) (replicate (length m) 0) = Some (m, buf')"
    unfolding DequeueBlocks_def np n_def [symmetric] using loop by (simp add: SetTail_enc buf'_def)
  have u: "used (m # ms) = k + used ms" by (simp add: k_def)
  have hn: "unat h = (unat nx + used ms) mod n"
    unfolding nx(1) mod_add_left_eq using g(6) u tt by (simp add: add.assoc)
  have fl: "hf = nf \<longleftrightarrow> unat nx + used ms < n"
  proof -
    have tk: "(unat t + k) mod n = (if unat t + k < n then unat t + k else unat t + k - n)"
      using g(5) k tt by (auto simp: mod_if)
    show ?thesis using nx g(5,7) tt tk k n(5) u by (cases "unat t + k < n") auto
  qed
  have nxn: "unat nx < n" using nx(1) n by simp
  have "ring_ok n buf' ms"
    unfolding buf'_def by (rule ring_okI [of n _ h hf nx nf]) (use n g m(2) nx(1) nxn hn fl u in simp_all)
  then show ?thesis using meta run by (simp add: buf'_def n_def k_def)
qed

lemma ring_empty_iff:
  assumes "ring_ok n buf ms" "GetHeadTail (rb_head buf, rb_tail buf) = ((h, hf), t, tf)"
  shows "(hf = tf \<and> h = t) \<longleftrightarrow> ms = []"
proof -
  obtain h0 hf0 t0 tf0 where g: "GetHeadTail (rb_head buf, rb_tail buf) = ((h0, hf0), t0, tf0)" "unat t0 < n"
    "unat h0 = (unat t0 + used ms) mod n" "hf0 = tf0 \<longleftrightarrow> unat t0 + used ms < n" "msgs_at (entries buf) n (unat t0) ms"
    by (rule ring_positions [OF assms(1)]) blast
  have e: "h0 = h" "hf0 = hf" "t0 = t" "tf0 = tf" using g(1) assms(2) by simp_all
  have z: "used ms = 0 \<longleftrightarrow> ms = []"
  proof (cases ms)
    case (Cons m ns)
    then have "m \<noteq> []" using g(5) by (simp add: msg_at_def)
    then show ?thesis using Cons nblocks_bounds(1) [of "length m"] by simp
  qed simp
  show ?thesis
  proof
    assume "hf = tf \<and> h = t"
    then have "unat t + used ms < n" "unat t = (unat t + used ms) mod n" using g e by auto
    then show "ms = []" using z by simp
  next
    assume "ms = []"
    then show "hf = tf \<and> h = t" using g e by (simp add: word_unat_eq_iff)
  qed
qed


section \<open>Producer and consumer together\<close>

text \<open>
  A producer and a consumer on one ring. Each call has two steps: the last turn of its wait, a read of both
  positions that lets it go on, and the copy with the final write of its own position. Steps of the two
  sides interleave in any order, so a position that a wait has read may be old when the copy is made.
\<close>

record queue_sys =
  shared :: Ringbuffer
  writing :: "(u8 list \<times> u32 \<times> bool) option"
  reading :: "(u32 \<times> bool) option"
  sent :: "u8 list list"
  received :: "u8 list list"

inductive queue_step :: "u32 \<Rightarrow> queue_sys \<Rightarrow> queue_sys \<Rightarrow> bool" for len where
  wait_full: "queue_step len s (s\<lparr>writing := Some (m, head, headFlip)\<rparr>)"
    if "writing s = None" "m \<noteq> []" "length m \<le> 2 ^ 31 - 512" "entriesNr q = len"
      "o_pos ob = (rb_head (shared s), rb_tail (shared s))"
      "WaitFull q [ob] timeout (of_nat (length m)) = Some (0, q', head, headFlip)"
| put: "queue_step len s (s\<lparr>shared := buf', writing := None, sent := sent s @ [m]\<rparr>)"
    if "writing s = Some (m, head, headFlip)"
      "EnqueueBlocks len (shared s) head headFlip m (int (length m)) = Some buf'"
| wait_empty: "queue_step len s (s\<lparr>reading := Some (tp, tailFlip)\<rparr>)"
    if "reading s = None" "o_pos ob = (rb_head (shared s), rb_tail (shared s))"
      "WaitEmpty q [ob] timeout = Some (0, q', tp, tailFlip)"
| get: "queue_step len s (s\<lparr>shared := buf', reading := None, received := received s @ [m]\<rparr>)"
    if "reading s = Some (tp, tailFlip)" "GetMetadata (entries (shared s)) tp = Some (0, sz, remain)"
      "AllocateDequeueBuffer sz True = Some dst"
      "DequeueBlocks len (shared s) tp tailFlip sz remain dst = Some (m, buf')"

inductive_cases queue_stepE: "queue_step len s s'"

text \<open>The ring as the two sides create it over a memory of \<open>memSize\<close> bytes.\<close>

definition queue_start :: "u32 \<Rightarrow> queue_sys \<Rightarrow> bool" where
  "queue_start len s \<longleftrightarrow>
     (\<exists>mem memSize p c conc1 conc2 mem1 mem2. memSize < 2 ^ 31 * sizeof_Entry \<and>
        BlockingQueueCreate (Some mem) memSize False True conc1 True 0 0 = (0, Some p, Some mem1) \<and>
        BlockingQueueCreate (Some mem1) memSize False False conc2 True 0 0 = (0, Some c, Some mem2) \<and>
        len = entriesNr p \<and> s = \<lparr>shared = mem2, writing = None, reading = None, sent = [], received = []\<rparr>)"

inductive queue_reach :: "u32 \<Rightarrow> queue_sys \<Rightarrow> bool" for len where
  start: "queue_start len s \<Longrightarrow> queue_reach len s"
| step: "queue_reach len s \<Longrightarrow> queue_step len s s' \<Longrightarrow> queue_reach len s'"

definition queue_inv :: "u32 \<Rightarrow> queue_sys \<Rightarrow> bool" where
  "queue_inv len s \<longleftrightarrow>
     (\<exists>ms. sent s = received s @ ms \<and> ring_ok (unat len) (shared s) ms \<and>
        (case writing s of None \<Rightarrow> True | Some (m, h, hf) \<Rightarrow>
           m \<noteq> [] \<and> length m \<le> 2 ^ 31 - 512 \<and> used ms + nblocks (length m) < unat len \<and>
           fst (GetHeadTail (rb_head (shared s), rb_tail (shared s))) = (h, hf)) \<and>
        (case reading s of None \<Rightarrow> True | Some (t, tf) \<Rightarrow>
           ms \<noteq> [] \<and> snd (GetHeadTail (rb_head (shared s), rb_tail (shared s))) = (t, tf)))"

lemma queue_invE:
  assumes "queue_inv len s"
  obtains ms where "sent s = received s @ ms" "ring_ok (unat len) (shared s) ms"
    "\<forall>m h hf. writing s = Some (m, h, hf) \<longrightarrow> m \<noteq> [] \<and> length m \<le> 2 ^ 31 - 512 \<and> used ms + nblocks (length m) < unat len \<and>
       fst (GetHeadTail (rb_head (shared s), rb_tail (shared s))) = (h, hf)"
    "\<forall>t tf. reading s = Some (t, tf) \<longrightarrow>
       ms \<noteq> [] \<and> snd (GetHeadTail (rb_head (shared s), rb_tail (shared s))) = (t, tf)"
  using assms by (force simp: queue_inv_def split: option.splits prod.splits)

lemma WaitFull_ready:
  assumes w: "WaitFull q [ob] timeout (of_nat (length m)) = Some (0, q', h, hf)" and len: "entriesNr q = len"
    and ok: "ring_ok (unat len) buf ms" and m: "length m \<le> 2 ^ 31 - 512"
    and pos: "o_pos ob = (rb_head buf, rb_tail buf)"
  shows "used ms + nblocks (length m) < unat len \<and> fst (GetHeadTail (rb_head buf, rb_tail buf)) = (h, hf)"
proof -
  define n where "n = blocks_of (of_nat (length m))"
  have n: "unat n = nblocks (length m)" unfolding n_def using m by (intro blocks_of_nat) simp
  obtain h0 hf0 tp where g: "GetHeadTail (rb_head buf, rb_tail buf) = ((h0, hf0), tp)" by (metis surj_pair)
  have I: "BLOCKING_QUEUE_INTERRUPTED \<noteq> 0" by (simp add: BLOCKING_QUEUE_INTERRUPTED_def)
  have le: "\<not> n > len" using w len by (auto simp: WaitFull_def n_def [symmetric] Let_def split: if_splits)
  then have "WaitFull_loop n [ob] q timeout = Some (0, q', h, hf)"
    using w len by (simp add: WaitFull_def n_def [symmetric])
  then have ready: "\<not> is_full len n (rb_head buf, rb_tail buf)" "h = h0" "hf = hf0"
    using I g pos len by (auto split: if_splits prod.splits)
  have "n = of_nat (nblocks (length m))" by (simp flip: n)
  then have "\<not> is_full len (of_nat (nblocks (length m))) (rb_head buf, rb_tail buf)" using ready by simp
  moreover have "nblocks (length m) \<le> unat len" using le n by (simp add: word_le_nat_alt not_less)
  ultimately show ?thesis using is_full_iff [OF ok] ready g by auto
qed

lemma WaitEmpty_ready:
  assumes w: "WaitEmpty q [ob] timeout = Some (0, q', t, tf)" and ok: "ring_ok n buf ms" and pos: "o_pos ob = (rb_head buf, rb_tail buf)"
  shows "ms \<noteq> [] \<and> snd (GetHeadTail (rb_head buf, rb_tail buf)) = (t, tf)"
proof -
  obtain h hf t0 tf0 where g: "GetHeadTail (rb_head buf, rb_tail buf) = ((h, hf), t0, tf0)" by (metis surj_pair)
  have I: "BLOCKING_QUEUE_INTERRUPTED \<noteq> 0" by (simp add: BLOCKING_QUEUE_INTERRUPTED_def)
  have "\<not> (hf = tf0 \<and> h = t0) \<and> t = t0 \<and> tf = tf0"
    using w I g pos by (auto split: if_splits prod.splits)
  then show ?thesis using ring_empty_iff [OF ok g] g by auto
qed

lemma zero_ring_ok:
  assumes "2 \<le> n" "n < 2 ^ 31"
  shows "ring_ok n \<lparr>rb_head = enc_pos 0 False, rb_tail = enc_pos 0 False, entries = replicate n zero_entry\<rparr> []"
  using assms unfolding ring_ok_def
  by (intro conjI exI [of _ 0] exI [of _ False])
     (auto simp: zero_entry_def CONFIG_BLOCKING_QUEUE_ENTRY_SIZE_def)

lemma queue_start_inv: "queue_start len s \<Longrightarrow> queue_inv len s"
proof -
  assume "queue_start len s"
  then obtain mem memSize p c conc1 conc2 mem1 mem2 where sz: "memSize < 2 ^ 31 * sizeof_Entry"
    and p: "BlockingQueueCreate (Some mem) memSize False True conc1 True 0 0 = (0, Some p, Some mem1)"
    and c: "BlockingQueueCreate (Some mem1) memSize False False conc2 True 0 0 = (0, Some c, Some mem2)"
    and s: "len = entriesNr p" "s = \<lparr>shared = mem2, writing = None, reading = None, sent = [], received = []\<rparr>"
    unfolding queue_start_def by blast
  define n where "n = (memSize - sizeof_Ringbuffer) div sizeof_Entry"
  have big: "\<not> memSize < sizeof_Ringbuffer + MIN_ENTRY_CNT * sizeof_Entry"
    using p by (auto simp: BlockingQueueCreate_def InitRingbuffer_def Let_def split: if_splits)
  have n: "2 \<le> n" "n < 2 ^ 31"
    using big sz by (auto simp: n_def sizeof_Ringbuffer_def sizeof_Entry_def MIN_ENTRY_CNT_def)
  have len: "len = of_nat n" and mem1: "mem1 = \<lparr>rb_head = enc_pos 0 False, rb_tail = rb_tail mem, entries = replicate n zero_entry\<rparr>"
    using p big s by (auto simp: BlockingQueueCreate_def InitRingbuffer_def Let_def n_def SetHead_enc split: if_splits)
  have mem2: "mem2 = mem1\<lparr>rb_tail := enc_pos 0 False\<rparr>"
    using c big by (auto simp: BlockingQueueCreate_def InitRingbuffer_def Let_def SetTail_enc split: if_splits)
  have "unat len = n" using n unfolding len by (intro unat_of_nat32) simp
  then have "ring_ok (unat len) (shared s) []" using zero_ring_ok [OF n] by (simp add: s mem2 mem1)
  then show ?thesis by (simp add: queue_inv_def s)
qed

lemma queue_step_inv:
  assumes "queue_step len s s'" "queue_inv len s"
  shows "queue_inv len s'"
proof -
  obtain ms where ms: "sent s = received s @ ms" "ring_ok (unat len) (shared s) ms"
    and wr': "\<forall>m h hf. writing s = Some (m, h, hf) \<longrightarrow> m \<noteq> [] \<and> length m \<le> 2 ^ 31 - 512 \<and> used ms + nblocks (length m) < unat len \<and>
        fst (GetHeadTail (rb_head (shared s), rb_tail (shared s))) = (h, hf)"
    and rd': "\<forall>t tf. reading s = Some (t, tf) \<longrightarrow>
        ms \<noteq> [] \<and> snd (GetHeadTail (rb_head (shared s), rb_tail (shared s))) = (t, tf)"
    by (rule queue_invE [OF assms(2)]) blast
  note wr = wr' [rule_format] and rd = rd' [rule_format]
  from assms(1) show ?thesis
  proof cases
    case (wait_full m q ob timeout q' head headFlip)
    from WaitFull_ready [OF wait_full(7,5) ms(2) wait_full(4,6)] show ?thesis
      using wait_full ms rd by (auto simp: queue_inv_def split: option.splits)
  next
    case (put m head headFlip buf')
    obtain tp where g: "GetHeadTail (rb_head (shared s), rb_tail (shared s)) = ((head, headFlip), tp)"
      using wr [OF put(2)] by (metis prod.collapse)
    obtain buf2 where e: "EnqueueBlocks len (shared s) head headFlip m (int (length m)) = Some buf2"
      "ring_ok (unat len) buf2 (ms @ [m])" "rb_tail buf2 = rb_tail (shared s)"
      using EnqueueBlocks_ok [OF ms(2) _ _ g] wr [OF put(2)] by blast
    have "snd (GetHeadTail (rb_head buf2, rb_tail buf2)) = snd (GetHeadTail (rb_head (shared s), rb_tail (shared s)))"
      by (simp add: GetHeadTail_bits e(3))
    then show ?thesis using put e ms rd
      by (auto simp: queue_inv_def split: option.splits intro!: exI [of _ "ms @ [m]"])
  next
    case (wait_empty ob q timeout q' tp tailFlip)
    from WaitEmpty_ready [OF wait_empty(4) ms(2) wait_empty(3)] show ?thesis
      using wait_empty ms wr by (auto simp: queue_inv_def split: option.splits)
  next
    case (get tp tailFlip sz remain dst m buf')
    obtain hp where g: "GetHeadTail (rb_head (shared s), rb_tail (shared s)) = (hp, tp, tailFlip)"
      using rd [OF get(2)] by (metis prod.collapse)
    obtain m0 ms' where c: "ms = m0 # ms'" using rd [OF get(2)] by (cases ms) auto
    from DequeueBlocks_ok [OF ms(2) [unfolded c] g] obtain buf2 where
      meta: "GetMetadata (entries (shared s)) tp = Some (0, int (length m0), int (nblocks (length m0)) - 1)"
      and d: "DequeueBlocks len (shared s) tp tailFlip (int (length m0)) (int (nblocks (length m0)) - 1) (replicate (length m0) 0) = Some (m0, buf2)"
        "ring_ok (unat len) buf2 ms'" "rb_head buf2 = rb_head (shared s)" by blast
    have eq: "m = m0" "buf' = buf2" using get meta d(1) by (auto simp: AllocateDequeueBuffer_def)
    have "fst (GetHeadTail (rb_head buf2, rb_tail buf2)) = fst (GetHeadTail (rb_head (shared s), rb_tail (shared s)))"
      by (simp add: GetHeadTail_bits d(3))
    moreover have "used ms' \<le> used ms" using c by simp
    ultimately show ?thesis using get eq d(2) ms c wr
      by (fastforce simp: queue_inv_def split: option.splits prod.splits intro!: exI [of _ ms'])
  qed
qed

lemma queue_reach_inv: "queue_reach len s \<Longrightarrow> queue_inv len s"
  by (induction rule: queue_reach.induct) (auto intro: queue_start_inv queue_step_inv)

end
