(* ===== verification/Queue_Props.thy ===== *)
theory Queue_Props
  imports Queue_Fifo "HOL-Library.Sublist"
begin

text \<open>
  The properties of the message queue: it is a lossless first-in-first-out channel for every interleaving
  of a producer and a consumer, and waits with a timeout end. The one exception is a message that needs
  every entry of the ring, which the size check lets in and for which no wait ends.
\<close>

section \<open>How long a wait lasts\<close>

definition wait_turns :: "BlockingQueue \<Rightarrow> int \<Rightarrow> nat" where
  "wait_turns q timeout = unat (blockingAcc q) + nat timeout div 100"

lemma Blocking_progress:
  assumes "Blocking q timeout sleep = (0, q', timeout')" "0 \<le> timeout"
  shows "0 \<le> timeout' \<and> Suc (wait_turns q' timeout') = wait_turns q timeout"
proof (cases "blockingAcc q = 0")
  case True
  then have t: "q' = q" "timeout' = timeout - 100" "100 \<le> timeout"
    using assms by (auto simp: Blocking_def CONFIG_BLOCKING_QUEUE_SLEEP_US_def ETIMEDOUT_def split: if_splits)
  then have "nat timeout = nat timeout' + 100" by (simp add: nat_diff_distrib)
  then show ?thesis using t by (simp add: wait_turns_def)
next
  case False
  then have t: "q' = q\<lparr>blockingAcc := blockingAcc q - 1\<rparr>" "timeout' = timeout"
    using assms by (auto simp: Blocking_def CONFIG_BLOCKING_QUEUE_SLEEP_US_def ETIMEDOUT_def split: if_splits)
  have "unat (blockingAcc q - 1) = unat (blockingAcc q) - 1" using False by (rule unat_minus_one)
  moreover have "0 < unat (blockingAcc q)" using False by (simp add: unat_gt_0)
  ultimately show ?thesis using t assms(2) by (simp add: wait_turns_def)
qed

lemma WaitFull_loop_ends:
  "0 \<le> timeout \<Longrightarrow> wait_turns q timeout < length os \<Longrightarrow> WaitFull_loop n os q timeout \<noteq> None"
proof (induction n os q timeout rule: WaitFull_loop.induct)
  case (2 n ob os q timeout)
  obtain h hf tp where g: "GetHeadTail (o_pos ob) = ((h, hf), tp)" by (metis surj_pair)
  obtain ret q' t' where b: "Blocking q timeout (o_usleep ob) = (ret, q', t')" by (metis surj_pair)
  show ?case
  proof (cases "\<not> o_interrupt ob \<and> is_full (entriesNr q) n (o_pos ob) \<and> ret = 0")
    case True
    then have p: "0 \<le> t' \<and> Suc (wait_turns q' t') = wait_turns q timeout" using Blocking_progress b "2.prems"(1) by blast
    have "WaitFull_loop n os q' t' \<noteq> None"
      by (rule "2.IH" [OF g [symmetric] refl]) (use True b p "2.prems"(2) in auto)
    then show ?thesis using True g b by simp
  next
    case False
    then show ?thesis using g b by auto
  qed
qed simp

lemma WaitEmpty_ends:
  "0 \<le> timeout \<Longrightarrow> wait_turns q timeout < length os \<Longrightarrow> WaitEmpty q os timeout \<noteq> None"
proof (induction q os timeout rule: WaitEmpty.induct)
  case (2 q ob os timeout)
  obtain h hf t tf where g: "GetHeadTail (o_pos ob) = ((h, hf), t, tf)" by (metis surj_pair)
  obtain ret q' t' where b: "Blocking q timeout (o_usleep ob) = (ret, q', t')" by (metis surj_pair)
  show ?case
  proof (cases "\<not> o_interrupt ob \<and> (hf = tf \<and> h = t) \<and> ret = 0")
    case True
    then have p: "0 \<le> t' \<and> Suc (wait_turns q' t') = wait_turns q timeout" using Blocking_progress b "2.prems"(1) by blast
    have "WaitEmpty q' os t' \<noteq> None"
      using "2.IH" g b True p "2.prems"(2) by auto
    then show ?thesis using True g b by simp
  next
    case False
    then show ?thesis using g b by auto
  qed
qed simp

section \<open>The properties\<close>



definition demo_queue :: "bool \<Rightarrow> BlockingQueue" where
  "demo_queue producer = \<lparr>isProducer = producer, interrupt = False, concurrent = False,
     blockingAcc = CONFIG_BLOCKING_QUEUE_ACC_CNT, refCnt = 1, entriesNr = 2\<rparr>"







text \<open>
  C19. A wait with a timeout ends: after at most the remaining busy turns (\<open>blockingAcc\<close>) plus one turn for
  each 100 microseconds of the timeout, the loops of the producer and of the consumer have returned, whatever
  they observe.
\<close>

theorem timed_waits_end:
  assumes "0 \<le> timeout" "unat (blockingAcc q) + nat timeout div 100 < length os"
  shows "WaitFull q os timeout srcSize \<noteq> None \<and> WaitEmpty q os timeout \<noteq> None"
proof -
  have "wait_turns q timeout < length os" using assms(2) by (simp add: wait_turns_def)
  then have "WaitFull_loop (blocks_of srcSize) os q timeout \<noteq> None" "WaitEmpty q os timeout \<noteq> None"
    using WaitFull_loop_ends WaitEmpty_ends assms(1) by blast+
  then show ?thesis unfolding WaitFull_def Let_def by (simp del: not_None_eq)
qed

lemma timed_waits_end_witness:
  "WaitFull (demo_queue True) (replicate 2006 \<lparr>o_interrupt = False, o_pos = (0, 0), o_usleep = 0\<rparr>) 500 1024 \<noteq> None \<and>
   WaitEmpty (demo_queue True) (replicate 2006 \<lparr>o_interrupt = False, o_pos = (0, 0), o_usleep = 0\<rparr>) 500 \<noteq> None"
  by (rule timed_waits_end) (simp_all add: demo_queue_def CONFIG_BLOCKING_QUEUE_ACC_CNT_def)

text \<open>
  C31. A message that needs every entry of the ring passes both size checks, those of the call
  and of the wait, yet without a timeout or an interrupt its wait never ends, whatever valid states of the
  ring it observes, the empty one included: one entry always stays free.
\<close>

theorem message_of_all_entries_waits_forever:
  assumes "srcSize = entriesNr q * 512" "unat (entriesNr q) * 512 < 2 ^ 32"
    and "\<forall>ob \<in> set os. \<not> o_interrupt ob \<and> o_usleep ob = 0 \<and>
      (\<exists>buf ms. ring_ok (unat (entriesNr q)) buf ms \<and> o_pos ob = (rb_head buf, rb_tail buf))"
  shows "\<not> srcSize > entriesNr q * 512 \<and> \<not> blocks_of srcSize > entriesNr q \<and> WaitFull q os (- 1) srcSize = None"
proof -
  have sz: "unat srcSize = unat (entriesNr q) * 512" using assms(1,2) by (simp add: unat_word_ariths)
  have n: "blocks_of srcSize = entriesNr q"
    by (simp add: blocks_of_def word_unat_eq_iff unat_div unat_mod word_arith_nat_mod sz)
  have "WaitFull_loop (entriesNr q) os q (- 1) = None"
    using assms(3)
  proof (induction os arbitrary: q)
    case (Cons ob os)
    obtain h hf tp where g: "GetHeadTail (o_pos ob) = ((h, hf), tp)" by (metis surj_pair)
    have "is_full (entriesNr q) (entriesNr q) (o_pos ob)"
      using is_full_iff [of "entriesNr q" _ _ "unat (entriesNr q)"] Cons.prems by auto
    moreover obtain q' where q': "Blocking q (- 1) (o_usleep ob) = (0, q', - 1)" "entriesNr q' = entriesNr q"
      using Cons.prems by (cases "blockingAcc q = 0") (simp_all add: Blocking_def)
    moreover have "WaitFull_loop (entriesNr q') os q' (- 1) = None"
      by (rule Cons.IH) (use Cons.prems in \<open>simp add: q'(2)\<close>)
    ultimately show ?case using g Cons.prems by simp
  qed simp
  then show ?thesis using n assms(1) by (simp add: WaitFull_def)
qed

lemma message_of_all_entries_waits_forever_witness:
  "WaitFull (demo_queue True) [\<lparr>o_interrupt = False, o_pos = (0, 0), o_usleep = 0\<rparr>] (- 1) 1024 = None"
proof -
  have "ring_ok 2 \<lparr>rb_head = enc_pos 0 False, rb_tail = enc_pos 0 False, entries = replicate 2 zero_entry\<rparr> []"
    by (rule zero_ring_ok) simp_all
  then show ?thesis
    using message_of_all_entries_waits_forever [of 1024 "demo_queue True" "[\<lparr>o_interrupt = False, o_pos = (0, 0), o_usleep = 0\<rparr>]"]
    by (fastforce simp: demo_queue_def enc_pos_def)
qed

end
