(* ===== verification/Session_Pool.thy ===== *)
theory Session_Pool
  imports Client_Api
begin

text \<open>
  The session pool, \<^verbatim>\<open>src/libteec_vendor/tee_session_pool.c\<close>: a set of sessions to one application
  that many threads share. A semaphore counts the free sessions and a bitmap, under a lock, names them (a set
  bit is a free session). A background thread opens the sessions after the first one.

  A pool is a record; its sessions are objects of the client library's world, at the addresses
  \<open>session_at\<close>, and all calls of the client library are those of \<open>Client_State\<close>. The bytes that
  \<^verbatim>\<open>malloc\<close> returns for the bitmap and for the sessions are parameters, because the code does not initialise
  them. A call that waits on the semaphore while it is 0 has no result, \<^const>\<open>None\<close>. The interleavings of the
  threads are the step relation \<open>pool_step\<close>; the parts of a function between two synchronisation points are
  the definitions \<open>open_slot\<close>, \<open>take_slot\<close> and \<open>put_slot\<close>, which the whole functions use too.
\<close>

section \<open>Data\<close>

definition SESSION_POOL_CAP_MIN :: u32 where "SESSION_POOL_CAP_MIN = 5"
definition SESSION_POOL_CAP_MAX :: u32 where "SESSION_POOL_CAP_MAX = 100"
definition sizeof_SessionInfo :: u64 where "sizeof_SessionInfo = 56"

record SessionPool =
  sp_context :: ptr
  sp_uuid :: TEEC_UUID
  poolSize :: u32
  sessionsInfo :: ptr
  isDead :: "bool list"
  opened :: u32
  inuse :: u32
  keys :: nat
  usage :: "u8 list"
  usageSize :: u32

definition session_at :: "SessionPool \<Rightarrow> nat \<Rightarrow> ptr" where
  "session_at sp i = sessionsInfo sp + of_nat i * sizeof_SessionInfo"

section \<open>Allocation\<close>

text \<open>An array of sessions: the answer of the system is taken when all its addresses are free.\<close>

definition malloc_sessions :: "(nat \<Rightarrow> TEEC_Session) \<Rightarrow> nat \<Rightarrow> world \<Rightarrow> ptr \<times> world" where
  "malloc_sessions garbage n w =
     (case ask w of (a, w1) \<Rightarrow>
        let p = word_of_int a; addr = (\<lambda>i. p + of_nat i * sizeof_SessionInfo) in
        if p = NULL_ptr \<or> list_ex (\<lambda>i. in_use w (addr i)) [0..<n] then (NULL_ptr, w1)
        else (p, w1\<lparr>w_sessions := fold (\<lambda>i m. m(addr i \<mapsto> garbage i)) [0..<n] (w_sessions w1)\<rparr>))"

definition free_sessions :: "SessionPool \<Rightarrow> world \<Rightarrow> world" where
  "free_sessions sp w =
     log_call (Free (sessionsInfo sp))
       (w\<lparr>w_sessions := fold (\<lambda>i m. m(session_at sp i := None)) [0..<unat (poolSize sp)] (w_sessions w)\<rparr>)"

text \<open>
  The pool itself and the bitmap are values of the record; \<open>ask\<close> says whether their allocations succeed
  (0: no memory). The result is \<^const>\<open>None\<close> when an allocation failed; then the others have been freed.
\<close>

definition FreeSessionPool :: "SessionPool \<Rightarrow> world \<Rightarrow> world" where
  "FreeSessionPool sp w = (if sessionsInfo sp \<noteq> NULL_ptr then free_sessions sp w else w)"

definition AllocSessionPool ::
  "u8 list \<Rightarrow> (nat \<Rightarrow> TEEC_Session) \<Rightarrow> ptr \<Rightarrow> TEEC_UUID \<Rightarrow> u32 \<Rightarrow> world \<Rightarrow> SessionPool option \<times> world" where
  "AllocSessionPool bits garbage context destination size0 w =
     (case ask w of (pool_ok, w1) \<Rightarrow>
      if pool_ok = 0 then (None, w1)
      else case malloc_sessions garbage (unat size0) w1 of (info, w2) \<Rightarrow>
        let usageSize0 = size0 div 1 + (if size0 mod 1 \<noteq> 0 then 1 else 0) in
        case ask w2 of (usage_ok, w3) \<Rightarrow>
          let sp = \<lparr>sp_context = context, sp_uuid = destination, poolSize = size0, sessionsInfo = info,
                    isDead = replicate (unat size0) False, opened = 0, inuse = 0, keys = 0,
                    usage = take (unat usageSize0) (bits @ replicate (unat usageSize0) 0), usageSize = usageSize0\<rparr>
          in if info = NULL_ptr \<or> usage_ok = 0 then (None, FreeSessionPool sp w3)
             else (Some sp, w3))"

section \<open>Opening the sessions\<close>

definition set_usage :: "nat \<Rightarrow> SessionPool \<Rightarrow> SessionPool" where
  "set_usage i sp = sp\<lparr>usage := the (SetBit (of_nat i) (usageSize sp) (Some (usage sp)))\<rparr>"

text \<open>One turn of the loop up to the end of its critical section; \<open>op\<close> is the address of the local operation.\<close>

definition open_slot ::
  "load_env \<Rightarrow> u32 \<Rightarrow> ptr \<Rightarrow> nat \<Rightarrow> SessionPool \<Rightarrow> world \<Rightarrow> TEEC_Result \<times> SessionPool \<times> world" where
  "open_slot env garbage op i sp w =
     (case TEEC_OpenSession env garbage (sp_context sp) (session_at sp i) (Some (sp_uuid sp))
             TEEC_LOGIN_IDENTIFY NULL_ptr op (upd_op op (\<lambda>p. p\<lparr>started := 1\<rparr>) w) of (ret, origin, w1) \<Rightarrow>
        if ret \<noteq> TEEC_SUCCESS then (ret, sp, w1)
        else (ret, (set_usage i (sp\<lparr>isDead := (isDead sp)[i := False]\<rparr>))\<lparr>opened := opened sp + 1\<rparr>, w1))"

definition post_key :: "SessionPool \<Rightarrow> SessionPool" where
  "post_key sp = sp\<lparr>keys := keys sp + 1\<rparr>"

text \<open>The loop over \<open>n\<close> sessions from number \<open>i\<close> on.\<close>

fun open_loop ::
  "load_env \<Rightarrow> u32 \<Rightarrow> ptr \<Rightarrow> nat \<Rightarrow> nat \<Rightarrow> TEEC_Result \<Rightarrow> SessionPool \<Rightarrow> world \<Rightarrow> TEEC_Result \<times> SessionPool \<times> world" where
  "open_loop env garbage op i 0 ret sp w = (ret, sp, w)"
| "open_loop env garbage op i (Suc n) ret sp w =
     (case open_slot env garbage op i sp w of (ret', sp', w') \<Rightarrow>
        if ret' \<noteq> TEEC_SUCCESS then (ret', sp', w')
        else open_loop env garbage op (Suc i) n ret' (post_key sp') w')"

definition CreateSessionsFn ::
  "load_env \<Rightarrow> u32 \<Rightarrow> ptr \<Rightarrow> u32 \<Rightarrow> SessionPool \<Rightarrow> world \<Rightarrow> TEEC_Result \<times> SessionPool \<times> world" where
  "CreateSessionsFn env garbage op reqCount sp w =
     (case open_loop env garbage op (unat (opened sp)) (unat reqCount) TEEC_ERROR_GENERIC sp
             (w\<lparr>app_ops := (app_ops w)(op \<mapsto> nil_op)\<rparr>) of (ret, sp', w') \<Rightarrow>
        (ret, sp', w'\<lparr>app_ops := (app_ops w')(op := None)\<rparr>))"

section \<open>Destroying and creating a pool\<close>

fun close_loop :: "SessionPool \<Rightarrow> nat list \<Rightarrow> world \<Rightarrow> world" where
  "close_loop sp [] w = w"
| "close_loop sp (i # is) w = close_loop sp is (TEEC_CloseSession (session_at sp i) w)"

definition TEEC_SessionPoolDestroy :: "SessionPool option \<Rightarrow> world \<Rightarrow> world" where
  "TEEC_SessionPoolDestroy sessionPool w =
     (case sessionPool of
        None \<Rightarrow> w
      | Some sp \<Rightarrow>
        if sessionsInfo sp = NULL_ptr then w
        else FreeSessionPool sp (close_loop sp [0..<unat (opened sp)] w))"

text \<open>
  The result is the return value, the pool, and the count of sessions left to the background thread, which runs
  \<open>CreateSessionsFn\<close> on them. \<open>bits\<close> and \<open>sess\<close> are what \<^verbatim>\<open>malloc\<close> returned for the bitmap and the sessions.
\<close>

definition TEEC_SessionPoolCreate ::
  "load_env \<Rightarrow> u32 \<Rightarrow> u8 list \<Rightarrow> (nat \<Rightarrow> TEEC_Session) \<Rightarrow> ptr \<Rightarrow> ptr \<Rightarrow> TEEC_UUID option \<Rightarrow> bool \<Rightarrow> u32 \<Rightarrow> world
   \<Rightarrow> TEEC_Result \<times> (SessionPool \<times> u32) option \<times> world" where
  "TEEC_SessionPoolCreate env garbage bits sess op context destination out_null size0 w =
     (case destination of
        None \<Rightarrow> (TEEC_ERROR_BAD_PARAMETERS, None, w)
      | Some dest \<Rightarrow>
        if context = NULL_ptr \<or> out_null then (TEEC_ERROR_BAD_PARAMETERS, None, w)
        else if size0 > SESSION_POOL_CAP_MAX \<or> size0 < SESSION_POOL_CAP_MIN then (TEEC_ERROR_BAD_PARAMETERS, None, w)
        else case AllocSessionPool bits sess context dest size0 w of (pool, w1) \<Rightarrow>
          (case pool of
             None \<Rightarrow> (TEEC_ERROR_OUT_OF_MEMORY, None, TEEC_SessionPoolDestroy None w1)
           | Some sp \<Rightarrow>
             case ask w1 of (req_ok, w2) \<Rightarrow>
             if req_ok = 0 then (TEEC_ERROR_OUT_OF_MEMORY, None, TEEC_SessionPoolDestroy (Some sp) w2)
             else case CreateSessionsFn env garbage op 1 sp w2 of (ret, sp1, w3) \<Rightarrow>
               if ret \<noteq> TEEC_SUCCESS then (ret, None, TEEC_SessionPoolDestroy (Some sp1) w3)
               else case ask w3 of (create_rc, w4) \<Rightarrow>
                 if create_rc \<noteq> 0 then (TEEC_ERROR_GENERIC, None, TEEC_SessionPoolDestroy (Some sp1) w4)
                 else (TEEC_SUCCESS, Some (sp1, poolSize sp1 - 1), w4)))"

section \<open>Using the pool\<close>

text \<open>The two critical sections.\<close>

definition take_slot :: "SessionPool \<Rightarrow> int \<times> SessionPool" where
  "take_slot sp =
     (case GetAndCleartBit (Some (usage sp)) (usageSize sp) of (used, bm) \<Rightarrow>
        let sp' = sp\<lparr>usage := the bm\<rparr>
        in (used, if used \<noteq> - 1 then sp'\<lparr>inuse := inuse sp' + 1\<rparr> else sp'))"

definition put_slot :: "nat \<Rightarrow> SessionPool \<Rightarrow> SessionPool" where
  "put_slot i sp = (set_usage i sp)\<lparr>inuse := inuse sp - 1\<rparr>"

definition sem_wait :: "SessionPool \<Rightarrow> SessionPool option" where
  "sem_wait sp = (if keys sp = 0 then None else Some (sp\<lparr>keys := keys sp - 1\<rparr>))"

definition GetSessionFromPool :: "SessionPool \<Rightarrow> (ptr \<times> nat \<times> SessionPool) option" where
  "GetSessionFromPool sp =
     (case sem_wait sp of
        None \<Rightarrow> None
      | Some sp1 \<Rightarrow>
        case take_slot sp1 of (used, sp2) \<Rightarrow>
          if used = - 1 then Some (NULL_ptr, 0, post_key sp2)
          else Some (session_at sp2 (nat used), nat used, sp2))"

definition PutSessionToPool :: "nat \<Rightarrow> SessionPool \<Rightarrow> SessionPool" where
  "PutSessionToPool i sp = post_key (put_slot i sp)"

text \<open>What is done with the session after the command returned \<open>ret\<close>, up to the next synchronisation.\<close>

definition mark_dead :: "nat \<Rightarrow> SessionPool \<Rightarrow> SessionPool" where
  "mark_dead i sp = sp\<lparr>isDead := (isDead sp)[i := True]\<rparr>"

definition TEEC_SessionPoolInvoke ::
  "SessionPool option \<Rightarrow> u32 \<Rightarrow> ptr \<Rightarrow> world \<Rightarrow> (TEEC_Result \<times> SessionPool option \<times> world) option" where
  "TEEC_SessionPoolInvoke sessionPool commandID operation w =
     (case sessionPool of
        None \<Rightarrow> Some (TEEC_ERROR_BAD_PARAMETERS, sessionPool, w)
      | Some sp \<Rightarrow>
        if sessionsInfo sp = NULL_ptr then Some (TEEC_ERROR_BAD_PARAMETERS, sessionPool, w)
        else (case GetSessionFromPool sp of
            None \<Rightarrow> None
          | Some (session, i, sp1) \<Rightarrow>
            if session = NULL_ptr then Some (TEEC_ERROR_BAD_PARAMETERS, Some sp1, w)
            else (case TEEC_InvokeCommand session commandID operation w of (ret, origin, w1) \<Rightarrow>
              Some (ret, Some (if ret = TEEC_ERROR_TARGET_DEAD then mark_dead i sp1 else PutSessionToPool i sp1), w1))))"

text \<open>The three out-parameters, \<^const>\<open>None\<close> when they are not written.\<close>

definition TEEC_SessionPoolQuery :: "SessionPool option \<Rightarrow> (u32 \<times> u32 \<times> u32) option" where
  "TEEC_SessionPoolQuery sessionPool = map_option (\<lambda>sp. (poolSize sp, opened sp, inuse sp)) sessionPool"

end
