(* ===== verification/Client_Marks.thy ===== *)
theory Client_Marks
  imports Client_State
begin

text \<open>
  A wrong access to an object of the application stays marked: no function that opens a session resets
  \<open>app_fault\<close>. One lemma for each function, as a forward rule from its result.
\<close>

named_theorems marks \<open>an operation keeps the mark of a wrong access\<close>

lemma marks_use [simp]:
  "app_fault (use_ctx a w) = app_fault w" "app_fault (use_shm a w) = app_fault w"
  "app_fault (faulty w) = app_fault w" "app_fault (app_faulty w)" "app_fault (log_call c w) = app_fault w"
  "app_fault (use_sess a w) = (app_fault w \<or> w_sessions w a = None)"
  "app_fault (use_op a w) = (app_fault w \<or> app_ops w a = None)"
  "app_fault (use_app_ctx a w) = (app_fault w \<or> app_ctxs w a = None)"
  "app_fault (use_app_shm a w) = (app_fault w \<or> app_shms w a = None)"
  "app_fault (upd_ctx a f w) = app_fault w" "app_fault (upd_shm a g w) = app_fault w"
  "app_fault (upd_sess a h w) = (app_fault w \<or> w_sessions w a = None)"
  "app_fault (upd_op a k w) = (app_fault w \<or> app_ops w a = None)"
  by (auto simp: use_ctx_def use_shm_def faulty_def app_faulty_def log_call_def use_sess_def use_op_def use_app_ctx_def
      use_app_shm_def upd_ctx_def upd_shm_def upd_sess_def upd_op_def split: option.splits)

lemma marks_ask [marks]: "ask w = (r, w') \<Longrightarrow> app_fault w \<Longrightarrow> app_fault w'"
  by (auto simp: ask_def)

lemma marks_malloc_addr [marks]: "malloc_addr w = (p, w') \<Longrightarrow> app_fault w \<Longrightarrow> app_fault w'"
  by (auto simp: malloc_addr_def split: prod.splits if_splits dest: marks)

lemma marks_malloc_block [marks]: "malloc_block w = (p, w') \<Longrightarrow> app_fault w \<Longrightarrow> app_fault w'"
  by (auto simp: malloc_block_def split: prod.splits if_splits dest: marks)

lemma marks_free [simp]:
  "app_fault (free_block p w) = app_fault w" "app_fault (write_block p bs w) = app_fault w"
  "app_fault (free_ctx a w) = app_fault w" "app_fault (free_shm a w) = app_fault w" "app_fault (close_fd fd w) = app_fault w"
  by (auto simp: free_block_def write_block_def free_ctx_def free_shm_def close_fd_def split: option.splits block.splits)

lemma marks_free_sess: "app_fault w \<Longrightarrow> app_fault (free_sess a w)"
  by (auto simp: free_sess_def)

lemma marks_munmap [marks]: "munmap_block p sz w = (r, w') \<Longrightarrow> app_fault w \<Longrightarrow> app_fault w'"
  by (auto simp: munmap_block_def split: prod.splits if_splits option.splits block.splits dest: marks)

section \<open>Checking and encoding\<close>

lemma marks_find_shm_buffer [marks]: "find_shm_buffer as b w = (r, w') \<Longrightarrow> app_fault w \<Longrightarrow> app_fault w'"
  by (induction as b w rule: find_shm_buffer.induct) (auto simp: Let_def split: if_splits)

lemma marks_CheckSharedBufferExist [marks]: "CheckSharedBufferExist c p w = (r, w') \<Longrightarrow> app_fault w \<Longrightarrow> app_fault w'"
  by (auto simp: CheckSharedBufferExist_def split: prod.splits if_splits dest: marks)

lemma marks_TEEC_CheckMemRef [marks]: "TEEC_CheckMemRef c p t w = (r, w') \<Longrightarrow> app_fault w \<Longrightarrow> app_fault w'"
  by (auto simp: TEEC_CheckMemRef_def Let_def split: prod.splits if_splits dest: marks)

lemma marks_check_one [marks]: "check_one c op i w = (r, w') \<Longrightarrow> app_fault w \<Longrightarrow> app_fault w'"
  by (auto simp: check_one_def Let_def split: if_splits dest: marks)

lemma marks_check_loop [marks]: "check_loop c op is w = (r, w') \<Longrightarrow> app_fault w \<Longrightarrow> app_fault w'"
  by (induction c op "is" w rule: check_loop.induct) (auto split: prod.splits if_splits dest: marks)

lemma marks_TEEC_CheckOperation [marks]: "TEEC_CheckOperation c op w = (r, w') \<Longrightarrow> app_fault w \<Longrightarrow> app_fault w'"
  by (auto simp: TEEC_CheckOperation_def Let_def simp del: check_loop.simps split: if_splits dest: marks)

lemma marks_TEEC_EncodePartialParam [marks]:
  "TEEC_EncodePartialParam t op i q w = (r, w') \<Longrightarrow> app_fault w \<Longrightarrow> app_fault w'"
  by (auto simp: TEEC_EncodePartialParam_def Let_def split: if_splits prod.splits dest: marks)

lemma marks_encode_one [marks]: "encode_one op i cli w = (t, cli', w') \<Longrightarrow> app_fault w \<Longrightarrow> app_fault w'"
  by (auto simp: encode_one_def Let_def split: if_splits prod.splits dest: marks)

lemma marks_TEEC_EncodeParam [marks]: "TEEC_EncodeParam cli op w = (cli', w') \<Longrightarrow> app_fault w \<Longrightarrow> app_fault w'"
  by (auto simp: TEEC_EncodeParam_def split: prod.splits dest!: marks)

lemma marks_TEEC_Encode [marks]: "TEEC_Encode cli u s cmd l op w = (r, cli', w') \<Longrightarrow> app_fault w \<Longrightarrow> app_fault w'"
  by (auto simp: TEEC_Encode_def Let_def split: prod.splits if_splits dest!: marks)

section \<open>Loading\<close>

lemma marks_fread_bytes [marks]: "fread_bytes n fp w = (r, fp', w') \<Longrightarrow> app_fault w \<Longrightarrow> app_fault w'"
  by (auto simp: fread_bytes_def split: prod.splits if_splits dest: marks)

lemma marks_fseek_to [marks]: "fseek_to n fp w = (r, fp', w') \<Longrightarrow> app_fault w \<Longrightarrow> app_fault w'"
  by (auto simp: fseek_to_def split: prod.splits if_splits dest: marks)

lemma marks_GetTaVersion [marks]: "GetTaVersion f a b c d w = (r, outs, f', w') \<Longrightarrow> app_fault w \<Longrightarrow> app_fault w'"
  by (auto simp: GetTaVersion_def Let_def split: option.splits prod.splits if_splits dest!: marks)

lemma marks_TEEC_GetImageLenth [marks]: "TEEC_GetImageLenth f g w = (r, t, f', w') \<Longrightarrow> app_fault w \<Longrightarrow> app_fault w'"
  by (auto simp: TEEC_GetImageLenth_def Let_def split: option.splits prod.splits if_splits dest!: marks)

lemma marks_TEEC_DoReadApp [marks]: "TEEC_DoReadApp f g cli w = (r, cli', w') \<Longrightarrow> app_fault w \<Longrightarrow> app_fault w'"
  by (auto simp: TEEC_DoReadApp_def Let_def split: option.splits prod.splits if_splits dest!: marks)

lemma marks_TEEC_ReadApp [marks]: "TEEC_ReadApp env g ta f d cli w = (r, cli', w') \<Longrightarrow> app_fault w \<Longrightarrow> app_fault w'"
  by (auto simp: TEEC_ReadApp_def split: option.splits if_splits dest: marks)

lemma marks_TEEC_GetApp [marks]: "TEEC_GetApp env g ta u cli w = (r, cli', w') \<Longrightarrow> app_fault w \<Longrightarrow> app_fault w'"
  by (auto simp: TEEC_GetApp_def Let_def split: option.splits if_splits prod.splits dest: marks)

section \<open>Contexts and sessions\<close>

lemma marks_ioctl_cli [marks]: "ioctl_cli fd req cli w = (r, cli', w') \<Longrightarrow> app_fault w \<Longrightarrow> app_fault w'"
  by (auto simp: ioctl_cli_def Let_def split: prod.splits dest!: marks)

lemma marks_find_ctx [marks]: "find_ctx as fd w = (r, w') \<Longrightarrow> app_fault w \<Longrightarrow> app_fault w'"
  by (induction as fd w rule: find_ctx.induct) (auto simp: Let_def split: if_splits)

lemma marks_GetBnContext [marks]: "GetBnContext c w = (r, w') \<Longrightarrow> app_fault w \<Longrightarrow> app_fault w'"
  by (auto simp: GetBnContext_def MutexLockContext_def FindBnContext_def Let_def split: prod.splits if_splits dest!: marks)

lemma marks_ReleaseSharedMemory: "app_fault w \<Longrightarrow> app_fault (ReleaseSharedMemory a w)"
  by (cases "munmap_block (sm_buffer (rd_shm (use_shm a w) a)) (sm_size (rd_shm (use_shm a w) a)) (use_shm a w)")
     (auto simp: ReleaseSharedMemory_def clear_shm_bit_def Let_def split: prod.splits dest!: marks)

lemma marks_PutBnShrMem: "app_fault w \<Longrightarrow> app_fault (PutBnShrMem a w)"
  by (auto simp: PutBnShrMem_def Let_def intro!: marks_ReleaseSharedMemory split: prod.splits)

lemma marks_TEEC_CloseSessionHidl: "app_fault w \<Longrightarrow> app_fault (TEEC_CloseSessionHidl s c w)"
  by (auto simp: TEEC_CloseSessionHidl_def Let_def split: prod.splits dest!: marks)

lemma marks_PutBnSession: "app_fault w \<Longrightarrow> app_fault (PutBnSession s w)"
  by (auto simp: PutBnSession_def Let_def intro!: marks_free_sess split: prod.splits)

lemma marks_finalize_sessions: "app_fault w \<Longrightarrow> app_fault (finalize_sessions ss c w)"
  by (induction ss c w rule: finalize_sessions.induct)
     (simp_all add: Let_def marks_TEEC_CloseSessionHidl marks_PutBnSession)

lemma marks_finalize_shms: "app_fault w \<Longrightarrow> app_fault (finalize_shms ms c w)"
  by (induction ms c w rule: finalize_shms.induct) (simp_all add: Let_def marks_PutBnShrMem)

lemma marks_TEEC_FinalizeContextHidl: "app_fault w \<Longrightarrow> app_fault (TEEC_FinalizeContextHidl c w)"
  by (auto simp: TEEC_FinalizeContextHidl_def Let_def split: prod.splits dest!: marks
      intro!: marks_finalize_shms intro: marks_finalize_sessions)

lemma marks_PutBnContext: "app_fault w \<Longrightarrow> app_fault (snd (PutBnContext c w))"
  by (auto simp: PutBnContext_def Let_def intro!: marks_TEEC_FinalizeContextHidl split: prod.splits)

lemma marks_AddSessionList [marks]: "AddSessionList i u c s w = (r, w') \<Longrightarrow> app_fault w \<Longrightarrow> app_fault w'"
  by (auto simp: AddSessionList_def Let_def split: prod.splits if_splits dest!: marks)

lemma marks_open_retry [marks]: "open_retry i fd cli w = (r, cli', w') \<Longrightarrow> app_fault w \<Longrightarrow> app_fault w'"
proof (induction i arbitrary: cli w)
  case 0
  then show ?case by (auto split: prod.splits if_splits dest!: marks)
next
  case (Suc i)
  obtain r1 cli1 w1 where o: "ioctl_cli fd SES_OPEN_REQ (cli\<lparr>returns_code := 0, returns_origin := TEEC_ORIGIN_API\<rparr>) w = (r1, cli1, w1)"
    by (metis surj_pair)
  have "app_fault w1" by (rule marks_ioctl_cli [OF o Suc.prems(2)])
  then show ?case using Suc.prems(1) Suc.IH [of cli1 w1] by (auto simp: o split: if_splits)
qed

lemma marks_TEEC_DoOpenSession [marks]:
  "TEEC_DoOpenSession fd cli u c s w = (r, cli', w') \<Longrightarrow> app_fault w \<Longrightarrow> app_fault w'"
  by (auto simp: TEEC_DoOpenSession_def simp del: open_retry.simps split: prod.splits if_splits dest!: marks)

lemma marks_TEEC_OpenSessionHidl [marks]:
  "TEEC_OpenSessionHidl env g pid ta c s u m d op w = (r, origin, w') \<Longrightarrow> app_fault w \<Longrightarrow> app_fault w'"
  by (auto simp: TEEC_OpenSessionHidl_def open_session_exit_def Let_def split: option.splits prod.splits if_splits
      dest!: marks)

lemma marks_TEEC_OpenSession [marks]:
  "TEEC_OpenSession env g c s u m d op w = (r, origin, w') \<Longrightarrow> app_fault w \<Longrightarrow> app_fault w'"
  by (auto simp: TEEC_OpenSession_def Let_def split: prod.splits if_splits dest!: marks intro!: marks_PutBnContext)

text \<open>Opening a session into an object that is not there is marked.\<close>

lemma TEEC_OpenSession_missing:
  assumes "TEEC_OpenSession env g c s (Some u) m d op w = (r, origin, w')" "c \<noteq> NULL_ptr" "s \<noteq> NULL_ptr" "w_sessions w s = None"
  shows "app_fault w'"
proof -
  have "app_fault (use_app_ctx c (upd_sess s (\<lambda>x. x\<lparr>ss_context := c\<rparr>) w))" using assms(4) by simp
  then show ?thesis using assms(1-3)
    by (auto simp: TEEC_OpenSession_def Let_def split: prod.splits if_splits dest!: marks intro!: marks_PutBnContext)
qed

end
