(* ===== verification/Pool_Props.thy ===== *)
theory Pool_Props
  imports Session_Pool Client_Props Client_Marks "HOL-Library.Multiset"
begin

text \<open>
  Threads on one session pool: the background thread that opens sessions and any number of callers. A step
  is what a thread does between two synchronisation points, and a call of the client library is one step. The
  properties are that the pool never hands out a session twice, and what goes wrong when a pool is destroyed while its
  background thread still runs.
\<close>

section \<open>The threads of a pool\<close>

text \<open>
  \<open>worker\<close> is the next session to open and how many are left. A caller that has passed the semaphore is
  counted in \<open>tokens\<close>; one that has a session in \<open>held\<close>; one whose command returned in \<open>returned\<close>;
  a pending \<^verbatim>\<open>sem_post\<close> in \<open>posts\<close>. \<open>dead\<close> are the sessions given up because their application died.
\<close>

record pool_sys =
  pool :: SessionPool
  client :: world
  worker :: "(nat \<times> nat) option"
  tokens :: nat
  posts :: nat
  held :: "nat list"
  returned :: "(nat \<times> TEEC_Result) list"
  dead :: "nat list"

inductive pool_step :: "load_env \<Rightarrow> u32 \<Rightarrow> ptr \<Rightarrow> pool_sys \<Rightarrow> pool_sys \<Rightarrow> bool" for env garbage op where
  open_ok: "pool_step env garbage op s (s\<lparr>pool := sp, client := w, worker := Some (Suc i, n), posts := Suc (posts s)\<rparr>)"
    if "worker s = Some (i, Suc n)" "open_slot env garbage op i (pool s) (client s) = (TEEC_SUCCESS, sp, w)"
| open_fails: "pool_step env garbage op s (s\<lparr>pool := sp, client := w, worker := None\<rparr>)"
    if "worker s = Some (i, Suc n)" "open_slot env garbage op i (pool s) (client s) = (ret, sp, w)" "ret \<noteq> TEEC_SUCCESS"
| wait: "pool_step env garbage op s (s\<lparr>pool := sp, tokens := Suc (tokens s)\<rparr>)" if "sem_wait (pool s) = Some sp"
| take: "pool_step env garbage op s (s\<lparr>pool := sp, tokens := t, held := i # held s\<rparr>)"
    if "tokens s = Suc t" "take_slot (pool s) = (int i, sp)"
| take_fails: "pool_step env garbage op s (s\<lparr>pool := sp, tokens := t, posts := Suc (posts s)\<rparr>)"
    if "tokens s = Suc t" "take_slot (pool s) = (- 1, sp)"
| invoke: "pool_step env garbage op s (s\<lparr>client := w, held := xs @ ys, returned := (i, ret) # returned s\<rparr>)"
    if "held s = xs @ i # ys" "TEEC_InvokeCommand (session_at (pool s) i) cmd oper (client s) = (ret, origin, w)"
| put: "pool_step env garbage op s (s\<lparr>pool := put_slot i (pool s), returned := xs @ ys, posts := Suc (posts s)\<rparr>)"
    if "returned s = xs @ (i, ret) # ys" "ret \<noteq> TEEC_ERROR_TARGET_DEAD"
| die: "pool_step env garbage op s (s\<lparr>pool := mark_dead i (pool s), returned := xs @ ys, dead := i # dead s\<rparr>)"
    if "returned s = xs @ (i, ret) # ys" "ret = TEEC_ERROR_TARGET_DEAD"
| post: "pool_step env garbage op s (s\<lparr>pool := post_key (pool s), posts := p\<rparr>)" if "posts s = Suc p"

inductive_cases pool_stepE: "pool_step env garbage op s s'"

text \<open>A pool as \<^verbatim>\<open>TEEC_SessionPoolCreate\<close> returns it, whatever the fresh memory contained.\<close>

definition pool_start :: "load_env \<Rightarrow> u32 \<Rightarrow> ptr \<Rightarrow> pool_sys \<Rightarrow> bool" where
  "pool_start env garbage op s \<longleftrightarrow>
     (\<exists>bits sess context destination n w sp rest w'.
        TEEC_SessionPoolCreate env garbage bits sess op context (Some destination) False n w = (TEEC_SUCCESS, Some (sp, rest), w') \<and>
        s = \<lparr>pool = sp, client = w', worker = Some (1, unat rest), tokens = 0, posts = 0, held = [], returned = [], dead = []\<rparr>)"

inductive pool_reach :: "load_env \<Rightarrow> u32 \<Rightarrow> ptr \<Rightarrow> pool_sys \<Rightarrow> bool" for env garbage op where
  start: "pool_start env garbage op s \<Longrightarrow> pool_reach env garbage op s"
| step: "pool_reach env garbage op s \<Longrightarrow> pool_step env garbage op s s' \<Longrightarrow> pool_reach env garbage op s'"

section \<open>The invariant\<close>

text \<open>
  The free sessions are the set bits below \<open>opened\<close>: the bits above are what \<^verbatim>\<open>malloc\<close> returned. They are never
  taken, because the lowest set bit is taken and each token stands for a free session.
\<close>

definition free_set :: "SessionPool \<Rightarrow> nat set" where
  "free_set sp = bm_bits (usage sp) \<inter> {..<unat (opened sp)}"

definition pool_shape :: "SessionPool \<Rightarrow> bool" where
  "pool_shape sp \<longleftrightarrow> SESSION_POOL_CAP_MIN \<le> poolSize sp \<and> poolSize sp \<le> SESSION_POOL_CAP_MAX \<and> usageSize sp = poolSize sp \<and>
     length (usage sp) = unat (poolSize sp) \<and> opened sp \<le> poolSize sp"

definition pool_inv :: "pool_sys \<Rightarrow> bool" where
  "pool_inv s \<longleftrightarrow> pool_shape (pool s) \<and>
     mset (held s @ map fst (returned s) @ dead s) + mset_set (free_set (pool s)) = mset_set {..<unat (opened (pool s))} \<and>
     keys (pool s) + tokens s + posts s = card (free_set (pool s)) \<and>
     unat (inuse (pool s)) = length (held s @ map fst (returned s) @ dead s) \<and>
     (\<forall>i n. worker s = Some (i, n) \<longrightarrow> i = unat (opened (pool s)) \<and> i + n = unat (poolSize (pool s)))"

lemma pool_shape_size: "pool_shape sp \<Longrightarrow> unat (poolSize sp) \<le> 100 \<and> unat (opened sp) \<le> unat (poolSize sp)"
  by (simp add: pool_shape_def SESSION_POOL_CAP_MAX_def word_le_nat_alt)

lemma pool_shape_bm: "pool_shape sp \<Longrightarrow> bm_ok (usageSize sp) (usage sp)"
  using pool_shape_size [of sp] by (simp add: pool_shape_def bm_ok_def)

lemma finite_free_set [simp]: "finite (free_set sp)"
  by (simp add: free_set_def)

lemma set_usage_bits:
  assumes "pool_shape sp" "i < unat (poolSize sp)"
  shows "\<exists>bm. set_usage i sp = sp\<lparr>usage := bm\<rparr> \<and> length bm = length (usage sp) \<and> bm_bits bm = insert i (bm_bits (usage sp))"
proof -
  have L: "length (usage sp) = unat (poolSize sp)" using assms(1) by (simp add: pool_shape_def)
  have i: "unat (of_nat i :: u32) = i" using assms pool_shape_size by (intro unat_of_nat32) fastforce
  obtain bm where bm: "SetBit (of_nat i) (usageSize sp) (Some (usage sp)) = Some bm" "bm_ok (usageSize sp) bm"
    "bm_bits bm = (if unat (of_nat i :: u32) < 8 * length (usage sp) then insert (unat (of_nat i :: u32)) (bm_bits (usage sp)) else bm_bits (usage sp))"
    by (rule SetBit_bits [OF pool_shape_bm [OF assms(1)]])
  then show ?thesis using assms(2) bm_ok_length [OF pool_shape_bm [OF assms(1)] bm(2)]
    by (intro exI [of _ bm]) (simp add: set_usage_def i L)
qed

lemma take_slot_free:
  assumes shape: "pool_shape sp" and some: "free_set sp \<noteq> {}" and run: "take_slot sp = (v, sp')"
  shows "\<exists>i bm. v = int i \<and> i \<in> free_set sp \<and> sp' = sp\<lparr>usage := bm, inuse := inuse sp + 1\<rparr> \<and>
    length bm = length (usage sp) \<and> bm_bits bm = bm_bits (usage sp) - {i}"
proof -
  have ok: "bm_inv (usageSize sp) (Some (usage sp))" using pool_shape_bm [OF shape] by (simp add: bm_inv_def)
  have ne: "bm_free CLEAR (Some (usage sp)) \<noteq> {}" using some by (auto simp: bm_free_def free_bits_def free_set_def)
  from pool_slots.acquire_least [OF ok ne] obtain i b where
    i: "GetAndCleartBit (Some (usage sp)) (usageSize sp) = (int i, b)" "i \<in> bm_free CLEAR (Some (usage sp))"
      "\<forall>m<i. m \<notin> bm_free CLEAR (Some (usage sp))" "bm_inv (usageSize sp) b"
      "bm_free CLEAR b = bm_free CLEAR (Some (usage sp)) - {i}" by blast
  obtain bm where b: "b = Some bm" "bm_ok (usageSize sp) bm" using i(4) by (auto simp: bm_inv_Some)
  obtain j where j: "j \<in> free_set sp" using some by blast
  then have "i \<le> j" using i(3) by (auto simp: bm_free_def free_bits_def free_set_def not_less [symmetric])
  then have "i \<in> free_set sp"
    using i(2) j by (auto simp: bm_free_def free_bits_def free_set_def)
  moreover have "length bm = length (usage sp)" by (rule bm_ok_length [OF pool_shape_bm [OF shape] b(2)])
  ultimately show ?thesis
    using run i(1,5) b by (auto simp: take_slot_def Let_def bm_free_def free_bits_def)
qed

lemma card_free_held:
  assumes "pool_inv s"
  shows "length (held s @ map fst (returned s) @ dead s) + card (free_set (pool s)) = unat (opened (pool s))"
proof -
  have "size (mset (held s @ map fst (returned s) @ dead s) + mset_set (free_set (pool s))) = size (mset_set {..<unat (opened (pool s))})"
    using assms by (simp add: pool_inv_def)
  then show ?thesis by (simp add: size_mset_set)
qed

lemma held_bound:
  assumes "pool_inv s" "i \<in> set (held s) \<union> fst ` set (returned s) \<union> set (dead s)"
  shows "i < unat (opened (pool s)) \<and> i \<notin> free_set (pool s)"
proof -
  let ?H = "mset (held s @ map fst (returned s) @ dead s)"
  have eq: "?H + mset_set (free_set (pool s)) = mset_set {..<unat (opened (pool s))}" using assms(1) by (simp add: pool_inv_def)
  have i: "i \<in># ?H" using assms(2) by auto
  have "i \<in># mset_set {..<unat (opened (pool s))}" unfolding eq [symmetric] using i by simp
  moreover have "i \<notin> free_set (pool s)"
  proof
    assume "i \<in> free_set (pool s)"
    then have "count (mset_set (free_set (pool s))) i = 1" by simp
    moreover have "0 < count ?H i" using i by (simp only: count_greater_zero_iff)
    ultimately have "count (?H + mset_set (free_set (pool s))) i \<ge> 2" unfolding count_union by linarith
    moreover have "count (mset_set {..<unat (opened (pool s))}) i \<le> 1" by (simp add: count_mset_set')
    ultimately show False unfolding eq by simp
  qed
  ultimately show ?thesis by simp
qed

section \<open>Every step keeps the invariant\<close>

lemma open_slot_ok:
  assumes shape: "pool_shape sp" and lt: "unat (opened sp) < unat (poolSize sp)"
    and run: "open_slot env garbage op (unat (opened sp)) sp w = (TEEC_SUCCESS, sp', w')"
  shows "pool_shape sp' \<and> unat (opened sp') = Suc (unat (opened sp)) \<and> free_set sp' = insert (unat (opened sp)) (free_set sp) \<and>
    keys sp' = keys sp \<and> inuse sp' = inuse sp \<and> poolSize sp' = poolSize sp"
proof -
  let ?sp = "sp\<lparr>isDead := (isDead sp)[unat (opened sp) := False]\<rparr>"
  have "pool_shape ?sp" using shape by (simp add: pool_shape_def)
  from set_usage_bits [OF this, of "unat (opened sp)"] lt obtain bm where
    bm: "set_usage (unat (opened sp)) ?sp = ?sp\<lparr>usage := bm\<rparr>" "length bm = length (usage sp)"
      "bm_bits bm = insert (unat (opened sp)) (bm_bits (usage sp))" by auto
  have sp': "sp' = ?sp\<lparr>usage := bm, opened := opened sp + 1\<rparr>"
    using run bm(1) by (auto simp: open_slot_def split: prod.splits if_splits)
  have o: "unat (opened sp + 1) = Suc (unat (opened sp))"
    using lt pool_shape_size [OF shape] by (intro unat_inc) auto
  show ?thesis using shape lt bm by (auto simp: sp' pool_shape_def free_set_def o word_le_nat_alt)
qed

lemma put_slot_ok:
  assumes shape: "pool_shape sp" and lt: "i < unat (opened sp)"
  shows "pool_shape (put_slot i sp) \<and> free_set (put_slot i sp) = insert i (free_set sp) \<and>
    opened (put_slot i sp) = opened sp \<and> keys (put_slot i sp) = keys sp \<and> poolSize (put_slot i sp) = poolSize sp \<and>
    inuse (put_slot i sp) = inuse sp - 1"
proof -
  have "i < unat (poolSize sp)" using lt pool_shape_size [OF shape] by simp
  from set_usage_bits [OF shape this] obtain bm where
    "set_usage i sp = sp\<lparr>usage := bm\<rparr>" "length bm = length (usage sp)" "bm_bits bm = insert i (bm_bits (usage sp))" by blast
  then show ?thesis using shape lt by (auto simp: put_slot_def pool_shape_def free_set_def)
qed

lemma mset_insert_free:
  "i \<notin> F \<Longrightarrow> finite F \<Longrightarrow> mset_set (insert i F) = add_mset i (mset_set F)"
  by simp

lemma pool_step_inv:
  assumes "pool_step env garbage op s s'" and inv: "pool_inv s"
  shows "pool_inv s'"
proof -
  note defs = inv [unfolded pool_inv_def]
  have shape: "pool_shape (pool s)" using defs by blast
  from assms(1) show ?thesis
  proof cases
    case (open_ok i n sp w)
    have i: "i = unat (opened (pool s))" "i < unat (poolSize (pool s))" using defs open_ok(2) by auto
    have o: "pool_shape sp" "unat (opened sp) = Suc i" "free_set sp = insert i (free_set (pool s))" "keys sp = keys (pool s)"
      "inuse sp = inuse (pool s)" "poolSize sp = poolSize (pool s)"
      using open_slot_ok [OF shape] open_ok(3) i by auto
    have ni: "i \<notin> free_set (pool s)" using i by (simp add: free_set_def)
    have "mset_set {..<unat (opened sp)} = add_mset i (mset_set {..<unat (opened (pool s))})"
      using o(2) i(1) by (simp add: lessThan_Suc)
    then show ?thesis using defs open_ok(1,2) o ni by (simp add: pool_inv_def)
  next
    case (open_fails i n ret sp w)
    then have "sp = pool s" by (auto simp: open_slot_def split: prod.splits if_splits)
    then show ?thesis using defs open_fails(1) by (simp add: pool_inv_def)
  next
    case (wait sp)
    then have "sp = (pool s)\<lparr>keys := keys (pool s) - 1\<rparr>" "0 < keys (pool s)" by (auto simp: sem_wait_def split: if_splits)
    then show ?thesis using defs wait(1) by (simp add: pool_inv_def pool_shape_def free_set_def)
  next
    case (take t i sp)
    have c: "0 < card (free_set (pool s))" using defs take(2) by linarith
    then have ne: "free_set (pool s) \<noteq> {}" by auto
    from take_slot_free [OF shape this take(3)] obtain bm where
      i: "i \<in> free_set (pool s)" and sp: "sp = (pool s)\<lparr>usage := bm, inuse := inuse (pool s) + 1\<rparr>"
      and bm: "length bm = length (usage (pool s))" "bm_bits bm = bm_bits (usage (pool s)) - {i}" by auto
    have fs: "free_set sp = free_set (pool s) - {i}" using bm(2) by (auto simp: free_set_def sp)
    have m: "mset_set (free_set (pool s)) = add_mset i (mset_set (free_set sp))"
      unfolding fs using i by (simp add: mset_set.remove)
    have cd: "card (free_set (pool s)) = Suc (card (free_set sp))" unfolding fs using i c by (simp add: card_Diff_singleton)
    have "unat (inuse (pool s)) < 100" using card_free_held [OF inv] defs c pool_shape_size [OF shape] by simp
    then have "unat (inuse (pool s) + 1) = Suc (unat (inuse (pool s)))" by (intro unat_inc) auto
    then show ?thesis using defs take(1,2) m cd bm(1) by (simp add: pool_inv_def pool_shape_def sp)
  next
    case (take_fails t sp)
    have "0 < card (free_set (pool s))" using defs take_fails(2) by linarith
    then have "free_set (pool s) \<noteq> {}" by auto
    from take_slot_free [OF shape this take_fails(3)] have False by auto
    then show ?thesis ..
  next
    case (invoke xs i ys cmd oper ret origin w)
    then show ?thesis using defs by (simp add: pool_inv_def)
  next
    case (put xs i ret ys)
    have b: "i < unat (opened (pool s)) \<and> i \<notin> free_set (pool s)" using put(2) by (intro held_bound [OF inv]) (auto simp: image_iff)
    note p = put_slot_ok [OF shape conjunct1 [OF b]]
    have "0 < unat (inuse (pool s))" using defs put(2) by simp
    then have "unat (inuse (pool s) - 1) = unat (inuse (pool s)) - 1" by (intro unat_minus_one) auto
    then show ?thesis using defs put(1,2) p b by (simp add: pool_inv_def)
  next
    case (die xs i ret ys)
    then show ?thesis using defs by (simp add: pool_inv_def mark_dead_def pool_shape_def free_set_def)
  next
    case (post p)
    then show ?thesis using defs by (simp add: pool_inv_def post_key_def pool_shape_def free_set_def)
  qed
qed

lemma CreateSessionsFn_first:
  assumes "CreateSessionsFn env garbage op 1 sp w = (TEEC_SUCCESS, sp', w')" "pool_shape sp" "opened sp = 0"
  shows "pool_shape sp' \<and> opened sp' = 1 \<and> free_set sp' = {0} \<and> keys sp' = keys sp + 1 \<and> inuse sp' = inuse sp"
proof -
  have lt: "unat (opened sp) < unat (poolSize sp)"
    using assms(2,3) by (auto simp: pool_shape_def SESSION_POOL_CAP_MIN_def word_le_nat_alt)
  have G: "TEEC_ERROR_GENERIC \<noteq> TEEC_SUCCESS" by (simp add: TEEC_ERROR_GENERIC_def TEEC_SUCCESS_def)
  obtain sp1 w1 where o: "open_slot env garbage op (unat (opened sp)) sp (w\<lparr>app_ops := (app_ops w)(op \<mapsto> nil_op)\<rparr>) = (TEEC_SUCCESS, sp1, w1)"
    and sp': "sp' = post_key sp1"
    using assms(1,3) G by (auto simp: CreateSessionsFn_def split: prod.splits if_splits)
  from open_slot_ok [OF assms(2) lt o] show ?thesis
    using assms(3) by (auto simp: sp' post_key_def pool_shape_def free_set_def word_unat_eq_iff)
qed

lemma pool_start_inv: "pool_start env garbage op s \<Longrightarrow> pool_inv s"
proof -
  assume "pool_start env garbage op s"
  then obtain bits sess ctx dest n w sp rest w' where
    c: "TEEC_SessionPoolCreate env garbage bits sess op ctx (Some dest) False n w = (TEEC_SUCCESS, Some (sp, rest), w')"
    and s: "s = \<lparr>pool = sp, client = w', worker = Some (1, unat rest), tokens = 0, posts = 0, held = [], returned = [], dead = []\<rparr>"
    unfolding pool_start_def by blast
  from c obtain sp0 w1 w2 w3 where size: "\<not> (n > SESSION_POOL_CAP_MAX \<or> n < SESSION_POOL_CAP_MIN)"
    and alloc: "AllocSessionPool bits sess ctx dest n w = (Some sp0, w1)"
    and create: "CreateSessionsFn env garbage op 1 sp0 w2 = (TEEC_SUCCESS, sp, w3)" and rest: "rest = poolSize sp - 1"
    by (auto simp: TEEC_SessionPoolCreate_def split: prod.splits option.splits if_splits)
  have n100: "unat n \<le> 100" using size by (simp add: SESSION_POOL_CAP_MAX_def word_le_nat_alt not_less)
  have sp0: "pool_shape sp0 \<and> opened sp0 = 0 \<and> keys sp0 = 0 \<and> inuse sp0 = 0"
    using alloc size by (auto simp: AllocSessionPool_def Let_def pool_shape_def not_less split: prod.splits if_splits)
  note f = CreateSessionsFn_first [OF create conjunct1 [OF sp0] conjunct1 [OF conjunct2 [OF sp0]]]
  have "0 < unat (poolSize sp)" using f by (auto simp: pool_shape_def SESSION_POOL_CAP_MIN_def word_le_nat_alt)
  then have "unat (poolSize sp - 1) = unat (poolSize sp) - 1" by (intro unat_minus_one) auto
  then have "Suc (unat (poolSize sp - 1)) = unat (poolSize sp)" using \<open>0 < unat (poolSize sp)\<close> by simp
  then show ?thesis using f sp0 by (simp add: s pool_inv_def rest lessThan_Suc)
qed

lemma pool_reach_inv: "pool_reach env garbage op s \<Longrightarrow> pool_inv s"
  by (induction rule: pool_reach.induct) (auto intro: pool_start_inv pool_step_inv)

section \<open>The properties\<close>

lemma distinct_part: "mset xs + M = mset_set A \<Longrightarrow> distinct xs"
proof -
  assume eq: "mset xs + M = mset_set A"
  have "count (mset xs) x \<le> 1" for x
  proof -
    have "count (mset xs) x \<le> count (mset_set A) x" by (simp flip: eq)
    also have "\<dots> \<le> 1" by (simp add: count_mset_set')
    finally show ?thesis .
  qed
  then have "count (mset xs) x = (if x \<in> set xs then 1 else 0)" for x
    using count_greater_eq_one_iff [of "mset xs" x] by (auto simp: le_antisym not_in_iff [symmetric])
  then show "distinct xs" by (simp add: distinct_count_atmost_1)
qed

text \<open>
  C4. In every interleaving of the opening thread and any number of callers, whatever the uninitialised memory of
  a new pool contains, the sessions in use or given up are pairwise different and opened ones of the pool, and the keys,
  the callers that passed the semaphore, the pending posts and these sessions add up to the opened sessions. So
  a caller that has passed the semaphore always gets a session, and one that nobody else has.
\<close>

theorem pool_never_shares_a_session:
  assumes "pool_reach env garbage op s"
  shows "distinct (held s @ map fst (returned s) @ dead s) \<and>
    (\<forall>i \<in> set (held s @ map fst (returned s) @ dead s). i < unat (opened (pool s))) \<and>
    opened (pool s) \<le> poolSize (pool s) \<and> unat (inuse (pool s)) = length (held s @ map fst (returned s) @ dead s) \<and>
    keys (pool s) + tokens s + posts s + unat (inuse (pool s)) = unat (opened (pool s)) \<and>
    (0 < tokens s \<longrightarrow> (\<exists>i sp. take_slot (pool s) = (int i, sp) \<and> i < unat (opened (pool s)) \<and>
       i \<notin> set (held s @ map fst (returned s) @ dead s)))"
proof -
  have inv: "pool_inv s" using assms by (rule pool_reach_inv)
  note d = inv [unfolded pool_inv_def]
  have shape: "pool_shape (pool s)" using d by blast
  have "\<exists>i sp. take_slot (pool s) = (int i, sp) \<and> i < unat (opened (pool s)) \<and> i \<notin> set (held s @ map fst (returned s) @ dead s)"
    if "0 < tokens s"
  proof -
    have "0 < card (free_set (pool s))" using d that by linarith
    then have ne: "free_set (pool s) \<noteq> {}" by auto
    obtain v sp where t: "take_slot (pool s) = (v, sp)" by (metis surj_pair)
    from take_slot_free [OF shape ne t] obtain i where i: "v = int i" "i \<in> free_set (pool s)" by blast
    then have "i \<notin> set (held s @ map fst (returned s) @ dead s)" using held_bound [OF inv, of i] by auto
    then show ?thesis using t i by (auto simp: free_set_def)
  qed
  moreover have "distinct (held s @ map fst (returned s) @ dead s)" using d distinct_part by blast
  moreover have "i < unat (opened (pool s))" if "i \<in> set (held s @ map fst (returned s) @ dead s)" for i
    using held_bound [OF inv, of i] that by auto
  ultimately show ?thesis using d card_free_held [OF inv] by (simp add: pool_shape_def)
qed

text \<open>A pool of five sessions whose bitmap had a stray bit; one caller holds its first session.\<close>

definition ex_app :: world where
  "ex_app = (ex_client [1, 0x4000, 1, 1, 0, 0, 0, 0, 0, 0x700000008000])
     \<lparr>app_ctxs := [0x100 \<mapsto> \<lparr>ac_fd = 5, ta_path = Some ''/a.sec''\<rparr>]\<rparr>"

definition ex_create :: "TEEC_Result \<times> (SessionPool \<times> u32) option \<times> world" where
  "ex_create = TEEC_SessionPoolCreate ex_load_env 0 [0x80, 0, 0, 0, 1] (\<lambda>_. nil_session) 0x9000 0x100 (Some zero_uuid) False 5
     ex_app"

definition ex_pool :: "nat \<Rightarrow> u32 \<Rightarrow> u8 \<Rightarrow> SessionPool" where
  "ex_pool n used b = \<lparr>sp_context = 0x100, sp_uuid = zero_uuid, poolSize = 5, sessionsInfo = 0x4000,
     isDead = replicate 5 False, opened = 1, inuse = used, keys = n, usage = [b, 0, 0, 0, 1], usageSize = 5\<rparr>"

definition ex_threads :: pool_sys where
  "ex_threads = \<lparr>pool = ex_pool 1 0 0x81, client = snd (snd ex_create), worker = Some (1, 4), tokens = 0, posts = 0,
     held = [], returned = [], dead = []\<rparr>"

lemma ex_create_result: "ex_create = (TEEC_SUCCESS, Some (ex_pool 1 0 0x81, 4), snd (snd ex_create))"
proof -
  have "fst ex_create = TEEC_SUCCESS" "fst (snd ex_create) = Some (ex_pool 1 0 0x81, 4)" by code_simp+
  then show ?thesis by (metis prod.collapse)
qed

lemma ex_threads_reach: "pool_reach ex_load_env 0 0x9000 (ex_threads\<lparr>pool := ex_pool 0 1 0x80, held := [0]\<rparr>)"
proof -
  have "pool_start ex_load_env 0 0x9000 ex_threads"
    unfolding pool_start_def ex_threads_def using ex_create_result unfolding ex_create_def
    by (intro exI [of _ "[0x80, 0, 0, 0, 1]"] exI [of _ "\<lambda>_. nil_session"] exI [of _ "0x100"] exI [of _ zero_uuid] exI [of _ 5]
        exI [of _ ex_app] exI [of _ "ex_pool 1 0 0x81"] exI [of _ 4] exI) auto
  then have r0: "pool_reach ex_load_env 0 0x9000 ex_threads" by (rule pool_reach.start)
  have "sem_wait (ex_pool 1 0 0x81) = Some (ex_pool 0 0 0x81)" by code_simp
  then have "pool_step ex_load_env 0 0x9000 ex_threads (ex_threads\<lparr>pool := ex_pool 0 0 0x81, tokens := Suc (tokens ex_threads)\<rparr>)"
    by (intro pool_step.wait) (simp add: ex_threads_def)
  with r0 have r1: "pool_reach ex_load_env 0 0x9000 (ex_threads\<lparr>pool := ex_pool 0 0 0x81, tokens := 1\<rparr>)"
    by (intro pool_reach.step [OF r0]) (simp add: ex_threads_def)
  let ?s = "ex_threads\<lparr>pool := ex_pool 0 0 0x81, tokens := 1\<rparr>"
  have "take_slot (ex_pool 0 0 0x81) = (int 0, ex_pool 0 1 0x80)" by code_simp
  then have "pool_step ex_load_env 0 0x9000 ?s (?s\<lparr>pool := ex_pool 0 1 0x80, tokens := 0, held := 0 # held ?s\<rparr>)"
    by (intro pool_step.take) simp_all
  with r1 show ?thesis by (intro pool_reach.step [OF r1]) (simp add: ex_threads_def)
qed

lemma pool_never_shares_a_session_witness:
  "keys (ex_pool 0 1 0x80) + unat (inuse (ex_pool 0 1 0x80)) = unat (opened (ex_pool 0 1 0x80))"
  using pool_never_shares_a_session [OF ex_threads_reach] by (simp add: ex_threads_def)

section \<open>Destroying a pool too early\<close>

lemma free_sessions_gone:
  assumes "i < unat (poolSize sp)"
  shows "w_sessions (free_sessions sp w) (session_at sp i) = None"
proof -
  have f: "fold (\<lambda>i m. m(session_at sp i := None)) xs m a = (if a \<in> session_at sp ` set xs then None else m a)"
    for xs a and m :: "ptr \<Rightarrow> TEEC_Session option"
    by (induction xs arbitrary: m) auto
  have "session_at sp i \<in> session_at sp ` set [0..<unat (poolSize sp)]" using assms by simp
  then have "fold (\<lambda>i m. m(session_at sp i := None)) [0..<unat (poolSize sp)] (w_sessions w) (session_at sp i) = None"
    by (simp only: f if_True)
  then show ?thesis by (simp add: free_sessions_def log_call_def)
qed

lemma open_slot_missing:
  assumes "open_slot env garbage op i sp w = (ret, sp', w')" "w_sessions w (session_at sp i) = None"
    "sp_context sp \<noteq> NULL_ptr" "session_at sp i \<noteq> NULL_ptr"
  shows "app_fault w'"
proof -
  have "w_sessions (upd_op op f w) = w_sessions w" for f by (simp add: upd_op_def app_faulty_def split: option.splits)
  then show ?thesis using assms by (auto simp: open_slot_def split: prod.splits if_splits dest: TEEC_OpenSession_missing)
qed

lemma marks_open_slot: "open_slot env garbage op i sp w = (ret, sp', w') \<Longrightarrow> app_fault w \<Longrightarrow> app_fault w'"
  by (auto simp: open_slot_def split: prod.splits if_splits dest: marks)

lemma marks_open_loop: "open_loop env garbage op i n ret sp w = (ret', sp', w') \<Longrightarrow> app_fault w \<Longrightarrow> app_fault w'"
  by (induction env garbage op i n ret sp w rule: open_loop.induct)
     (auto split: prod.splits if_splits dest: marks_open_slot)

text \<open>
  C30. A pool that is destroyed before its background thread has opened all sessions is still used by that thread: its
  next turn opens a session in the array that has been freed, which is an access to memory that is gone.
\<close>

theorem destroyed_pool_is_still_opened:
  assumes "sessionsInfo sp \<noteq> NULL_ptr" "sp_context sp \<noteq> NULL_ptr" "session_at sp (unat (opened sp)) \<noteq> NULL_ptr"
    and left: "opened sp < poolSize sp" "rest \<noteq> 0"
    and run: "CreateSessionsFn env garbage op rest sp (TEEC_SessionPoolDestroy (Some sp) w) = (ret, sp', w')"
  shows "app_fault w'"
proof -
  define w1 where "w1 = TEEC_SessionPoolDestroy (Some sp) w"
  define w2 where "w2 = w1\<lparr>app_ops := (app_ops w1)(op \<mapsto> nil_op)\<rparr>"
  have gone: "w_sessions w2 (session_at sp (unat (opened sp))) = None"
    using assms(1) left(1) by (simp add: w2_def w1_def TEEC_SessionPoolDestroy_def FreeSessionPool_def free_sessions_gone word_less_nat_alt)
  obtain n where n: "unat rest = Suc n" using left(2) by (metis unat_eq_zero not0_implies_Suc)
  obtain ret1 sp1 w3 where o: "open_slot env garbage op (unat (opened sp)) sp w2 = (ret1, sp1, w3)" by (metis surj_pair)
  have "app_fault w3" by (rule open_slot_missing [OF o gone assms(2,3)])
  then show ?thesis
    using run o marks_open_loop unfolding CreateSessionsFn_def w1_def [symmetric] w2_def [symmetric] n
    by (auto split: prod.splits if_splits)
qed

lemma destroyed_pool_is_still_opened_witness:
  "app_fault (snd (snd (CreateSessionsFn ex_load_env 0 0x9000 4 (ex_pool 1 0 0x81)
     (TEEC_SessionPoolDestroy (Some (ex_pool 1 0 0x81)) (snd (snd ex_create))))))"
proof -
  have "\<exists>ret sp'. CreateSessionsFn ex_load_env 0 0x9000 4 (ex_pool 1 0 0x81)
      (TEEC_SessionPoolDestroy (Some (ex_pool 1 0 0x81)) (snd (snd ex_create))) =
    (ret, sp', snd (snd (CreateSessionsFn ex_load_env 0 0x9000 4 (ex_pool 1 0 0x81)
      (TEEC_SessionPoolDestroy (Some (ex_pool 1 0 0x81)) (snd (snd ex_create))))))"
    by (metis prod.collapse)
  then obtain ret sp' where r: "CreateSessionsFn ex_load_env 0 0x9000 4 (ex_pool 1 0 0x81)
      (TEEC_SessionPoolDestroy (Some (ex_pool 1 0 0x81)) (snd (snd ex_create))) =
    (ret, sp', snd (snd (CreateSessionsFn ex_load_env 0 0x9000 4 (ex_pool 1 0 0x81)
      (TEEC_SessionPoolDestroy (Some (ex_pool 1 0 0x81)) (snd (snd ex_create))))))" by blast
  show ?thesis
    by (rule destroyed_pool_is_still_opened [OF _ _ _ _ _ r])
       (simp_all add: ex_pool_def session_at_def sizeof_SessionInfo_def word_less_nat_alt)
qed

end
