(* ===== verification/Fs_Paths.thy ===== *)
theory Fs_Paths
  imports C_Strings
begin

text \<open>
  How the storage agent, \<^verbatim>\<open>src/teecd/fs_work_agent.c\<close>, turns the name in a request into a path, with the constants of
  \<^verbatim>\<open>tee_ca_daemon.h\<close>. The bounded string functions of libboundscheck (\<^verbatim>\<open>strncpy_s\<close>, \<^verbatim>\<open>strncat_s\<close>,
  \<^verbatim>\<open>snprintf_s\<close>, \<^verbatim>\<open>memcpy_s\<close>) are parameters; \<open>sec_ok\<close> is their documented behaviour. A path buffer is
  the string in it; the functions return it with the code they return.
\<close>

section \<open>Constants\<close>

definition FILE_NAME_MAX_BUF :: nat where "FILE_NAME_MAX_BUF = 256"
definition PATH_MAX :: nat where "PATH_MAX = 4096"
definition USER_DATA_DIR :: string where "USER_DATA_DIR = ''/var/itrustee/sec_storage_data/''"
definition SFS_PARTITION_PERSISTENT :: string where "SFS_PARTITION_PERSISTENT = ''var/itrustee/sec_storage_data/''"
definition SFS_PARTITION_USER_SYMLINK :: string where "SFS_PARTITION_USER_SYMLINK = ''sec_storage_data_users/''"
definition ROOT_DIR :: string where "ROOT_DIR = ''/''"
definition SFS_PARTITION_TRANSIENT :: string where "SFS_PARTITION_TRANSIENT = ''sec_storage_data/''"
definition SFS_PARTITION_TRANSIENT_PRIVATE :: string where "SFS_PARTITION_TRANSIENT_PRIVATE = ''sec_storage_data/_private''"
definition SFS_PARTITION_TRANSIENT_PERSO :: string where "SFS_PARTITION_TRANSIENT_PERSO = ''sec_storage_data/_perso''"
definition FILE_NAME_INVALID_STR :: string where "FILE_NAME_INVALID_STR = ''../''"
definition SEC_STORAGE_DATA_CE :: string where "SEC_STORAGE_DATA_CE = ''/data/vendor_ce/''"
definition SEC_STORAGE_DATA_ROOT_DIR :: string where "SEC_STORAGE_DATA_ROOT_DIR = ROOT_DIR @ SFS_PARTITION_TRANSIENT"
definition TEE_OBJECT_STORAGE_CE :: u32 where "TEE_OBJECT_STORAGE_CE = 0x80000002"
definition USER_PATH_SIZE :: nat where "USER_PATH_SIZE = 12"

lemmas fs_dirs = USER_DATA_DIR_def SFS_PARTITION_PERSISTENT_def SFS_PARTITION_USER_SYMLINK_def ROOT_DIR_def
  SFS_PARTITION_TRANSIENT_def SFS_PARTITION_TRANSIENT_PRIVATE_def SFS_PARTITION_TRANSIENT_PERSO_def
  SEC_STORAGE_DATA_CE_def SEC_STORAGE_DATA_ROOT_DIR_def

section \<open>The bounded string functions\<close>

text \<open>
  \<open>s_strncpy destMax src count\<close> is the string then in the destination, \<^const>\<open>None\<close> for an error; \<open>s_strncat\<close> also
  takes the string already there; \<open>s_printf destMax count text\<close> prints \<open>text\<close>; \<open>s_memcpy destMax count\<close> says
  whether the copy is made.
\<close>

record sec_lib =
  s_strncpy :: "nat \<Rightarrow> string \<Rightarrow> nat \<Rightarrow> string option"
  s_strncat :: "string \<Rightarrow> nat \<Rightarrow> string \<Rightarrow> nat \<Rightarrow> string option"
  s_printf :: "nat \<Rightarrow> nat \<Rightarrow> string \<Rightarrow> string option"
  s_memcpy :: "nat \<Rightarrow> nat \<Rightarrow> bool"

text \<open>Documented: an operation succeeds when its result with the terminating NUL fits, and fails otherwise.\<close>

definition sec_ok :: "sec_lib \<Rightarrow> bool" where
  "sec_ok lib \<longleftrightarrow>
     (\<forall>d s c. s_strncpy lib d s c = (if length (take c s) < d then Some (take c s) else None)) \<and>
     (\<forall>a d s c. s_strncat lib a d s c = (if length a + length (take c s) < d then Some (a @ take c s) else None)) \<and>
     (\<forall>d c s. s_printf lib d c s = (if length s \<le> c \<and> c < d then Some s else None)) \<and>
     (\<forall>d c. s_memcpy lib d c \<longleftrightarrow> c \<le> d)"

text \<open>The library as documented, for concrete runs.\<close>

definition sec_std :: sec_lib where
  "sec_std =
     \<lparr>s_strncpy = (\<lambda>d s c. if length (take c s) < d then Some (take c s) else None),
      s_strncat = (\<lambda>a d s c. if length a + length (take c s) < d then Some (a @ take c s) else None),
      s_printf = (\<lambda>d c s. if length s \<le> c \<and> c < d then Some s else None),
      s_memcpy = (\<lambda>d c. c \<le> d)\<rparr>"

lemma sec_std_ok: "sec_ok sec_std"
  by (simp add: sec_ok_def sec_std_def)

section \<open>Names to paths\<close>

definition CheckPathLen :: "string \<Rightarrow> nat \<Rightarrow> int" where
  "CheckPathLen path pathLen = (if pathLen \<le> strnlen path pathLen then - 1 else 0)"

text \<open>Neither pointer is null in any call.\<close>

definition CheckFileNameAndPath :: "string \<Rightarrow> int" where
  "CheckFileNameAndPath name = (if strstr name FILE_NAME_INVALID_STR then - 1 else 0)"

definition GetPathStorage :: "sec_lib \<Rightarrow> nat \<Rightarrow> string \<Rightarrow> int \<times> string" where
  "GetPathStorage lib pathLen env =
     (let copy = (\<lambda>dir. case s_strncpy lib pathLen dir (length dir + 1) of None \<Rightarrow> (- 1, []) | Some p \<Rightarrow> (0, p)) in
      if starts_with env ''SFS_PARTITION_TRANSIENT'' then copy USER_DATA_DIR
      else if starts_with env ''SFS_PARTITION_PERSISTENT'' then copy ROOT_DIR
      else (- 1, []))"

definition GetTransientDir :: "sec_lib \<Rightarrow> nat \<Rightarrow> int \<times> string" where
  "GetTransientDir lib pathLen = GetPathStorage lib pathLen ''SFS_PARTITION_TRANSIENT''"

definition GetPersistentDir :: "sec_lib \<Rightarrow> nat \<Rightarrow> int \<times> string" where
  "GetPersistentDir lib pathLen = GetPathStorage lib pathLen ''SFS_PARTITION_PERSISTENT''"

text \<open>\<^verbatim>\<open>strncat_s(path, pathLen, s, count)\<close> with the early return after it; mostly the count is \<^verbatim>\<open>strlen(s)\<close>.\<close>

definition append_n :: "sec_lib \<Rightarrow> nat \<Rightarrow> string \<Rightarrow> nat \<Rightarrow> int \<times> string \<Rightarrow> int \<times> string" where
  "append_n lib pathLen s count r =
     (if fst r \<noteq> 0 then r
      else case s_strncat lib (snd r) pathLen s count of None \<Rightarrow> (- 1, snd r) | Some p \<Rightarrow> (0, p))"

definition append_s :: "sec_lib \<Rightarrow> nat \<Rightarrow> string \<Rightarrow> int \<times> string \<Rightarrow> int \<times> string" where
  "append_s lib pathLen s r = append_n lib pathLen s (length s) r"

definition JoinFileNameTransient :: "sec_lib \<Rightarrow> u32 \<Rightarrow> string \<Rightarrow> nat \<Rightarrow> int \<times> string" where
  "JoinFileNameTransient lib userId name pathLen =
     (let r = GetTransientDir lib pathLen in
      if fst r \<noteq> 0 then r
      else if userId \<noteq> 0 then
        (case s_printf lib USER_PATH_SIZE (USER_PATH_SIZE - 1) (dec_str (unat userId) @ ''/'') of
           None \<Rightarrow> (- 1, snd r)
         | Some userPath \<Rightarrow>
             let r1 = append_s lib pathLen userPath (append_s lib pathLen SFS_PARTITION_USER_SYMLINK r) in
             if fst r1 \<noteq> 0 then r1
             else if length name \<le> length SFS_PARTITION_TRANSIENT then (- 1, snd r1)
             else append_s lib pathLen (drop (length SFS_PARTITION_TRANSIENT) name) r1)
      else append_s lib pathLen name r)"

definition GetDefaultDir :: "sec_lib \<Rightarrow> nat \<Rightarrow> int \<times> string" where
  "GetDefaultDir lib pathLen = append_s lib pathLen SFS_PARTITION_PERSISTENT (GetPersistentDir lib pathLen)"

definition DoJoinFileName :: "sec_lib \<Rightarrow> string \<Rightarrow> nat \<Rightarrow> int \<times> string" where
  "DoJoinFileName lib name pathLen =
     (let r = (if starts_with name SFS_PARTITION_TRANSIENT_PERSO \<or> starts_with name SFS_PARTITION_TRANSIENT_PRIVATE
               then GetTransientDir lib pathLen
               else if starts_with name SFS_PARTITION_PERSISTENT then GetPersistentDir lib pathLen
               else GetDefaultDir lib pathLen)
      in if fst r \<noteq> 0 then (- 1, snd r) else append_s lib pathLen name r)"

text \<open>
  The name is copied to a buffer of 256 bytes without its NUL. When it fills the buffer, \<^verbatim>\<open>strtok_r\<close>
  reads past its end: \<^const>\<open>None\<close>.
\<close>

definition JoinFileNameForStorageCE :: "sec_lib \<Rightarrow> string \<Rightarrow> nat \<Rightarrow> (int \<times> string) option" where
  "JoinFileNameForStorageCE lib name pathLen =
     (if \<not> s_memcpy lib FILE_NAME_MAX_BUF (length name) then Some (- 1, [])
      else if length name = FILE_NAME_MAX_BUF then None
      else Some (case strtok_r name (CHR ''/'') of
          None \<Rightarrow> (- 1, [])
        | Some (idString, nameWithoutUserId) \<Rightarrow>
            (case s_strncpy lib pathLen SEC_STORAGE_DATA_CE (length SEC_STORAGE_DATA_CE + 1) of
               None \<Rightarrow> (- 1, [])
             | Some p \<Rightarrow>
                 append_s lib pathLen nameWithoutUserId
                   (append_n lib pathLen SEC_STORAGE_DATA_ROOT_DIR (length SEC_STORAGE_DATA_ROOT_DIR + 1)
                      (append_s lib pathLen idString (0, p))))))"

definition JoinFileName :: "sec_lib \<Rightarrow> u32 \<Rightarrow> u32 \<Rightarrow> string \<Rightarrow> nat \<Rightarrow> (int \<times> string) option" where
  "JoinFileName lib userId storageId name pathLen =
     (if CheckFileNameAndPath name \<noteq> 0 then Some (- 1, [])
      else if storageId = TEE_OBJECT_STORAGE_CE then JoinFileNameForStorageCE lib name pathLen
      else if starts_with name SFS_PARTITION_TRANSIENT then Some (JoinFileNameTransient lib userId name pathLen)
      else Some (DoJoinFileName lib name pathLen))"

section \<open>Validating paths\<close>

definition IsDataDir :: "sec_lib \<Rightarrow> string \<Rightarrow> bool \<Rightarrow> bool" where
  "IsDataDir lib path isUsers =
     (let r = append_s lib FILE_NAME_MAX_BUF (if isUsers then SFS_PARTITION_USER_SYMLINK else SFS_PARTITION_TRANSIENT)
                (GetTransientDir lib FILE_NAME_MAX_BUF)
      in if fst r \<noteq> 0 then False else starts_with path (snd r))"

definition IsRootDir :: "sec_lib \<Rightarrow> string \<Rightarrow> bool" where
  "IsRootDir lib path =
     (let r = append_s lib FILE_NAME_MAX_BUF SFS_PARTITION_PERSISTENT (GetPersistentDir lib FILE_NAME_MAX_BUF)
      in if fst r \<noteq> 0 then False else starts_with path (snd r))"

definition IsValidFilePath :: "sec_lib \<Rightarrow> string \<Rightarrow> bool" where
  "IsValidFilePath lib path =
     (if strstr path ''..'' then False
      else IsDataDir lib path False \<or> IsDataDir lib path True \<or> IsRootDir lib path \<or> starts_with path SEC_STORAGE_DATA_CE)"

section \<open>What the paths look like\<close>

text \<open>The storage directories: a valid path is in one of them and does not go up.\<close>

definition storage_dirs :: "string list" where
  "storage_dirs = [USER_DATA_DIR, SEC_STORAGE_DATA_CE]"

definition in_storage :: "string \<Rightarrow> bool" where
  "in_storage path \<longleftrightarrow> (\<exists>dir \<in> set storage_dirs. starts_with path dir)"

lemma root_persistent: "ROOT_DIR @ SFS_PARTITION_PERSISTENT = USER_DATA_DIR"
  by (simp add: fs_dirs)

lemma append_s_ok:
  assumes "sec_ok lib"
  shows "append_s lib n s r =
    (if fst r \<noteq> 0 then r else if length (snd r) + length s < n then (0, snd r @ s) else (- 1, snd r))"
  using assms by (simp add: append_s_def append_n_def sec_ok_def)

lemma dirs_ok:
  assumes "sec_ok lib"
  shows "GetTransientDir lib 256 = (0, USER_DATA_DIR)" "GetPersistentDir lib 256 = (0, ROOT_DIR)"
    "GetDefaultDir lib 256 = (0, USER_DATA_DIR)"
  using assms
  by (simp_all add: GetTransientDir_def GetPersistentDir_def GetDefaultDir_def GetPathStorage_def Let_def append_s_ok
      starts_with_def sec_ok_def fs_dirs)

lemma IsValidFilePath_iff:
  assumes "sec_ok lib"
  shows "IsValidFilePath lib path \<longleftrightarrow> \<not> strstr path ''..'' \<and> in_storage path"
proof -
  have "IsDataDir lib path u \<Longrightarrow> starts_with path USER_DATA_DIR" for u
    by (auto simp: IsDataDir_def FILE_NAME_MAX_BUF_def dirs_ok [OF assms] append_s_ok [OF assms] Let_def starts_with_iff
        split: if_splits)
  moreover have "IsRootDir lib path \<longleftrightarrow> starts_with path USER_DATA_DIR"
  proof -
    have "append_s lib 256 SFS_PARTITION_PERSISTENT (0, ROOT_DIR) = (0, USER_DATA_DIR)"
      unfolding append_s_ok [OF assms] by (simp add: root_persistent) (simp add: fs_dirs)
    then show ?thesis by (simp add: IsRootDir_def FILE_NAME_MAX_BUF_def dirs_ok [OF assms])
  qed
  ultimately show ?thesis by (auto simp: IsValidFilePath_def in_storage_def storage_dirs_def)
qed

end
