(* ===== verification/Open_Files.thy ===== *)
theory Open_Files
  imports Intrusive_List
begin

text \<open>
  The list of open files of the storage agent, \<^verbatim>\<open>src/teecd/fs_work_agent.c\<close>: a circular doubly linked list
  written by hand, without a list head. The links are those of \<open>Intrusive_List\<close>; a stream is
  its descriptor number, \<^const>\<open>None\<close> for a null \<^verbatim>\<open>FILE *\<close>. The locale \<open>node_list\<close> is interpreted
  on it: its nodes are a ring around the first file, or there is none.
\<close>

section \<open>The operations\<close>

text \<open>\<open>ffile\<close> are the allocated nodes with their streams, \<open>live\<close> counts them.\<close>

record file_table =
  g_firstFile :: addr
  flinks :: links
  ffile :: "addr \<Rightarrow> int option option"
  live :: nat

definition no_files :: file_table where
  "no_files = \<lparr>g_firstFile = 0, flinks = \<lparr>nxt = (\<lambda>_. 0), prv = (\<lambda>_. 0)\<rparr>, ffile = (\<lambda>_. None), live = 0\<rparr>"

definition free_node :: "addr \<Rightarrow> file_table \<Rightarrow> file_table" where
  "free_node p t = t\<lparr>ffile := (ffile t)(p := None), live := live t - 1\<rparr>"

text \<open>\<open>newFile\<close> is what \<^verbatim>\<open>malloc\<close> returned.\<close>

definition AddOpenFile :: "addr \<Rightarrow> int option \<Rightarrow> file_table \<Rightarrow> int \<times> file_table" where
  "AddOpenFile newFile pFile t =
     (if newFile = 0 then (- 1, t)
      else let t1 = t\<lparr>ffile := (ffile t)(newFile \<mapsto> pFile), live := live t + 1\<rparr>; h = flinks t1 in
        if g_firstFile t1 = 0
        then (0, t1\<lparr>g_firstFile := newFile, flinks := set_prv newFile newFile (set_nxt newFile newFile h)\<rparr>)
        else if prv h (g_firstFile t1) = 0 then (- 1, free_node newFile t1)
        else
          let h1 = set_nxt (prv h (g_firstFile t1)) newFile h;
              h2 = set_prv newFile (prv h1 (g_firstFile t1)) h1;
              h3 = set_nxt newFile (g_firstFile t1) h2;
              h4 = set_prv (g_firstFile t1) newFile h3
          in (0, t1\<lparr>flinks := h4\<rparr>))"

definition DelOpenFile :: "addr \<Rightarrow> file_table \<Rightarrow> file_table" where
  "DelOpenFile file t =
     (if file = 0 then t
      else let h = flinks t; next = nxt h file in
        if file = next then t\<lparr>g_firstFile := 0\<rparr>
        else if nxt h file = 0 \<or> prv h file = 0 then t
        else
          let t1 = (if file = g_firstFile t then t\<lparr>g_firstFile := nxt h file\<rparr> else t);
              h1 = set_prv next (prv h file) h;
              h2 = set_nxt (prv h1 file) next h1
          in t1\<lparr>flinks := h2\<rparr>)"

text \<open>
  The do-while loop, from node \<open>p\<close> on: the node that holds descriptor \<open>fd\<close>, or 0. \<^const>\<open>None\<close>: the loop read
  a node that is not allocated, or is still running after as many turns as there are nodes.
\<close>

fun find_loop :: "nat \<Rightarrow> int \<Rightarrow> file_table \<Rightarrow> addr \<Rightarrow> addr option" where
  "find_loop 0 fd t p = None"
| "find_loop (Suc fuel) fd t p =
     (case ffile t p of
        None \<Rightarrow> None
      | Some file \<Rightarrow>
        if file = Some fd then Some p
        else let p' = nxt (flinks t) p in
          if p' \<noteq> g_firstFile t \<and> p' \<noteq> 0 then find_loop fuel fd t p' else Some 0)"

definition FindOpenFile :: "int \<Rightarrow> file_table \<Rightarrow> (bool \<times> addr) option" where
  "FindOpenFile fd t =
     (if g_firstFile t = 0 then Some (False, 0)
      else map_option (\<lambda>p. (p \<noteq> 0, p)) (find_loop (live t) fd t (g_firstFile t)))"

section \<open>The list of the open files\<close>

definition files_ok :: "file_table \<Rightarrow> addr list \<Rightarrow> bool" where
  "files_ok t ps \<longleftrightarrow>
     (case ps of [] \<Rightarrow> g_firstFile t = 0 | l # xs \<Rightarrow> g_firstFile t = l \<and> ring (flinks t) l xs) \<and>
     0 \<notin> set ps \<and> distinct ps \<and> dom (ffile t) = set ps \<and> live t = length ps"

lemma files_ok_none: "files_ok no_files []"
  by (simp add: files_ok_def no_files_def)

text \<open>Any node of a ring can serve as its head.\<close>

lemma ring_rotate:
  assumes "ring h l (as @ x # bs)"
  shows "ring h x (bs @ l # as)"
proof -
  have "linked h ((l # as) @ x # (bs @ [l]))" using assms by (simp add: ring_def)
  then have "linked h ((l # as) @ [x]) \<and> linked h (x # (bs @ [l]))" by (rule iffD1 [OF linked_append])
  then have "linked h ((x # bs) @ l # (as @ [x]))" by (intro iffD2 [OF linked_append]) simp
  then show ?thesis using assms by (auto simp: ring_def)
qed

lemma AddOpenFile_ok:
  assumes ok: "files_ok t ps" and e: "e \<noteq> 0" "e \<notin> set ps"
  shows "fst (AddOpenFile e file t) = 0 \<and> files_ok (snd (AddOpenFile e file t)) (ps @ [e]) \<and>
    ffile (snd (AddOpenFile e file t)) = (ffile t)(e \<mapsto> file)"
proof (cases ps)
  case Nil
  then show ?thesis using ok e by (auto simp: files_ok_def AddOpenFile_def Let_def ring_def)
next
  case (Cons l xs)
  then have r: "ring (flinks t) l xs" and l: "g_firstFile t = l" "l \<noteq> 0" using ok by (auto simp: files_ok_def)
  have el: "e \<noteq> l" "e \<notin> set xs" using e(2) Cons by auto
  have pl: "prv (flinks t) l = last (l # xs)" by (rule ring_last [OF r])
  have pin: "last (l # xs) \<in> set ps" using Cons last_in_set [of "l # xs"] by auto
  then have p0: "last (l # xs) \<noteq> 0" "last (l # xs) \<noteq> e" using ok e(2) by (auto simp: files_ok_def)
  define h where "h = flinks (snd (AddOpenFile e file t))"
  have t': "AddOpenFile e file t = (0, t\<lparr>ffile := (ffile t)(e \<mapsto> file), live := live t + 1, flinks := h\<rparr>)"
    using e(1) l p0(1) pl by (simp add: AddOpenFile_def h_def Let_def)
  have "ring h l (xs @ [e])"
  proof (rule ring_link [of "flinks t" l xs "[]" e "last (l # xs)" l])
    show "nxt h a = (if a = last (l # xs) then e else if a = e then l else nxt (flinks t) a)" for a
      using e(1) l p0 pl by (auto simp: h_def AddOpenFile_def Let_def)
    show "prv h a = (if a = l then e else if a = e then last (l # xs) else prv (flinks t) a)" for a
      using e(1) l p0 pl el by (auto simp: h_def AddOpenFile_def Let_def)
  qed (use r el in auto)
  then show ?thesis using ok Cons e t' by (auto simp: files_ok_def)
qed

lemma DelOpenFile_ok:
  assumes ok: "files_ok t ps" and e: "e \<in> set ps"
  shows "files_ok (free_node e (DelOpenFile e t)) (remove1 e ps) \<and>
    ffile (free_node e (DelOpenFile e t)) = (ffile t)(e := None)"
proof -
  obtain l xs where ps: "ps = l # xs" using e by (cases ps) auto
  have r: "ring (flinks t) l xs" and l: "g_firstFile t = l" and nz: "0 \<notin> set ps" and d: "distinct ps"
    using ok by (auto simp: files_ok_def ps)
  have e0: "e \<noteq> 0" using e nz by metis
  have rest: "dom ((ffile t)(e := None)) = set (remove1 e ps)" "live t - 1 = length (remove1 e ps)" "0 \<notin> set (remove1 e ps)"
    "distinct (remove1 e ps)"
    using ok e by (auto simp: files_ok_def length_remove1 dest: notin_set_remove1)
  show ?thesis
  proof (cases "xs = []")
    case True
    then have "nxt (flinks t) e = e" "remove1 e ps = []" using e r by (auto simp: ps ring_def)
    then have "DelOpenFile e t = t\<lparr>g_firstFile := 0\<rparr>" using e0 by (simp add: DelOpenFile_def)
    then show ?thesis using rest \<open>remove1 e ps = []\<close> by (simp add: files_ok_def free_node_def)
  next
    case False
    \<comment> \<open>seen from \<open>e\<close>, the ring holds the others\<close>
    obtain ys where re: "ring (flinks t) e ys" and ys: "ys \<noteq> []" "set ys = set ps - {e}"
      and rot: "if e = l then ys = xs else \<exists>as bs. xs = as @ e # bs \<and> ys = bs @ l # as"
    proof (cases "e = l")
      case True
      then show ?thesis using that [of xs] r d False by (auto simp: ps)
    next
      case ne: False
      then obtain as bs where xs: "xs = as @ e # bs" using e ps by (auto dest: split_list)
      then show ?thesis using that [of "bs @ l # as"] ring_rotate [of "flinks t" l as e bs] r d ne by (auto simp: ps)
    qed
    have n: "nxt (flinks t) e = hd ys" "prv (flinks t) e = last ys"
      using ring_first [OF re] ring_last [OF re] ys by simp_all
    have mem: "hd ys \<in> set ps - {e}" "last ys \<in> set ps - {e}" using ys hd_in_set last_in_set by blast+
    then have nz2: "hd ys \<noteq> 0" "last ys \<noteq> 0" "hd ys \<noteq> e" "last ys \<noteq> e" using nz by (metis DiffE singletonI)+
    define h where "h = set_nxt (last ys) (hd ys) (set_prv (hd ys) (last ys) (flinks t))"
    have t': "DelOpenFile e t = t\<lparr>g_firstFile := (if e = l then hd ys else l), flinks := h\<rparr>"
      using e0 n nz2 l by (auto simp: DelOpenFile_def Let_def h_def)
    have nx: "\<And>a. nxt h a = (if a = last ys then hd ys else nxt (flinks t) a)"
      and pv: "\<And>a. prv h a = (if a = hd ys then last ys else prv (flinks t) a)" by (simp_all add: h_def)
    have "files_ok (free_node e (DelOpenFile e t)) (remove1 e ps)"
    proof (cases "e = l")
      case True
      obtain x zs where xz: "xs = x # zs" using False by (cases xs) auto
      have y: "ys = x # zs" using rot True xz by simp
      have "ring (flinks t) x (zs @ e # [])" using ring_rotate [of "flinks t" e "[]" x zs] re y by simp
      then have "ring h x (zs @ [])" by (rule ring_unlink [OF _ _ _ nx pv]) (simp_all add: y)
      moreover have rm: "remove1 e ps = x # zs" using True xz by (simp add: ps)
      moreover have "DelOpenFile e t = t\<lparr>g_firstFile := x, flinks := h\<rparr>" using t' True by (simp add: y)
      ultimately show ?thesis using rest [unfolded rm] by (simp add: files_ok_def free_node_def rm)
    next
      case ne: False
      then obtain as bs where xs: "xs = as @ e # bs" "ys = bs @ l # as" using rot by auto
      have "e \<notin> set as" using d xs ps by auto
      have "ring (flinks t) l (as @ e # bs)" using r unfolding xs(1) .
      then have "ring h l (as @ bs)" by (rule ring_unlink [OF _ _ _ nx pv]) (unfold xs(2), simp_all add: hd_append)
      moreover have rm: "remove1 e ps = l # as @ bs" using ne xs \<open>e \<notin> set as\<close> by (simp add: ps remove1_append)
      ultimately show ?thesis using rest [unfolded rm] ne by (simp add: files_ok_def free_node_def t' rm)
    qed
    then show ?thesis by (simp add: free_node_def t')
  qed
qed

interpretation open_list: node_list files_ok "\<lambda>e t. snd (AddOpenFile e f t)" "\<lambda>e t. free_node e (DelOpenFile e t)" "\<lambda>e. e \<noteq> 0"
  for f :: "int option"
  by unfold_locales (simp_all add: AddOpenFile_ok DelOpenFile_ok, simp add: files_ok_def)

lemma find_loop_ok:
  assumes "files_ok t (as @ p # bs)" "length (p # bs) \<le> fuel"
  shows "find_loop fuel fd t p =
    Some (case find (\<lambda>q. ffile t q = Some (Some fd)) (p # bs) of None \<Rightarrow> 0 | Some q \<Rightarrow> q)"
  using assms
proof (induction bs arbitrary: as p fuel)
  case Nil
  then obtain fuel' where f: "fuel = Suc fuel'" by (cases fuel) auto
  have "nxt (flinks t) p = g_firstFile t"
  proof (cases as)
    case Nil
    then show ?thesis using \<open>files_ok t (as @ [p])\<close> by (auto simp: files_ok_def ring_def)
  next
    case (Cons l xs)
    then have "ring (flinks t) l (xs @ p # [])" "g_firstFile t = l" using \<open>files_ok t (as @ [p])\<close> by (auto simp: files_ok_def)
    then show ?thesis using ring_neighbours(2) by fastforce
  qed
  moreover obtain f0 where "ffile t p = Some f0" using Nil(1) by (auto simp: files_ok_def)
  ultimately show ?case by (simp add: f)
next
  case (Cons b bs)
  then obtain fuel' where f: "fuel = Suc fuel'" "length (b # bs) \<le> fuel'" by (cases fuel) auto
  have ok: "files_ok t ((as @ [p]) @ b # bs)" using Cons.prems(1) by simp
  have nb: "nxt (flinks t) p = b \<and> b \<noteq> g_firstFile t \<and> b \<noteq> 0"
  proof (cases as)
    case Nil
    then show ?thesis using ok by (auto simp: files_ok_def ring_def)
  next
    case (Cons l xs)
    then have "ring (flinks t) l (xs @ p # b # bs)" "g_firstFile t = l" "b \<noteq> l" "b \<noteq> 0" using ok by (auto simp: files_ok_def)
    then show ?thesis using ring_neighbours(2) [of "flinks t" l xs p "b # bs"] by simp
  qed
  obtain f0 where f0: "ffile t p = Some f0" using ok by (auto simp: files_ok_def)
  show ?case using Cons.IH [OF ok f(2)] nb f0 by (simp add: f(1) Let_def)
qed

lemma FindOpenFile_ok:
  assumes "files_ok t ps"
  shows "FindOpenFile fd t = Some (case find (\<lambda>q. ffile t q = Some (Some fd)) ps of None \<Rightarrow> (False, 0) | Some q \<Rightarrow> (True, q))"
proof (cases ps)
  case Nil
  then show ?thesis using assms by (simp add: FindOpenFile_def files_ok_def)
next
  case (Cons l xs)
  have "find_loop (live t) fd t l = Some (case find (\<lambda>q. ffile t q = Some (Some fd)) ps of None \<Rightarrow> 0 | Some q \<Rightarrow> q)"
    using find_loop_ok [of t "[]" l xs "live t"] assms Cons by (simp add: files_ok_def)
  moreover have "g_firstFile t = l" "l \<noteq> 0" using assms Cons by (auto simp: files_ok_def)
  moreover have "find (\<lambda>q. ffile t q = Some (Some fd)) ps = Some q \<Longrightarrow> q \<noteq> 0" for q
    using assms by (auto simp: files_ok_def find_Some_iff)
  ultimately show ?thesis by (auto simp: FindOpenFile_def split: option.splits)
qed

end
