(* ===== verification/Fs_Agent.thy ===== *)
theory Fs_Agent
  imports Fs_Paths Open_Files Bytes
begin

text \<open>
  The requests the storage agent handles for the trusted side, \<^verbatim>\<open>src/teecd/fs_work_agent.c\<close>: one definition for each
  entry of its work table, and the loop of its thread. A request is the shared memory: its fixed fields and the
  bytes of the union \<^verbatim>\<open>args\<close> with everything behind it, which handlers read and write at the offsets of C.

  The file system answers each call from an arbitrary sequence and every call is logged; \<^verbatim>\<open>errno\<close> is part of the state.
  Walking a directory tree and copying a file take fuel, since nothing bounds what the file system answers: the
  result \<^const>\<open>None\<close> is "has not ended". An access outside a buffer or to a node that is not there sets \<open>overrun\<close>.
\<close>

section \<open>The state\<close>

datatype fs_call =
    Malloc | Realpath string | Fopen string string | Fclose int | Fread int nat | Feof int | Fwrite int "u8 list" | Fflush int
  | Fseek int int int | Ftell int | Fstat int | Fsync int | Chmod string bool | Access string int | Mkdir string
  | Stat string | Lstat string | Unlink string | Opendir string | Readdir string | Closedir string | Rmdir string
  | Truncate string nat | Rename string string | OpenRead string | OpenWrite string | ReadFd int | WriteFd int "u8 list"
  | CloseFd int | Statfs string | WaitEvent | SendResponse

text \<open>An answer: the return value, \<^verbatim>\<open>errno\<close> after the call, and what the call hands back.\<close>

record answer =
  a_ret :: int
  a_errno :: int
  a_str :: "string option"
  a_bytes :: "u8 list"
  a_num :: u64
  a_num2 :: u64

record fs_state =
  lib :: sec_lib
  answers :: "nat \<Rightarrow> answer"
  tick :: nat
  calls :: "fs_call list"
  errno :: int
  overrun :: bool
  files :: file_table
  g_userId :: u32
  g_storageId :: u32

definition sys :: "fs_call \<Rightarrow> fs_state \<Rightarrow> answer \<times> fs_state" where
  "sys c s =
     (let a = answers s (tick s) in (a, s\<lparr>tick := Suc (tick s), calls := calls s @ [c], errno := a_errno a\<rparr>))"

text \<open>A call of which only the return value matters.\<close>

definition sys_ret :: "fs_call \<Rightarrow> fs_state \<Rightarrow> int \<times> fs_state" where
  "sys_ret c s = (case sys c s of (a, s1) \<Rightarrow> (a_ret a, s1))"

definition flag :: "bool \<Rightarrow> fs_state \<Rightarrow> fs_state" where
  "flag bad s = (if bad then s\<lparr>overrun := True\<rparr> else s)"

text \<open>\<^verbatim>\<open>malloc\<close> of a node of the file list: null or an address without a node.\<close>

definition malloc_node :: "fs_state \<Rightarrow> addr \<times> fs_state" where
  "malloc_node s = (case sys Malloc s of (a, s1) \<Rightarrow>
     (if ffile (files s1) (nat (a_ret a)) \<noteq> None then 0 else nat (a_ret a), s1))"

section \<open>Requests\<close>

datatype FsCmdType = SEC_OPEN | SEC_CLOSE | SEC_READ | SEC_WRITE | SEC_SEEK | SEC_REMOVE | SEC_TRUNCATE | SEC_RENAME
  | SEC_CREATE | SEC_INFO | SEC_ACCESS | SEC_ACCESS2 | SEC_FSYNC | SEC_CP | SEC_DISKUSAGE | SEC_DELETE_ALL

definition SEC_WRITE_SSA :: int where "SEC_WRITE_SSA = 1"
definition AGENT_FS_ID :: u32 where "AGENT_FS_ID = 0x46536673"
definition KINDS_OF_SSA_MODE :: nat where "KINDS_OF_SSA_MODE = 4"
definition MAXBSIZE :: nat where "MAXBSIZE = 65536"
definition KBYTE :: u32 where "KBYTE = 1024"

text \<open>\<open>cmd\<close> is \<^const>\<open>None\<close> for a number of \<^verbatim>\<open>SEC_MAX\<close> or more.\<close>

record SecStorageType =
  cmd :: "FsCmdType option"
  ret :: int
  ret2 :: int
  userId :: u32
  storageId :: u32
  magic :: u32
  error :: u32
  args :: "u8 list"

definition arg_u32 :: "nat \<Rightarrow> SecStorageType \<Rightarrow> u32" where "arg_u32 off r = u32_at (args r) off"
definition arg_int :: "nat \<Rightarrow> SecStorageType \<Rightarrow> int" where "arg_int off r = sint (u32_at (args r) off)"

definition put_u32 :: "nat \<Rightarrow> u32 \<Rightarrow> SecStorageType \<Rightarrow> SecStorageType" where
  "put_u32 off v r = r\<lparr>args := put_bytes off (le_bytes 4 v) (args r)\<rparr>"

text \<open>A string of the request; reading on past the end of the shared memory is an overrun.\<close>

definition arg_str :: "nat \<Rightarrow> SecStorageType \<Rightarrow> fs_state \<Rightarrow> string \<times> fs_state" where
  "arg_str off r s = (case c_str off (args r) of (str, ended) \<Rightarrow> (str, flag (\<not> ended) s))"

definition to_u32 :: "int \<Rightarrow> u32" where "to_u32 e = word_of_int e"

text \<open>The common end of a handler: the result and, unless it is 0, the error number.\<close>

definition finish :: "int \<Rightarrow> SecStorageType \<Rightarrow> fs_state \<Rightarrow> SecStorageType \<times> fs_state" where
  "finish rc r s = (r\<lparr>ret := rc, error := if rc \<noteq> 0 then to_u32 (errno s) else error r\<rparr>, s)"

definition fail :: "int \<Rightarrow> SecStorageType \<Rightarrow> fs_state \<Rightarrow> SecStorageType \<times> fs_state" where
  "fail e r s = (r\<lparr>ret := - 1, error := to_u32 e\<rparr>, s)"

section \<open>Names\<close>

definition SetCurrentUserId :: "u32 \<Rightarrow> fs_state \<Rightarrow> fs_state" where "SetCurrentUserId i s = s\<lparr>g_userId := i\<rparr>"
definition SetCurrentStorageId :: "u32 \<Rightarrow> fs_state \<Rightarrow> fs_state" where "SetCurrentStorageId i s = s\<lparr>g_storageId := i\<rparr>"

text \<open>\<^verbatim>\<open>JoinFileName\<close> of the string at an offset of the request, for the current user and storage.\<close>

definition join_arg :: "nat \<Rightarrow> SecStorageType \<Rightarrow> fs_state \<Rightarrow> (int \<times> string) \<times> fs_state" where
  "join_arg off r s =
     (case arg_str off r s of (name, s1) \<Rightarrow>
      case JoinFileName (lib s1) (g_userId s1) (g_storageId s1) name FILE_NAME_MAX_BUF of
        None \<Rightarrow> ((- 1, []), flag True s1)
      | Some p \<Rightarrow> (p, s1))"

definition set_ids :: "SecStorageType \<Rightarrow> fs_state \<Rightarrow> fs_state" where
  "set_ids r s = SetCurrentStorageId (storageId r) (SetCurrentUserId (userId r) s)"

section \<open>Directories and files\<close>

definition ChownSecStorageDataToSystem :: "string \<Rightarrow> bool \<Rightarrow> fs_state \<Rightarrow> fs_state" where
  "ChownSecStorageDataToSystem path flg s =
     (if strstr path ''sec_storage_data'' then snd (sys (Chmod path flg) s) else s)"

text \<open>The loop of \<^verbatim>\<open>CreateDir\<close> over the positions of the path; \<open>is\<close> are those of the slashes.\<close>

fun mkdir_loop :: "string \<Rightarrow> nat list \<Rightarrow> fs_state \<Rightarrow> int \<times> fs_state" where
  "mkdir_loop path [] s = (0, s)"
| "mkdir_loop path (i # is) s =
     (case sys_ret (Access (take i path) 0) s of (found, s1) \<Rightarrow>
        if found = 0 then mkdir_loop path is s1
        else case sys_ret (Mkdir (take i path)) s1 of (made, s2) \<Rightarrow>
          if made \<noteq> 0 then (- 1, s2)
          else mkdir_loop path is (ChownSecStorageDataToSystem (take i path) False s2))"

definition CreateDir :: "string \<Rightarrow> nat \<Rightarrow> fs_state \<Rightarrow> int \<times> fs_state" where
  "CreateDir path pathLen s =
     (if CheckPathLen path pathLen \<noteq> 0 then (- 1, s)
      else case sys_ret Malloc s of (dup, s1) \<Rightarrow>
        if dup = 0 then (- 1, s1)
        else let start = (if starts_with path ''/'' then 1 else if starts_with path ''./'' then 2 else 0)
             in mkdir_loop path (filter (\<lambda>i. path ! i = CHR ''/'') [start..<length path]) s1)"

text \<open>The error number, or 0 and the path to use.\<close>

definition GetRealFilePath :: "string \<Rightarrow> nat \<Rightarrow> fs_state \<Rightarrow> int \<times> string \<times> fs_state" where
  "GetRealFilePath originPath tPathLen s =
     (case sys (Realpath originPath) s of (a, s1) \<Rightarrow>
        case a_str a of
          None \<Rightarrow>
            if errno s1 \<noteq> ENOENT_no \<and> errno s1 \<noteq> EACCES_no then (errno s1, [], s1)
            else if \<not> IsValidFilePath (lib s1) originPath then (ENFILE_no, [], s1)
            else (case s_strncpy (lib s1) tPathLen originPath (length originPath) of
                None \<Rightarrow> (EPERM_no, [], s1)
              | Some p \<Rightarrow> (0, p, s1))
        | Some trustPath \<Rightarrow>
            if \<not> IsValidFilePath (lib s1) trustPath then (ENFILE_no, trustPath, s1) else (0, trustPath, s1))"

text \<open>
  \<open>unlink_rec\<close> is \<^verbatim>\<open>UnlinkRecursive\<close>, \<open>unlink_dir\<close> the loop of \<^verbatim>\<open>UnlinkRecursiveDir\<close> over the entries of an
  open directory with its end. \<open>a_ret\<close> 1 of \<^verbatim>\<open>lstat\<close> says that it is a directory.
\<close>

fun unlink_rec :: "nat \<Rightarrow> string \<Rightarrow> fs_state \<Rightarrow> (int \<times> fs_state) option"
and unlink_dir :: "nat \<Rightarrow> string \<Rightarrow> fs_state \<Rightarrow> (int \<times> fs_state) option" where
  "unlink_rec 0 name s = None"
| "unlink_rec (Suc fuel) name s =
     (case sys_ret (Lstat name) s of (st, s1) \<Rightarrow>
        if st < 0 then Some (- 1, s1)
        else if st \<noteq> 1 then
          (case sys_ret (Unlink name) s1 of (rc, s2) \<Rightarrow> Some (if rc < 0 then - 1 else 0, s2))
        else (case sys_ret (Opendir name) s1 of (dir, s2) \<Rightarrow>
          if dir = 0 then Some (- 1, s2) else unlink_dir fuel name (s2\<lparr>errno := 0\<rparr>)))"
| "unlink_dir 0 name s = None"
| "unlink_dir (Suc fuel) name s =
     (case sys (Readdir name) s of (de, s1) \<Rightarrow>
        case a_str de of
          None \<Rightarrow>
            if errno s1 < 0 then Some (- 1, (snd (sys (Closedir name) s1))\<lparr>errno := errno s1\<rparr>)
            else (case sys_ret (Closedir name) s1 of (rc, s2) \<Rightarrow>
              if rc < 0 then Some (- 1, s2)
              else case sys_ret (Rmdir name) s2 of (rc, s3) \<Rightarrow> Some (if rc < 0 then - 1 else 0, s3))
        | Some d_name \<Rightarrow>
            if d_name = ''..'' \<or> d_name = ''.'' then unlink_dir fuel name s1
            else (case s_printf (lib s1) PATH_MAX (PATH_MAX - 1) (name @ ''/'' @ d_name) of
                None \<Rightarrow> Some (- 1, (snd (sys (Closedir name) s1))\<lparr>errno := errno s1\<rparr>)
              | Some dn \<Rightarrow>
                  (case unlink_rec fuel dn s1 of
                     None \<Rightarrow> None
                   | Some (rc, s2) \<Rightarrow>
                       if rc < 0 then Some (- 1, (snd (sys (Closedir name) s2))\<lparr>errno := errno s2\<rparr>)
                       else unlink_dir fuel name (s2\<lparr>errno := 0\<rparr>))))"

definition IsFileExist :: "string \<Rightarrow> fs_state \<Rightarrow> bool \<times> fs_state" where
  "IsFileExist name s =
     (case sys_ret (Stat name) s of (rc, s1) \<Rightarrow> (\<not> (rc \<noteq> 0 \<and> errno s1 = ENOENT_no), s1))"

section \<open>The handlers\<close>

definition find_open :: "int \<Rightarrow> fs_state \<Rightarrow> (bool \<times> addr) \<times> fs_state" where
  "find_open fd s = (case FindOpenFile fd (files s) of None \<Rightarrow> ((False, 0), flag True s) | Some r \<Rightarrow> (r, s))"

text \<open>The error number, 0 for success.\<close>

definition DoOpenFile :: "string \<Rightarrow> SecStorageType \<Rightarrow> fs_state \<Rightarrow> int \<times> SecStorageType \<times> fs_state" where
  "DoOpenFile path r s =
     (case GetRealFilePath path PATH_MAX s of (rRet, trustPath, s1) \<Rightarrow>
        if rRet \<noteq> 0 then (rRet, r, s1)
        else case arg_str 0 r s1 of (mode, s2) \<Rightarrow>
          case sys_ret (Fopen trustPath mode) s2 of (fd, s3) \<Rightarrow>
            if fd < 0 then (errno s3, r, s3)
            else let s4 = ChownSecStorageDataToSystem trustPath True s3 in
              case malloc_node s4 of (newFile, s5) \<Rightarrow>
              case AddOpenFile newFile (Some fd) (files s5) of (rc, table) \<Rightarrow>
                let s6 = s5\<lparr>files := table\<rparr> in
                if rc \<noteq> 0 then (ENOMEM_no, r, snd (sys (Fclose fd) s6)) else (0, r\<lparr>ret := fd\<rparr>, s6))"

definition CheckOpenWorkValid :: "SecStorageType \<Rightarrow> string \<Rightarrow> fs_state \<Rightarrow> int \<times> SecStorageType \<times> fs_state" where
  "CheckOpenWorkValid r nameBuff s =
     (if cmd r = Some SEC_CREATE then
        (case s_strncpy (lib s) KINDS_OF_SSA_MODE ''w+'' 3 of
           None \<Rightarrow> (ENOENT_no, r, s)
         | Some mode \<Rightarrow> (0, r\<lparr>args := put_bytes 0 (map (\<lambda>c. of_nat (of_char c)) mode @ [0]) (args r)\<rparr>, s))
      else case IsFileExist nameBuff s of (exists, s1) \<Rightarrow> (if \<not> exists then ENOENT_no else 0, r, s1))"

definition OpenWork :: "SecStorageType \<Rightarrow> fs_state \<Rightarrow> SecStorageType \<times> fs_state" where
  "OpenWork r s =
     (case join_arg 8 r (set_ids r s) of ((rc, nameBuff), s1) \<Rightarrow>
        if rc \<noteq> 0 then (r\<lparr>ret := - 1\<rparr>, s1)
        else case CheckOpenWorkValid r nameBuff s1 of (rc, r1, s2) \<Rightarrow>
          if rc \<noteq> 0 then fail ENOENT_no r1 s2
          else case CreateDir nameBuff FILE_NAME_MAX_BUF s2 of (rc, s3) \<Rightarrow>
            if rc \<noteq> 0 then fail (errno s3) r1 s3
            else case DoOpenFile nameBuff r1 s3 of (e, r2, s4) \<Rightarrow>
              if e \<noteq> 0 then fail e r2 s4 else (r2, s4))"

definition CloseWork :: "SecStorageType \<Rightarrow> fs_state \<Rightarrow> SecStorageType \<times> fs_state" where
  "CloseWork r s =
     (case find_open (arg_int 0 r) s of ((found, selFile), s1) \<Rightarrow>
        if found then
          (case sys_ret (Fclose (arg_int 0 r)) s1 of (rc, s2) \<Rightarrow>
             if rc = 0 then (r\<lparr>ret := rc\<rparr>, s2\<lparr>files := free_node selFile (DelOpenFile selFile (files s2))\<rparr>)
             else finish rc r s2)
        else fail EBADF_no r s1)"

definition int_of_count :: "nat \<Rightarrow> int" where "int_of_count n = sint (of_nat n :: u32)"

definition ReadWork :: "SecStorageType \<Rightarrow> fs_state \<Rightarrow> SecStorageType \<times> fs_state" where
  "ReadWork r s =
     (let count = unat (arg_u32 4 r) in
      case find_open (arg_int 0 r) s of ((found, selFile), s1) \<Rightarrow>
        if found then
          (case sys (Fread (arg_int 0 r) count) s1 of (a, s2) \<Rightarrow>
             let data = take count (a_bytes a); n = length data;
                 s3 = flag (8 + n > length (args r)) s2;
                 r1 = r\<lparr>args := put_bytes 8 data (args r), ret := int_of_count n\<rparr>
             in if n < count then
                  (case sys_ret (Feof (arg_int 0 r)) s3 of (eof, s4) \<Rightarrow>
                     if eof \<noteq> 0 then (r1\<lparr>ret2 := 0\<rparr>, s4) else (r1\<lparr>ret2 := - 1, error := to_u32 (errno s4)\<rparr>, s4))
                else (r1\<lparr>ret2 := 0\<rparr>, s3))
        else (r\<lparr>ret := 0, ret2 := - 1, error := to_u32 EBADF_no\<rparr>, s1))"

definition WriteWork :: "SecStorageType \<Rightarrow> fs_state \<Rightarrow> SecStorageType \<times> fs_state" where
  "WriteWork r s =
     (let count = unat (arg_u32 4 r) in
      case find_open (arg_int 0 r) s of ((found, selFile), s1) \<Rightarrow>
        if found then
          (case sys_ret (Fwrite (arg_int 0 r) (take count (drop 8 (args r)))) (flag (8 + count > length (args r)) s1) of (w, s2) \<Rightarrow>
             let n = min (nat w) count in
             if n < count then (r\<lparr>ret := int_of_count n, error := to_u32 (errno s2)\<rparr>, s2)
             else if ret2 r = SEC_WRITE_SSA then
               (case sys_ret (Fflush (arg_int 0 r)) s2 of (rc, s3) \<Rightarrow>
                  if rc \<noteq> 0 then (r\<lparr>ret := 0, error := to_u32 (errno s3)\<rparr>, s3) else (r\<lparr>ret := int_of_count n\<rparr>, s3))
             else (r\<lparr>ret := int_of_count n, error := 0\<rparr>, s2))
        else (r\<lparr>ret := 0, error := to_u32 EBADF_no\<rparr>, s1))"

definition SeekWork :: "SecStorageType \<Rightarrow> fs_state \<Rightarrow> SecStorageType \<times> fs_state" where
  "SeekWork r s =
     (case find_open (arg_int 0 r) s of ((found, selFile), s1) \<Rightarrow>
        if found then
          (case sys_ret (Fseek (arg_int 0 r) (arg_int 4 r) (arg_int 8 r)) s1 of (rc, s2) \<Rightarrow> finish rc r s2)
        else fail EBADF_no r s1)"

definition RemoveWork :: "nat \<Rightarrow> SecStorageType \<Rightarrow> fs_state \<Rightarrow> (SecStorageType \<times> fs_state) option" where
  "RemoveWork fuel r s =
     (case join_arg 4 r (set_ids r s) of ((rc, nameBuff), s1) \<Rightarrow>
        if rc = 0 then map_option (\<lambda>(rc, s2). finish rc r s2) (unlink_rec fuel nameBuff s1)
        else Some (r\<lparr>ret := - 1\<rparr>, s1))"

definition TruncateWork :: "SecStorageType \<Rightarrow> fs_state \<Rightarrow> SecStorageType \<times> fs_state" where
  "TruncateWork r s =
     (case join_arg 8 r (set_ids r s) of ((rc, nameBuff), s1) \<Rightarrow>
        if rc = 0 then
          (case sys_ret (Truncate nameBuff (unat (arg_u32 0 r))) s1 of (rc, s2) \<Rightarrow> finish rc r s2)
        else (r\<lparr>ret := - 1\<rparr>, s1))"

definition RenameWork :: "SecStorageType \<Rightarrow> fs_state \<Rightarrow> SecStorageType \<times> fs_state" where
  "RenameWork r s =
     (case join_arg 8 r (set_ids r s) of ((rc1, nameBuff), s1) \<Rightarrow>
      case join_arg (8 + unat (arg_u32 0 r)) r s1 of ((rc2, nameBuff2), s2) \<Rightarrow>
        if rc1 = 0 \<and> rc2 = 0 then
          (case sys_ret (Rename nameBuff nameBuff2) s2 of (rc, s3) \<Rightarrow> finish rc r s3)
        else (r\<lparr>ret := - 1\<rparr>, s2))"

text \<open>The loop of \<^verbatim>\<open>DoCopy\<close>, from a read on.\<close>

fun copy_loop :: "nat \<Rightarrow> int \<Rightarrow> int \<Rightarrow> fs_state \<Rightarrow> (int \<times> fs_state) option" where
  "copy_loop 0 fromFd toFd s = None"
| "copy_loop (Suc fuel) fromFd toFd s =
     (case sys (ReadFd fromFd) s of (a, s1) \<Rightarrow>
        let buf = take MAXBSIZE (a_bytes a) in
        if a_ret a < 0 then Some (- 1, s1)
        else if buf = [] then Some (sys_ret (Fsync toFd) s1)
        else case sys_ret (WriteFd toFd buf) s1 of (wcount, s2) \<Rightarrow>
          if wcount \<noteq> int (length buf) then Some (- 1, s2) else copy_loop fuel fromFd toFd s2)"

definition DoCopy :: "nat \<Rightarrow> int \<Rightarrow> int \<Rightarrow> fs_state \<Rightarrow> (int \<times> fs_state) option" where
  "DoCopy fuel fromFd toFd s =
     (case sys_ret Malloc s of (buf, s1) \<Rightarrow> if buf = 0 then Some (- 1, s1) else copy_loop fuel fromFd toFd s1)"

definition close_fds :: "int list \<Rightarrow> fs_state \<Rightarrow> fs_state" where
  "close_fds fds s = fold (\<lambda>fd s. snd (sys (CloseFd fd) s)) fds s"

definition CopyFile :: "nat \<Rightarrow> string \<Rightarrow> string \<Rightarrow> fs_state \<Rightarrow> (int \<times> fs_state) option" where
  "CopyFile fuel fromPath toPath s =
     (case GetRealFilePath fromPath PATH_MAX s of (e1, realFromPath, s1) \<Rightarrow>
      if e1 \<noteq> 0 then Some (- 1, s1)
      else case GetRealFilePath toPath PATH_MAX s1 of (e2, realToPath, s2) \<Rightarrow>
      if e2 \<noteq> 0 then Some (- 1, s2)
      else case sys_ret (OpenRead realFromPath) s2 of (fromFd, s3) \<Rightarrow>
      if fromFd = - 1 then Some (- 1, s3)
      else case sys_ret (Fstat fromFd) s3 of (rc, s4) \<Rightarrow>
      if rc = - 1 then Some (rc, close_fds [fromFd] s4)
      else case sys_ret (OpenWrite realToPath) s4 of (toFd, s5) \<Rightarrow>
      if toFd = - 1 then Some (- 1, close_fds [fromFd] s5)
      else case DoCopy fuel fromFd toFd s5 of
        None \<Rightarrow> None
      | Some (rc, s6) \<Rightarrow>
          Some (rc, close_fds [fromFd, toFd] (if rc \<noteq> 0 then s6 else ChownSecStorageDataToSystem realToPath True s6)))"

definition CopyWork :: "nat \<Rightarrow> SecStorageType \<Rightarrow> fs_state \<Rightarrow> (SecStorageType \<times> fs_state) option" where
  "CopyWork fuel r s =
     (case join_arg 8 r (set_ids r s) of ((rc1, fromPath), s1) \<Rightarrow>
      case join_arg (8 + unat (arg_u32 0 r)) r s1 of ((rc2, toPath), s2) \<Rightarrow>
        if rc1 = 0 \<and> rc2 = 0 then map_option (\<lambda>(rc, s3). finish rc r s3) (CopyFile fuel fromPath toPath s2)
        else Some (r\<lparr>ret := - 1\<rparr>, s2))"

definition FileInfoWork :: "SecStorageType \<Rightarrow> fs_state \<Rightarrow> SecStorageType \<times> fs_state" where
  "FileInfoWork r s =
     (let fd = arg_int 0 r; r0 = put_u32 8 0 (put_u32 4 0 r) in
      case find_open fd s of ((found, selFile), s1) \<Rightarrow>
        if found then
          (case sys (Fstat fd) s1 of (a, s2) \<Rightarrow>
             if a_ret a = 0 then
               (case sys_ret (Ftell fd) s2 of (pos, s3) \<Rightarrow>
                  ((put_u32 4 (to_u32 pos) (put_u32 8 (ucast (a_num a)) r0))\<lparr>ret := 0\<rparr>, s3))
             else finish (a_ret a) r0 s2)
        else fail EBADF_no r0 s1)"

definition FileAccessWork :: "SecStorageType \<Rightarrow> fs_state \<Rightarrow> SecStorageType \<times> fs_state" where
  "FileAccessWork r s =
     (let report = (\<lambda>(rc, s'). (r\<lparr>ret := rc, error := to_u32 (errno s')\<rparr>, s')) in
      if cmd r = Some SEC_ACCESS then
        (case join_arg 8 r (set_ids r s) of ((rc, nameBuff), s1) \<Rightarrow>
           if rc = 0 then report (sys_ret (Access nameBuff (arg_int 0 r)) s1) else (r\<lparr>ret := - 1\<rparr>, s1))
      else case arg_str 8 r s of (name, s1) \<Rightarrow> report (sys_ret (Access name (arg_int 0 r)) s1))"

definition FsyncWork :: "SecStorageType \<Rightarrow> fs_state \<Rightarrow> SecStorageType \<times> fs_state" where
  "FsyncWork r s =
     (let fd = arg_int 0 r in
      case (if fd \<noteq> 0 then find_open fd s else ((False, 0), s)) of ((found, selFile), s1) \<Rightarrow>
        if found then
          (case sys_ret (Fflush fd) s1 of (rc, s2) \<Rightarrow>
             if rc \<noteq> 0 then fail (errno s2) r s2
             else case sys_ret (Fsync fd) s2 of (rc, s3) \<Rightarrow>
               if rc \<noteq> 0 then fail (errno s3) r s3 else (r\<lparr>ret := 0\<rparr>, s3))
        else fail EBADF_no r s1)"

text \<open>The free space in kilobytes, in 32 bits.\<close>

definition remain_kb :: "answer \<Rightarrow> u32" where
  "remain_kb a = ucast (a_num a) * ucast (a_num2 a) div KBYTE"

definition DiskUsageWork :: "SecStorageType \<Rightarrow> fs_state \<Rightarrow> SecStorageType \<times> fs_state" where
  "DiskUsageWork r s =
     (case GetTransientDir (lib s) FILE_NAME_MAX_BUF of (rc, dir) \<Rightarrow>
      if rc \<noteq> 0 then fail (errno s) r s
      else case sys (Statfs dir) s of (a1, s1) \<Rightarrow>
      if a_ret a1 < 0 then fail (errno s1) r s1
      else case append_s (lib s1) FILE_NAME_MAX_BUF SFS_PARTITION_PERSISTENT (GetPersistentDir (lib s1) FILE_NAME_MAX_BUF) of
        (rc, dir2) \<Rightarrow>
      if rc \<noteq> 0 then fail (errno s1) r s1
      else case sys (Statfs dir2) s1 of (a2, s2) \<Rightarrow>
      if a_ret a2 < 0 then fail (errno s2) r s2
      else ((put_u32 0 (remain_kb a2) (put_u32 4 (remain_kb a1) r))\<lparr>ret := 0\<rparr>, s2))"

definition DeleteAllWork :: "nat \<Rightarrow> SecStorageType \<Rightarrow> fs_state \<Rightarrow> (SecStorageType \<times> fs_state) option" where
  "DeleteAllWork fuel r s =
     (case arg_str 4 r (SetCurrentUserId (userId r) s) of (pathIn, s1) \<Rightarrow>
      case DoJoinFileName (lib s1) pathIn FILE_NAME_MAX_BUF of (rc, path) \<Rightarrow>
        if rc \<noteq> 0 then Some (r\<lparr>ret := - 1\<rparr>, s1)
        else map_option (\<lambda>(rc, s2). finish rc r s2) (unlink_rec fuel path s1))"

section \<open>The work table and the thread\<close>

fun g_fsWorkTbl :: "nat \<Rightarrow> FsCmdType \<Rightarrow> SecStorageType \<Rightarrow> fs_state \<Rightarrow> (SecStorageType \<times> fs_state) option" where
  "g_fsWorkTbl fuel SEC_OPEN r s = Some (OpenWork r s)"
| "g_fsWorkTbl fuel SEC_CLOSE r s = Some (CloseWork r s)"
| "g_fsWorkTbl fuel SEC_READ r s = Some (ReadWork r s)"
| "g_fsWorkTbl fuel SEC_WRITE r s = Some (WriteWork r s)"
| "g_fsWorkTbl fuel SEC_SEEK r s = Some (SeekWork r s)"
| "g_fsWorkTbl fuel SEC_REMOVE r s = RemoveWork fuel r s"
| "g_fsWorkTbl fuel SEC_TRUNCATE r s = Some (TruncateWork r s)"
| "g_fsWorkTbl fuel SEC_RENAME r s = Some (RenameWork r s)"
| "g_fsWorkTbl fuel SEC_CREATE r s = Some (OpenWork r s)"
| "g_fsWorkTbl fuel SEC_INFO r s = Some (FileInfoWork r s)"
| "g_fsWorkTbl fuel SEC_ACCESS r s = Some (FileAccessWork r s)"
| "g_fsWorkTbl fuel SEC_ACCESS2 r s = Some (FileAccessWork r s)"
| "g_fsWorkTbl fuel SEC_FSYNC r s = Some (FsyncWork r s)"
| "g_fsWorkTbl fuel SEC_CP r s = CopyWork fuel r s"
| "g_fsWorkTbl fuel SEC_DISKUSAGE r s = Some (DiskUsageWork r s)"
| "g_fsWorkTbl fuel SEC_DELETE_ALL r s = DeleteAllWork fuel r s"

definition fs_work :: "nat \<Rightarrow> SecStorageType \<Rightarrow> fs_state \<Rightarrow> (SecStorageType \<times> fs_state) option" where
  "fs_work fuel r s = (case cmd r of Some c \<Rightarrow> g_fsWorkTbl fuel c r s | None \<Rightarrow> Some (r, s))"

text \<open>
  The thread, on the requests the trusted side writes into the shared memory, one for each event. The result is
  what the trusted side finds there at each response.
\<close>

fun FsWorkThread :: "nat \<Rightarrow> SecStorageType list \<Rightarrow> fs_state \<Rightarrow> (SecStorageType list \<times> fs_state) option" where
  "FsWorkThread fuel [] s = Some ([], s)"
| "FsWorkThread fuel (r # rs) s =
     (case sys_ret WaitEvent s of (rc, s1) \<Rightarrow>
        if rc \<noteq> 0 then Some ([], s1)
        else (case fs_work fuel r s1 of
            None \<Rightarrow> None
          | Some (r1, s2) \<Rightarrow>
            case sys_ret SendResponse s2 of (rc, s3) \<Rightarrow>
              if rc \<noteq> 0 then Some ([r1\<lparr>magic := AGENT_FS_ID\<rparr>], s3)
              else map_option (\<lambda>(out, s4). (r1\<lparr>magic := AGENT_FS_ID\<rparr> # out, s4)) (FsWorkThread fuel rs s3)))"

end
