(* ===== verification/Fs_Safe.thy ===== *)
theory Fs_Safe
  imports Fs_Agent
begin

text \<open>
  What every handler of the storage agent keeps: the list of open files stays well formed, and a file is only opened under
  a path that passed the check, or under the empty path, when \<^verbatim>\<open>realpath\<close> fails without an error number. One lemma for each function, as a forward rule over the state it is called in.
\<close>

section \<open>The relation\<close>

definition opened_path :: "fs_call \<Rightarrow> string option" where
  "opened_path c = (case c of Fopen p m \<Rightarrow> Some p | OpenRead p \<Rightarrow> Some p | OpenWrite p \<Rightarrow> Some p | _ \<Rightarrow> None)"

definition call_ok :: "sec_lib \<Rightarrow> fs_call \<Rightarrow> bool" where
  "call_ok l c \<longleftrightarrow> (\<forall>p. opened_path c = Some p \<longrightarrow> IsValidFilePath l p \<or> p = [])"

definition evolves :: "fs_state \<Rightarrow> fs_state \<Rightarrow> bool" where
  "evolves s s' \<longleftrightarrow> lib s' = lib s \<and> (\<exists>cs. calls s' = calls s @ cs \<and> (\<forall>c \<in> set cs. call_ok (lib s) c)) \<and>
     (\<forall>ps. files_ok (files s) ps \<longrightarrow> (\<exists>ps'. files_ok (files s') ps'))"

named_theorems evo \<open>a function evolves the state\<close>

lemma evolves_refl [simp]: "evolves s s"
  by (auto simp: evolves_def)

lemma evolves_lib: "evolves s s' \<Longrightarrow> lib s' = lib s"
  by (simp add: evolves_def)

lemma evolves_errno [simp]:
  "evolves s (s'\<lparr>errno := e\<rparr>) = evolves s s'" "evolves s (flag b s') = evolves s s'"
  "evolves s (SetCurrentUserId i s') = evolves s s'" "evolves s (SetCurrentStorageId i s') = evolves s s'"
  "evolves s (set_ids r s') = evolves s s'"
  by (simp_all add: evolves_def flag_def SetCurrentUserId_def SetCurrentStorageId_def set_ids_def)

lemma evolves_trans: "evolves a b \<Longrightarrow> evolves b c \<Longrightarrow> evolves a c"
  unfolding evolves_def by (metis Un_iff append.assoc set_append)

lemma sys_evolves:
  assumes "evolves s0 s" "sys c s = (a, s')" "call_ok (lib s0) c"
  shows "evolves s0 s'"
proof -
  have "evolves s s'" using assms evolves_lib [OF assms(1)] by (auto simp: evolves_def sys_def Let_def)
  then show ?thesis by (rule evolves_trans [OF assms(1)])
qed

lemma sys_ret_evolves:
  assumes "evolves s0 s" "sys_ret c s = (a, s')" "call_ok (lib s0) c"
  shows "evolves s0 s'"
  using assms by (auto simp: sys_ret_def split: prod.splits dest: sys_evolves)

lemma snd_sys_evolves: "evolves s0 s \<Longrightarrow> call_ok (lib s0) c \<Longrightarrow> evolves s0 (snd (sys c s))"
  by (metis prod.collapse sys_evolves)

text \<open>Calls that open nothing are always fine.\<close>

lemma quiet_call [simp]: "opened_path c = None \<Longrightarrow> call_ok l c"
  by (simp add: call_ok_def)

lemmas quiet_sys [evo] = sys_evolves [OF _ _ quiet_call] and quiet_sys_ret [evo] = sys_ret_evolves [OF _ _ quiet_call]

declare opened_path_def [simp]

section \<open>Helpers\<close>

lemma finish_evolves [simp]: "finish rc r s = (r', s') \<Longrightarrow> s' = s" "fail e r s = (r', s') \<Longrightarrow> s' = s"
  by (auto simp: finish_def fail_def)

lemma arg_str_evolves [evo]: "evolves s0 s \<Longrightarrow> arg_str off r s = (x, s') \<Longrightarrow> evolves s0 s'"
  by (auto simp: arg_str_def split: prod.splits)

lemma join_arg_evolves [evo]: "evolves s0 s \<Longrightarrow> join_arg off r s = (x, s') \<Longrightarrow> evolves s0 s'"
  by (auto simp: join_arg_def split: prod.splits option.splits dest: evo)

lemma find_open_evolves [evo]: "evolves s0 s \<Longrightarrow> find_open fd s = (x, s') \<Longrightarrow> evolves s0 s'"
  by (auto simp: find_open_def split: option.splits)

lemma Chown_evolves [evo]: "evolves s0 s \<Longrightarrow> evolves s0 (ChownSecStorageDataToSystem p b s)"
  by (auto simp: ChownSecStorageDataToSystem_def intro: snd_sys_evolves)

lemma close_fds_evolves [evo]: "evolves s0 s \<Longrightarrow> evolves s0 (close_fds fds s)"
proof -
  have "evolves s0 (snd (sys (CloseFd fd) t))" if "evolves s0 t" for fd t
    using that by (rule snd_sys_evolves) simp
  then show "evolves s0 s \<Longrightarrow> evolves s0 (close_fds fds s)"
    unfolding close_fds_def by (induction fds arbitrary: s) auto
qed

lemma malloc_node_evolves [evo]: "evolves s0 s \<Longrightarrow> malloc_node s = (p, s') \<Longrightarrow> evolves s0 s'"
  by (auto simp: malloc_node_def split: prod.splits if_splits dest: evo)

lemma mkdir_loop_evolves [evo]: "evolves s0 s \<Longrightarrow> mkdir_loop path is s = (rc, s') \<Longrightarrow> evolves s0 s'"
proof (induction path "is" s rule: mkdir_loop.induct)
  case (2 path i "is" s)
  obtain found s1 made s2 where a: "sys_ret (Access (take i path) 0) s = (found, s1)" "sys_ret (Mkdir (take i path)) s1 = (made, s2)"
    by (metis surj_pair)
  have e1: "evolves s0 s1" by (rule quiet_sys_ret [OF "2.prems"(1) a(1)]) simp
  have e2: "evolves s0 s2" by (rule quiet_sys_ret [OF e1 a(2)]) simp
  show ?case using 2 a e1 e2 Chown_evolves [OF e2] by (auto split: if_splits)
qed simp

lemma CreateDir_evolves [evo]: "evolves s0 s \<Longrightarrow> CreateDir path n s = (rc, s') \<Longrightarrow> evolves s0 s'"
  by (auto simp: CreateDir_def Let_def split: prod.splits if_splits dest: evo)

lemma IsFileExist_evolves [evo]: "evolves s0 s \<Longrightarrow> IsFileExist p s = (b, s') \<Longrightarrow> evolves s0 s'"
  by (auto simp: IsFileExist_def split: prod.splits dest: evo)

text \<open>The one way to a path that is opened.\<close>

lemma GetRealFilePath_evolves [evo]: "evolves s0 s \<Longrightarrow> GetRealFilePath path n s = (e, p, s') \<Longrightarrow> evolves s0 s'"
  by (auto simp: GetRealFilePath_def split: prod.splits if_splits option.splits dest: evo)

lemma GetRealFilePath_valid:
  assumes "GetRealFilePath path n s = (0, p, s')" "sec_ok (lib s)" "length path < n"
  shows "IsValidFilePath (lib s) p \<or> p = []"
proof -
  have l: "lib s1 = lib s" if "sys c s = (a, s1)" for c a s1 using that by (auto simp: sys_def Let_def)
  have "s_strncpy (lib s) n path (length path) = Some path" using assms(2,3) by (simp add: sec_ok_def)
  then show ?thesis using assms(1)
    by (auto simp: GetRealFilePath_def dest!: l split: prod.splits if_splits option.splits)
qed

section \<open>Removing trees\<close>

lemma unlink_evolves:
  "evolves s0 s \<Longrightarrow> unlink_rec fuel name s = Some (rc, s') \<Longrightarrow> evolves s0 s'"
  "evolves s0 s \<Longrightarrow> unlink_dir fuel name s = Some (rc, s') \<Longrightarrow> evolves s0 s'"
proof (induction fuel name s and fuel name s arbitrary: rc s' and rc s' rule: unlink_rec_unlink_dir.induct)
  case (2 fuel name s)
  obtain st s1 where l: "sys_ret (Lstat name) s = (st, s1)" by (metis surj_pair)
  obtain rc1 s2 where u: "sys_ret (Unlink name) s1 = (rc1, s2)" by (metis surj_pair)
  obtain dir s3 where d: "sys_ret (Opendir name) s1 = (dir, s3)" by (metis surj_pair)
  have e1: "evolves s0 s1" by (rule quiet_sys_ret [OF "2.prems"(1) l]) simp
  have e2: "evolves s0 s2" by (rule quiet_sys_ret [OF e1 u]) simp
  have e3: "evolves s0 s3" by (rule quiet_sys_ret [OF e1 d]) simp
  show ?case
  proof (cases "st < 0 \<or> st \<noteq> 1 \<or> dir = 0")
    case True
    then show ?thesis using "2.prems"(2) l u d e1 e2 e3 by (auto split: if_splits)
  next
    case False
    then have "unlink_dir fuel name (s3\<lparr>errno := 0\<rparr>) = Some (rc, s')" using "2.prems"(2) l d by simp
    moreover have "evolves s0 (s3\<lparr>errno := 0\<rparr>)" using e3 by simp
    ultimately show ?thesis using "2.IH" [OF l [symmetric] _ _ d [symmetric]] False by blast
  qed
next
  case (4 fuel name s)
  obtain de s1 where d: "sys (Readdir name) s = (de, s1)" by (metis surj_pair)
  have e1: "evolves s0 s1" by (rule quiet_sys [OF "4.prems"(1) d]) simp
  have cl: "evolves s0 t \<Longrightarrow> evolves s0 (snd (sys (Closedir name) t))" for t by (rule snd_sys_evolves) simp_all
  show ?case
  proof (cases "a_str de")
    case None
    obtain rc1 s2 where c: "sys_ret (Closedir name) s1 = (rc1, s2)" by (metis surj_pair)
    obtain rc2 s3 where r: "sys_ret (Rmdir name) s2 = (rc2, s3)" by (metis surj_pair)
    have e2: "evolves s0 s2" by (rule quiet_sys_ret [OF e1 c]) simp
    have e3: "evolves s0 s3" by (rule quiet_sys_ret [OF e2 r]) simp
    have "s' \<in> {(snd (sys (Closedir name) s1))\<lparr>errno := errno s1\<rparr>, s2, s3}"
      using "4.prems"(2) d None c r by (auto split: if_splits)
    then show ?thesis using cl [OF e1] e2 e3 by auto
  next
    case (Some dn)
    show ?thesis
    proof (cases "dn = ''..'' \<or> dn = ''.''")
      case True
      then show ?thesis using "4.prems"(2) d e1 "4.IH"(1) [OF d [symmetric] Some True e1] Some by auto
    next
      case F: False
      show ?thesis
      proof (cases "s_printf (lib s1) PATH_MAX (PATH_MAX - 1) (name @ ''/'' @ dn)")
        case None
        then show ?thesis using "4.prems"(2) d e1 Some F by (auto intro: cl)
      next
        case P: (Some path)
        obtain rc2 s2 where u: "unlink_rec fuel path s1 = Some (rc2, s2)"
          using "4.prems"(2) d Some F P by (auto split: option.splits)
        have e2: "evolves s0 s2" by (rule "4.IH"(2) [OF d [symmetric] Some F P e1 u])
        show ?thesis
        proof (cases "rc2 < 0")
          case True
          then show ?thesis using "4.prems"(2) d Some F P u e2 by (auto intro: cl)
        next
          case N: False
          have "evolves s0 (s2\<lparr>errno := 0\<rparr>)" using e2 by simp
          from "4.IH"(3) [OF d [symmetric] Some F P u refl N this] show ?thesis
            using "4.prems"(2) d Some F P u N by auto
        qed
      qed
    qed
  qed
qed simp_all

declare unlink_rec.simps [simp del] unlink_dir.simps [simp del]

lemmas unlink_rec_evolves [evo] = unlink_evolves(1)

section \<open>Handlers\<close>

lemma GetRealFilePath_lib: "GetRealFilePath p n s = (e, q, s') \<Longrightarrow> lib s' = lib s"
  using GetRealFilePath_evolves [of s s] by (auto simp: evolves_lib)

lemma AddOpenFile_evolves:
  assumes "evolves s0 s" "malloc_node s = (p, s1)" "AddOpenFile p (Some fd) (files s1) = (rc, t)"
  shows "evolves s0 (s1\<lparr>files := t\<rparr>)"
proof -
  have e: "evolves s0 s1" by (rule malloc_node_evolves [OF assms(1,2)])
  have "\<exists>ps'. files_ok t ps'" if ok: "files_ok (files s1) ps" for ps
  proof (cases "p = 0")
    case True
    then show ?thesis using assms(3) ok by (auto simp: AddOpenFile_def)
  next
    case False
    have "files s1 = files s" using assms(2) by (auto simp: malloc_node_def sys_def Let_def split: prod.splits)
    then have "ffile (files s1) p = None"
      using assms(2) False by (auto simp: malloc_node_def sys_def Let_def split: prod.splits if_splits)
    then have "p \<notin> set ps" using ok by (auto simp: files_ok_def)
    from AddOpenFile_ok [OF ok False this, of "Some fd"] show ?thesis using assms(3) by auto
  qed
  then have "evolves s1 (s1\<lparr>files := t\<rparr>)" by (auto simp: evolves_def)
  then show ?thesis by (rule evolves_trans [OF e])
qed

lemma DoOpenFile_evolves [evo]:
  assumes "evolves s0 s" "DoOpenFile path r s = (e, r', s')" "sec_ok (lib s0)" "length path < PATH_MAX"
  shows "evolves s0 s'"
proof -
  obtain rRet trustPath s1 where g: "GetRealFilePath path PATH_MAX s = (rRet, trustPath, s1)" by (metis surj_pair)
  have e1: "evolves s0 s1" by (rule GetRealFilePath_evolves [OF assms(1) g])
  show ?thesis
  proof (cases "rRet = 0")
    case False
    then show ?thesis using assms(2) g e1 by (simp add: DoOpenFile_def)
  next
    case True
    have ok: "IsValidFilePath (lib s0) trustPath \<or> trustPath = []"
      using GetRealFilePath_valid [OF g [unfolded True]] assms evolves_lib [OF assms(1)] by simp
    obtain mode s2 where a: "arg_str 0 r s1 = (mode, s2)" by (metis surj_pair)
    have e2: "evolves s0 s2" by (rule arg_str_evolves [OF e1 a])
    obtain fd s3 where f: "sys_ret (Fopen trustPath mode) s2 = (fd, s3)" by (metis surj_pair)
    have e3: "evolves s0 s3" by (rule sys_ret_evolves [OF e2 f]) (use ok in \<open>simp add: call_ok_def\<close>)
    define s4 where "s4 = ChownSecStorageDataToSystem trustPath True s3"
    have e4: "evolves s0 s4" unfolding s4_def by (rule Chown_evolves [OF e3])
    obtain p s5 where m: "malloc_node s4 = (p, s5)" by (metis surj_pair)
    obtain rc t where t: "AddOpenFile p (Some fd) (files s5) = (rc, t)" by (metis surj_pair)
    have e6: "evolves s0 (s5\<lparr>files := t\<rparr>)" by (rule AddOpenFile_evolves [OF e4 m t])
    have "evolves s0 (snd (sys (Fclose fd) (s5\<lparr>files := t\<rparr>)))" by (rule snd_sys_evolves [OF e6]) simp
    then show ?thesis using assms(2) g True a f m t e3 e6
      by (auto simp: DoOpenFile_def s4_def Let_def split: if_splits)
  qed
qed

lemma CheckOpenWorkValid_evolves [evo]: "evolves s0 s \<Longrightarrow> CheckOpenWorkValid r p s = (e, r', s') \<Longrightarrow> evolves s0 s'"
  by (auto simp: CheckOpenWorkValid_def split: if_splits option.splits prod.splits dest: evo)

text \<open>A joined path fits in its buffer.\<close>

lemma append_s_length: "sec_ok l \<Longrightarrow> append_s l n s r = (0, p) \<Longrightarrow> length p < n"
  by (auto simp: append_s_ok split: if_splits prod.splits)

lemma JoinFileName_length:
  assumes "sec_ok l" "JoinFileName l u st name 256 = Some (0, p)"
  shows "length p < 256"
  using assms
  by (auto simp: JoinFileName_def JoinFileNameForStorageCE_def JoinFileNameTransient_def DoJoinFileName_def Let_def dirs_ok
      split: if_splits option.splits prod.splits dest: append_s_length)

lemma join_arg_length:
  assumes "join_arg off r s = ((0, p), s')" "sec_ok (lib s)"
  shows "length p < PATH_MAX"
proof -
  have "lib (snd (arg_str off r s)) = lib s" by (auto simp: arg_str_def flag_def split: prod.splits)
  then show ?thesis using assms JoinFileName_length
    by (fastforce simp: join_arg_def FILE_NAME_MAX_BUF_def PATH_MAX_def split: prod.splits option.splits)
qed

lemma lib_set_ids [simp]: "lib (set_ids r s) = lib s"
  by (simp add: set_ids_def SetCurrentStorageId_def SetCurrentUserId_def)

lemma OpenWork_evolves [evo]:
  assumes "evolves s0 s" "OpenWork r s = (r', s')" "sec_ok (lib s0)"
  shows "evolves s0 s'"
proof -
  obtain rc p s1 where j: "join_arg 8 r (set_ids r s) = ((rc, p), s1)" by (metis surj_pair)
  have e1: "evolves s0 s1" by (rule join_arg_evolves [OF _ j]) (use assms(1) in simp)
  show ?thesis
  proof (cases "rc = 0")
    case False
    then show ?thesis using assms(2) j e1 by (auto simp: OpenWork_def)
  next
    case True
    have "length p < PATH_MAX" using join_arg_length [OF j [unfolded True]] assms(3) evolves_lib [OF assms(1)] by simp
    obtain rc1 r1 s2 where c: "CheckOpenWorkValid r p s1 = (rc1, r1, s2)" by (metis surj_pair)
    have e2: "evolves s0 s2" by (rule CheckOpenWorkValid_evolves [OF e1 c])
    obtain rc2 s3 where d: "CreateDir p FILE_NAME_MAX_BUF s2 = (rc2, s3)" by (metis surj_pair)
    have e3: "evolves s0 s3" by (rule CreateDir_evolves [OF e2 d])
    obtain e r2 s4 where o: "DoOpenFile p r1 s3 = (e, r2, s4)" by (metis surj_pair)
    have e4: "evolves s0 s4" by (rule DoOpenFile_evolves [OF e3 o assms(3) \<open>length p < PATH_MAX\<close>])
    show ?thesis using assms(2) j True c d o e2 e3 e4
      by (auto simp: OpenWork_def dest: finish_evolves split: if_splits)
  qed
qed

lemma CloseWork_evolves [evo]:
  assumes "evolves s0 s" "CloseWork r s = (r', s')"
  shows "evolves s0 s'"
proof -
  obtain found p s1 where f: "find_open (arg_int 0 r) s = ((found, p), s1)" by (metis surj_pair)
  have e1: "evolves s0 s1" by (rule find_open_evolves [OF assms(1) f])
  obtain rc s2 where c: "sys_ret (Fclose (arg_int 0 r)) s1 = (rc, s2)" by (metis surj_pair)
  have e2: "evolves s0 s2" by (rule quiet_sys_ret [OF e1 c]) simp
  have del: "\<exists>ps'. files_ok (free_node p (DelOpenFile p (files s2))) ps'" if ok: "files_ok (files s2) ps" "found" for ps
  proof -
    have fs: "files s2 = files s" using f c by (auto simp: find_open_def sys_ret_def sys_def Let_def flag_def split: option.splits)
    from FindOpenFile_ok [OF ok(1), of "arg_int 0 r"] have "p \<in> set ps"
      using f ok(2) by (auto simp: fs find_open_def find_Some_iff split: option.splits)
    then show ?thesis using DelOpenFile_ok [OF ok(1)] by blast
  qed
  show ?thesis
  proof (cases "found \<and> rc = 0")
    case True
    then have "s' = s2\<lparr>files := free_node p (DelOpenFile p (files s2))\<rparr>" using assms(2) f c by (auto simp: CloseWork_def)
    moreover have "evolves s2 (s2\<lparr>files := free_node p (DelOpenFile p (files s2))\<rparr>)"
      using del True by (auto simp: evolves_def)
    ultimately show ?thesis using evolves_trans [OF e2] by simp
  next
    case False
    then show ?thesis using assms(2) f c e1 e2 by (auto simp: CloseWork_def dest: finish_evolves split: if_splits)
  qed
qed

text \<open>The rules in an order in which the equation is used up.\<close>

lemmas fwd = find_open_evolves [rotated] quiet_sys [rotated] quiet_sys_ret [rotated] join_arg_evolves [rotated]
  arg_str_evolves [rotated] finish_evolves

lemma ReadWork_evolves [evo]: "evolves s0 s \<Longrightarrow> ReadWork r s = (r', s') \<Longrightarrow> evolves s0 s'"
  by (auto simp: ReadWork_def Let_def split: prod.splits if_splits dest!: fwd)

lemma WriteWork_evolves [evo]: "evolves s0 s \<Longrightarrow> WriteWork r s = (r', s') \<Longrightarrow> evolves s0 s'"
  by (auto simp: WriteWork_def Let_def split: prod.splits if_splits dest!: fwd)

lemma SeekWork_evolves [evo]: "evolves s0 s \<Longrightarrow> SeekWork r s = (r', s') \<Longrightarrow> evolves s0 s'"
  by (auto simp: SeekWork_def split: prod.splits if_splits dest!: fwd)

lemma RemoveWork_evolves [evo]: "evolves s0 s \<Longrightarrow> RemoveWork fuel r s = Some (r', s') \<Longrightarrow> evolves s0 s'"
  by (auto simp: RemoveWork_def split: prod.splits if_splits dest!: fwd dest: unlink_rec_evolves)

lemma TruncateWork_evolves [evo]: "evolves s0 s \<Longrightarrow> TruncateWork r s = (r', s') \<Longrightarrow> evolves s0 s'"
  by (auto simp: TruncateWork_def split: prod.splits if_splits dest!: fwd)

lemma RenameWork_evolves [evo]: "evolves s0 s \<Longrightarrow> RenameWork r s = (r', s') \<Longrightarrow> evolves s0 s'"
  by (auto simp: RenameWork_def split: prod.splits if_splits dest!: fwd)

lemma FileInfoWork_evolves [evo]: "evolves s0 s \<Longrightarrow> FileInfoWork r s = (r', s') \<Longrightarrow> evolves s0 s'"
  by (auto simp: FileInfoWork_def Let_def split: prod.splits if_splits dest!: fwd)

lemma FileAccessWork_evolves [evo]: "evolves s0 s \<Longrightarrow> FileAccessWork r s = (r', s') \<Longrightarrow> evolves s0 s'"
  by (auto simp: FileAccessWork_def Let_def split: prod.splits if_splits
      dest!: fwd)

lemma FsyncWork_evolves [evo]: "evolves s0 s \<Longrightarrow> FsyncWork r s = (r', s') \<Longrightarrow> evolves s0 s'"
  by (auto simp: FsyncWork_def Let_def split: prod.splits if_splits dest!: fwd)

lemma DiskUsageWork_evolves [evo]: "evolves s0 s \<Longrightarrow> DiskUsageWork r s = (r', s') \<Longrightarrow> evolves s0 s'"
  by (auto simp: DiskUsageWork_def split: prod.splits if_splits dest!: fwd)

lemma DeleteAllWork_evolves [evo]: "evolves s0 s \<Longrightarrow> DeleteAllWork fuel r s = Some (r', s') \<Longrightarrow> evolves s0 s'"
  by (auto simp: DeleteAllWork_def split: prod.splits if_splits dest!: fwd dest: unlink_rec_evolves)

section \<open>Copying\<close>

lemma copy_loop_evolves: "evolves s0 s \<Longrightarrow> copy_loop fuel a b s = Some (rc, s') \<Longrightarrow> evolves s0 s'"
proof (induction fuel a b s rule: copy_loop.induct)
  case (2 fuel a b s)
  obtain d s1 where r: "sys (ReadFd a) s = (d, s1)" by (metis surj_pair)
  obtain rc1 s2 where f: "sys_ret (Fsync b) s1 = (rc1, s2)" by (metis surj_pair)
  obtain w s3 where w: "sys_ret (WriteFd b (take MAXBSIZE (a_bytes d))) s1 = (w, s3)" by (metis surj_pair)
  have e1: "evolves s0 s1" by (rule quiet_sys [OF "2.prems"(1) r]) simp
  have e2: "evolves s0 s2" by (rule quiet_sys_ret [OF e1 f]) simp
  have e3: "evolves s0 s3" by (rule quiet_sys_ret [OF e1 w]) simp
  let ?buf = "take MAXBSIZE (a_bytes d)"
  show ?case
  proof (cases "a_ret d < 0 \<or> ?buf = [] \<or> w \<noteq> int (length ?buf)")
    case True
    then show ?thesis using "2.prems"(2) r f w e1 e2 e3 by (auto simp: Let_def split: if_splits)
  next
    case False
    then have "copy_loop fuel a b s3 = Some (rc, s')" using "2.prems"(2) r w by (auto simp: Let_def split: if_splits)
    then show ?thesis using "2.IH" [OF r [symmetric] refl _ _ w [symmetric] _ e3] False by blast
  qed
qed simp

lemma DoCopy_evolves: "evolves s0 s \<Longrightarrow> DoCopy fuel a b s = Some (rc, s') \<Longrightarrow> evolves s0 s'"
  by (auto simp: DoCopy_def split: prod.splits if_splits dest!: fwd dest: copy_loop_evolves)

lemma CopyFile_evolves:
  assumes "evolves s0 s" "CopyFile fuel p q s = Some (rc, s')" "sec_ok (lib s0)" "length p < PATH_MAX" "length q < PATH_MAX"
  shows "evolves s0 s'"
proof -
  obtain e1 p' s1 where g1: "GetRealFilePath p PATH_MAX s = (e1, p', s1)" by (metis surj_pair)
  obtain e2 q' s2 where g2: "GetRealFilePath q PATH_MAX s1 = (e2, q', s2)" by (metis surj_pair)
  have v1: "evolves s0 s1" by (rule GetRealFilePath_evolves [OF assms(1) g1])
  have v2: "evolves s0 s2" by (rule GetRealFilePath_evolves [OF v1 g2])
  show ?thesis
  proof (cases "e1 = 0 \<and> e2 = 0")
    case False
    then show ?thesis using assms(2) g1 g2 v1 v2 by (auto simp: CopyFile_def split: if_splits)
  next
    case True
    have ok: "call_ok (lib s0) (OpenRead p')" "call_ok (lib s0) (OpenWrite q')"
      using GetRealFilePath_valid [of p PATH_MAX s p' s1] GetRealFilePath_valid [of q PATH_MAX s1 q' s2]
        g1 g2 True assms(3-5) evolves_lib [OF assms(1)] evolves_lib [OF v1] by (auto simp: call_ok_def)
    obtain a s3 where o1: "sys_ret (OpenRead p') s2 = (a, s3)" by (metis surj_pair)
    obtain st s4 where st: "sys_ret (Fstat a) s3 = (st, s4)" by (metis surj_pair)
    obtain b s5 where o2: "sys_ret (OpenWrite q') s4 = (b, s5)" by (metis surj_pair)
    have v3: "evolves s0 s3" by (rule sys_ret_evolves [OF v2 o1 ok(1)])
    have v4: "evolves s0 s4" by (rule quiet_sys_ret [OF v3 st]) simp
    have v5: "evolves s0 s5" by (rule sys_ret_evolves [OF v4 o2 ok(2)])
    show ?thesis
      using assms(2) g1 g2 True o1 st o2 v3 v4 v5
      by (auto simp: CopyFile_def split: if_splits option.splits
          intro!: close_fds_evolves Chown_evolves dest: DoCopy_evolves)
  qed
qed

lemma CopyWork_evolves [evo]:
  assumes "evolves s0 s" "CopyWork fuel r s = Some (r', s')" "sec_ok (lib s0)"
  shows "evolves s0 s'"
proof -
  obtain rc1 p s1 where j1: "join_arg 8 r (set_ids r s) = ((rc1, p), s1)" by (metis surj_pair)
  obtain rc2 q s2 where j2: "join_arg (8 + unat (arg_u32 0 r)) r s1 = ((rc2, q), s2)" by (metis surj_pair)
  have v1: "evolves s0 s1" by (rule join_arg_evolves [OF _ j1]) (use assms(1) in simp)
  have v2: "evolves s0 s2" by (rule join_arg_evolves [OF v1 j2])
  show ?thesis
  proof (cases "rc1 = 0 \<and> rc2 = 0")
    case False
    then show ?thesis using assms(2) j1 j2 v2 by (auto simp: CopyWork_def)
  next
    case True
    have "length p < PATH_MAX" "length q < PATH_MAX"
      using join_arg_length [of 8 r "set_ids r s" p s1] join_arg_length [of "8 + unat (arg_u32 0 r)" r s1 q s2]
        j1 j2 True assms(3) evolves_lib [OF assms(1)] evolves_lib [OF v1] by auto
    then show ?thesis using assms(2,3) j1 j2 True v2
      by (auto simp: CopyWork_def dest!: finish_evolves dest: CopyFile_evolves)
  qed
qed

section \<open>The thread\<close>

lemma fs_work_evolves:
  assumes "evolves s0 s" "fs_work fuel r s = Some (r', s')" "sec_ok (lib s0)"
  shows "evolves s0 s'"
proof (cases "cmd r")
  case None
  then show ?thesis using assms by (simp add: fs_work_def)
next
  case (Some c)
  then have "g_fsWorkTbl fuel c r s = Some (r', s')" using assms(2) by (simp add: fs_work_def)
  then show ?thesis using assms(1,3) by (cases c) (auto dest: evo)
qed

lemma FsWorkThread_evolves:
  assumes "sec_ok (lib s0)"
  shows "evolves s0 s \<Longrightarrow> FsWorkThread fuel rs s = Some (out, s') \<Longrightarrow> evolves s0 s'"
proof (induction rs arbitrary: s out)
  case (Cons r rs)
  obtain rc s1 where w: "sys_ret WaitEvent s = (rc, s1)" by (metis surj_pair)
  have e1: "evolves s0 s1" by (rule quiet_sys_ret [OF Cons.prems(1) w]) simp
  show ?case
  proof (cases "rc = 0")
    case False
    then show ?thesis using Cons.prems(2) w e1 by simp
  next
    case True
    then obtain r1 s2 where f: "fs_work fuel r s1 = Some (r1, s2)"
      using Cons.prems(2) w by (auto split: option.splits)
    have e2: "evolves s0 s2" by (rule fs_work_evolves [OF e1 f assms])
    obtain rc3 s3 where x: "sys_ret SendResponse s2 = (rc3, s3)" by (metis surj_pair)
    have e3: "evolves s0 s3" by (rule quiet_sys_ret [OF e2 x]) simp
    show ?thesis using Cons.prems(2) w True f x e3 Cons.IH [OF e3] by (auto split: if_splits)
  qed
qed simp

end
