(* ===== verification/Fs_Props.thy ===== *)
theory Fs_Props
  imports Fs_Safe
begin

text \<open>
  The properties of the storage agent: the list of open files, the paths it opens, and how names become paths, with the
  names that lead out of the storage directory when a tree is removed.
\<close>

section \<open>The list of open files\<close>

text \<open>
  C13. The hand-written circular list implements a sequence of open files: after any script of \<^verbatim>\<open>AddOpenFile\<close> of new
  nodes and \<^verbatim>\<open>DelOpenFile\<close> of nodes in the list, with the node freed after it, the ring holds exactly the nodes that
  appending to and removing from a plain list leaves, and \<^verbatim>\<open>FindOpenFile\<close> ends and returns the first of
  them with the descriptor.
\<close>

theorem open_files_refine_list:
  assumes "files_ok t ps" "ops_ok (\<lambda>e. e \<noteq> 0) ps ops"
    and "t' = node_run (\<lambda>e t. snd (AddOpenFile e stream t)) (\<lambda>e t. free_node e (DelOpenFile e t)) t ops"
  shows "files_ok t' (list_run ps ops) \<and>
    FindOpenFile fd t' = Some (case find (\<lambda>q. ffile t' q = Some (Some fd)) (list_run ps ops) of None \<Rightarrow> (False, 0) | Some q \<Rightarrow> (True, q))"
proof -
  have ok: "files_ok t' (list_run ps ops)" unfolding assms(3) using assms(1,2) by (rule open_list.simulation)
  then show ?thesis using FindOpenFile_ok [OF ok] by simp
qed

lemma open_files_refine_list_witness:
  "files_ok (node_run (\<lambda>e t. snd (AddOpenFile e (Some 5) t)) (\<lambda>e t. free_node e (DelOpenFile e t)) no_files
     [PushTail 1, PushTail 2, node_op.Unlink 1]) [2]"
  using open_files_refine_list [OF files_ok_none, of "[PushTail 1, PushTail 2, node_op.Unlink 1]" _ "Some 5"] by simp

section \<open>The paths that are opened\<close>


text \<open>A request to create the file \<^verbatim>\<open>a\<close>, on a file system that has no such file but all directories.\<close>

definition ex_str :: "string \<Rightarrow> u8 list" where
  "ex_str s = map (\<lambda>c. of_nat (of_char c)) s @ [0]"

definition ex_request :: "FsCmdType \<Rightarrow> u8 list \<Rightarrow> SecStorageType" where
  "ex_request c bytes = \<lparr>cmd = Some c, ret = 0, ret2 = 0, userId = 0, storageId = 0, magic = 0, error = 0, args = bytes\<rparr>"


definition ex_fs :: "(nat \<Rightarrow> answer) \<Rightarrow> fs_state" where
  "ex_fs ans = \<lparr>lib = sec_std, answers = ans, tick = 0, calls = [], errno = 0, overrun = False, files = no_files,
     g_userId = 0, g_storageId = 0\<rparr>"




section \<open>Names\<close>







text \<open>
  C29. Removing trees leaves the storage directory. The name \<^verbatim>\<open>..\<close> does not contain \<^verbatim>\<open>../\<close>: it is
  accepted and the request to remove it removes the whole parent of the storage directory. The request to delete
  everything does not check its name at all: a relative name, with any number of \<^verbatim>\<open>../\<close>, is removed
  recursively below the storage directory.
\<close>

theorem recursive_removal_leaves_storage:
  assumes "sec_ok (lib s)" "c_str 4 (args r) = (name, True)"
    and "\<not> starts_with name SFS_PARTITION_TRANSIENT" "\<not> starts_with name SFS_PARTITION_PERSISTENT" "length name < 200"
  shows "(name = ''..'' \<and> storageId r \<noteq> TEE_OBJECT_STORAGE_CE \<longrightarrow>
      RemoveWork fuel r s =
        map_option (\<lambda>(rc, s2). finish rc r s2) (unlink_rec fuel ''/var/itrustee/sec_storage_data/..'' (set_ids r s))) \<and>
    DeleteAllWork fuel r s =
      map_option (\<lambda>(rc, s2). finish rc r s2) (unlink_rec fuel (USER_DATA_DIR @ name) (SetCurrentUserId (userId r) s))"
proof -
  have ns: "\<not> starts_with name SFS_PARTITION_TRANSIENT_PERSO" "\<not> starts_with name SFS_PARTITION_TRANSIENT_PRIVATE"
    using assms(3) by (auto simp: starts_with_iff fs_dirs)
  have L: "length USER_DATA_DIR = 31" by (simp add: USER_DATA_DIR_def)
  have join: "DoJoinFileName (lib s) name 256 = (0, USER_DATA_DIR @ name)"
    using assms(4,5) ns L by (simp add: DoJoinFileName_def dirs_ok [OF assms(1)] append_s_ok [OF assms(1)])
  have fs: "lib (SetCurrentUserId i s) = lib s" "g_storageId (set_ids r s) = storageId r" for i
    by (simp_all add: SetCurrentUserId_def set_ids_def SetCurrentStorageId_def)
  have arg: "arg_str 4 r s1 = (name, s1)" for s1 using assms(2) by (simp add: arg_str_def flag_def)
  have "DeleteAllWork fuel r s =
      map_option (\<lambda>(rc, s2). finish rc r s2) (unlink_rec fuel (USER_DATA_DIR @ name) (SetCurrentUserId (userId r) s))"
    by (simp add: DeleteAllWork_def arg fs join FILE_NAME_MAX_BUF_def)
  moreover have "RemoveWork fuel r s =
      map_option (\<lambda>(rc, s2). finish rc r s2) (unlink_rec fuel ''/var/itrustee/sec_storage_data/..'' (set_ids r s))"
    if n: "name = ''..''" "storageId r \<noteq> TEE_OBJECT_STORAGE_CE"
  proof -
    have "CheckFileNameAndPath name = 0" unfolding n(1) by code_simp
    then have "JoinFileName (lib s) u (storageId r) name 256 = Some (0, USER_DATA_DIR @ name)" for u
      using n(2) assms(3) by (simp add: JoinFileName_def join)
    moreover have "USER_DATA_DIR @ name = ''/var/itrustee/sec_storage_data/..''" by (simp add: n(1) USER_DATA_DIR_def)
    ultimately show ?thesis by (simp add: RemoveWork_def join_arg_def arg fs FILE_NAME_MAX_BUF_def)
  qed
  ultimately show ?thesis by blast
qed

lemma recursive_removal_leaves_storage_witness:
  "\<forall>answers. DeleteAllWork 9 (ex_request SEC_DELETE_ALL (replicate 4 0 @ ex_str ''../../../etc'')) (ex_fs answers) =
     map_option (\<lambda>(rc, s2). finish rc (ex_request SEC_DELETE_ALL (replicate 4 0 @ ex_str ''../../../etc'')) s2)
       (unlink_rec 9 ''/var/itrustee/sec_storage_data/../../../etc'' (SetCurrentUserId 0 (ex_fs answers)))"
proof
  fix answers
  let ?r = "ex_request SEC_DELETE_ALL (replicate 4 0 @ ex_str ''../../../etc'')"
  have "c_str 4 (args ?r) = (''../../../etc'', True)" "\<not> starts_with ''../../../etc'' SFS_PARTITION_TRANSIENT"
    "\<not> starts_with ''../../../etc'' SFS_PARTITION_PERSISTENT" by code_simp+
  moreover have "sec_ok (lib (ex_fs answers))" by (simp add: ex_fs_def sec_std_ok)
  ultimately show "DeleteAllWork 9 ?r (ex_fs answers) =
      map_option (\<lambda>(rc, s2). finish rc ?r s2)
        (unlink_rec 9 ''/var/itrustee/sec_storage_data/../../../etc'' (SetCurrentUserId 0 (ex_fs answers)))"
    using recursive_removal_leaves_storage [of "ex_fs answers" ?r "''../../../etc''" 9]
    by (simp add: USER_DATA_DIR_def ex_request_def)
qed

end
