(* ===== verification/Spec2Isabelle.thy ===== *)
theory Spec2Isabelle
  imports Prelude Bitmap Intrusive_List Refcount Fd_List Serialize Client_Props Queue_Props Pool_Props Fs_Props
begin

text \<open>
  The client side of a trusted execution environment for Linux: the client library that applications link
  (\<^verbatim>\<open>src/libteec_vendor\<close>), the daemon whose agents do file work for the trusted side
  (\<^verbatim>\<open>src/teecd\<close>), and the proxy that runs system calls for trusted applications
  (\<^verbatim>\<open>src/tee_teleport/posix_proxy\<close>). Paths in this header are relative to the repository's top directory \<^verbatim>\<open>src\<close>.

  \<^bold>\<open>How the parts interact.\<close> An application calls the library, which keeps contexts (an open descriptor
  of the driver each), sessions and shared memories, encodes the four parameters of a command into a driver
  request, and finds and loads the file of the trusted application when a session is opened. A session pool on top of it
  shares the sessions of one application between threads. Bitmaps hand out the
  offsets of shared memory and the sessions of a pool; intrusive lists and reference counters hold the objects.
  In the other direction the trusted side asks: the storage agent of the daemon serves one request at a time from
  a shared buffer, and the proxy receives calls through a queue in shared memory, unmarshals their arguments and
  keeps the packages of descriptors that a call refers to.

  \<^bold>\<open>Conventions.\<close> A struct is a record, an enum a datatype or word constants, a null pointer \<^const>\<open>None\<close> or the word 0,
  an object on the heap an entry of a partial map. Integers have the width of C and wrap as in C, for the 64-bit targets
  (little endian). What the operating system or a third-party
  function answers is an argument or the next value of an arbitrary sequence of answers, so a theorem
  holds for every behaviour of it. The functions of libboundscheck are parameters, and where a theorem needs
  their documented behaviour it is a named hypothesis (\<open>memcpy_s_ok\<close>, \<open>sec_ok\<close>, \<open>snprintf_s_ok\<close>). A wrong access of
  memory is not left out: it sets a mark in the state (\<open>fault\<close>, \<open>app_fault\<close>, \<open>overrun\<close>) or is the result
  \<^const>\<open>None\<close>. Logging has no effect on the state.

  \<^bold>\<open>Shared foundations.\<close>
  \<^item> \<open>Prelude\<close>: machine types, \<^verbatim>\<open>errno\<close> values, generic lemmas. \<open>Bytes\<close>: words in byte buffers.
    \<open>C_Strings\<close>: the string functions of the standard library.
  \<^item> \<open>Bitmap\<close>: the bitmap allocator of \<^verbatim>\<open>tee_client_api.c\<close>. Abstraction: the set of set bits. The locale
    \<open>slot_pool\<close> is its contract (never hand out a held slot); it is interpreted with set bits as used slots (shared memory
    offsets) and with set bits as free slots (session pools).
  \<^item> \<open>Intrusive_List\<close>: the list macros of \<^verbatim>\<open>include/tee_client_list.h\<close> on a heap of links; \<open>ring\<close> is the
    abstraction to a sequence, the locale \<open>node_list\<close> the simulation of any script of insertions and removals. Other theories
    then use sequences of addresses for these lists. It is interpreted for these macros and for the list of open files.
  \<^item> \<open>Refcount\<close>: \<^verbatim>\<open>AtomInc\<close> and \<^verbatim>\<open>AtomDecAndCompareWithZero\<close>, and the locale \<open>refcounted\<close>: an object is
    allocated exactly as long as a reference is held. It is interpreted for contexts and for descriptor packages.

  \<^bold>\<open>The client library.\<close>
  \<^item> \<open>Client_World\<close>: contexts, sessions, shared memories, operations, blocks of memory and open descriptors as one
    record \<open>world\<close>, with the log of the driver calls. An object of the library is reached
    through \<open>use_ctx\<close> or \<open>use_shm\<close>, which set \<open>fault\<close> when it is not there.
  \<^item> \<open>Teec_Operation\<close>: \<^verbatim>\<open>TEEC_CheckOperation\<close> and \<^verbatim>\<open>TEEC_Encode\<close>. \<open>App_Load\<close>: \<^verbatim>\<open>tee_client_app_load.c\<close>
    and \<^verbatim>\<open>tee_load_sec_file.c\<close>.
  \<^item> \<open>Client_State\<close>: the other functions of \<^verbatim>\<open>tee_client_api.c\<close> under their names, each with all its guards
    and calls in the order of the code.
  \<^item> \<open>Client_Inv\<close>, \<open>Client_Safe\<close>, \<open>Client_Shm_Safe\<close>: the invariant \<open>client_inv\<close> (the counter of a context or shared
    memory is the number of references to it; objects in lists are allocated; buffers belong to one memory; a context has its
    own open descriptor) and its preservation, function by function. \<open>Client_Api\<close>: runs of calls, life of a context, retries
    of an open request (at most 30). \<open>Client_Marks\<close>: a marked wrong access stays marked.
    \<open>Client_Props\<close>: the properties of the library.
  \<^item> \<open>Session_Pool\<close>, \<open>Pool_Props\<close>: \<^verbatim>\<open>tee_session_pool.c\<close>, and the inductive step relation \<open>pool_step\<close> of the
    opening thread and any number of callers.

  \<^bold>\<open>The proxy.\<close>
  \<^item> \<open>Fd_List\<close>: \<^verbatim>\<open>fd_list.c\<close>, reference-counted packages and the bitmap of descriptors.
  \<^item> \<open>Serialize\<close>: \<^verbatim>\<open>serialize.c\<close>, exact size, round trip, and the size check that wraps.
  \<^item> \<open>Blocking_Queue\<close>: \<^verbatim>\<open>xtasklet/blocking_queue.c\<close>. \<open>Queue_Fifo\<close>: the ring as a list of messages, and the
    producer against the consumer. \<open>Queue_Props\<close>: first in first out for every interleaving, ends of waits.

  \<^bold>\<open>The daemon.\<close>
  \<^item> \<open>Open_Files\<close>: the hand-written circular list of \<^verbatim>\<open>fs_work_agent.c\<close>. \<open>Fs_Paths\<close>: from names to paths.
    \<open>Fs_Agent\<close>: all handlers of the work table and the thread's loop over the requests. \<open>Fs_Safe\<close>: what every handler
    keeps. \<open>Fs_Props\<close>: confinement of the opened paths, refinement of the list, and two names that escape from the storage
    directory when a tree is removed.

  \<^bold>\<open>Bounds and fuel.\<close> \<open>find_loop\<close> of the list of open files has the number of allocated nodes as fuel, which is enough for
  every well-formed list. The copying loops of the queue have the number of ring entries as fuel, which is enough for every
  message that fits. \<open>open_retry\<close> counts the retries of the code. Walking a tree and copying a file depend on the file
  system, which may never end them: their fuel is an argument and \<^const>\<open>None\<close> is "has not ended". The waits of the queue
  run over a list of observations, and \<^const>\<open>None\<close> means that they still wait at its end.

  \<^bold>\<open>Assumptions of the models.\<close> Code under one lock is one step; in \<open>Pool_Props\<close> a call of the client library is one step
  too, and the steps between the synchronisation points of the pool interleave. In \<open>Client_Api\<close> other calls
  may hold references while a call runs (the argument \<open>held\<close>). \<^verbatim>\<open>PAGE_SIZE\<close> is 4096. The two variants of a
  function under a preprocessor switch are modelled in the default configuration of \<^verbatim>\<open>Makefile\<close>.

  \<^bold>\<open>Not modelled.\<close> The registration of agents with the driver and the start of the daemon's threads
  (\<^verbatim>\<open>teecd.c\<close>, \<^verbatim>\<open>tee_agent.c\<close>, \<^verbatim>\<open>FsAgentInit\<close>); the other agents and the authentication of clients
  (\<^verbatim>\<open>misc_work_agent.c\<close>, \<^verbatim>\<open>secfile_load_agent.c\<close>, \<^verbatim>\<open>tee_ca_daemon.c\<close>, \<^verbatim>\<open>src/authentication\<close>); the dispatch and the
  system calls of the proxy (\<^verbatim>\<open>posix_proxy.c\<close>, \<^verbatim>\<open>posix_*.c\<close>) and its worker threads (\<^verbatim>\<open>cross_tasklet.c\<close>,
  \<^verbatim>\<open>thread_pool.c\<close>); the command line tools (\<^verbatim>\<open>src/tee_teleport\<close>) and the log daemon (\<^verbatim>\<open>src/tlogcat\<close>): mostly input and
  output, not reached yet. \<^verbatim>\<open>tee_custom_log.c\<close> only writes messages.
\<close>

end
